(* ===== verification/Cox_Prelude.thy ===== *)
theory Cox_Prelude
  imports Main "HOL-Library.Word"
begin

text \<open>
  Shared vocabulary of the development: the pieces of Rust's \<open>str\<close>, \<open>Vec\<close>, \<open>HashMap\<close> and
  iterator interfaces that the modelled crates use, with the lemmas the component theories
  need about them.  A Rust \<open>String\<close> is its UTF-8 byte sequence, here a \<^typ>\<open>string\<close> whose
  characters are the bytes; a \<open>HashMap\<close> is an association list with at most one entry per
  key (its iteration order is the list's order, which no theorem fixes); \<open>usize\<close> lengths
  and indices are \<^typ>\<open>nat\<close>; other machine integers keep their width as words.
\<close>

section \<open>Names for the model's types\<close>

type_synonym u8 = "8 word"
type_synonym u16 = "16 word"
type_synonym u32 = "32 word"
type_synonym u64 = "64 word"

named_theorems str_simps \<open>rewriting of the Rust string operations\<close>
named_theorems alist_simps \<open>rewriting of the association-list maps\<close>

section \<open>Bytes and characters\<close>

definition byte_of :: "char \<Rightarrow> u8" where
  "byte_of c = word_of_nat (of_char c)"

definition char_from :: "u8 \<Rightarrow> char" where
  "char_from b = char_of (unat b)"

lemma char_from_byte_of [simp]: "char_from (byte_of c) = c"
  by (simp add: char_from_def byte_of_def unat_of_nat char_of_mod_256)

lemma byte_of_char_from [simp]: "byte_of (char_from b) = b"
proof -
  have "unat b < 256" using unsigned_less[of b, where ?'a = nat] by simp
  then show ?thesis by (simp add: char_from_def byte_of_def)
qed

lemma char_from_eq_iff: "char_from b = c \<longleftrightarrow> b = byte_of c"
  by (metis byte_of_char_from char_from_byte_of)

section \<open>Rust string operations\<close>

definition starts_with :: "string \<Rightarrow> string \<Rightarrow> bool" where
  "starts_with s p \<longleftrightarrow> take (length p) s = p"

definition ends_with :: "string \<Rightarrow> string \<Rightarrow> bool" where
  "ends_with s p \<longleftrightarrow> length p \<le> length s \<and> drop (length s - length p) s = p"

definition strip_prefix :: "string \<Rightarrow> string \<Rightarrow> string option" where
  "strip_prefix s p = (if starts_with s p then Some (drop (length p) s) else None)"

definition strip_suffix :: "string \<Rightarrow> string \<Rightarrow> string option" where
  "strip_suffix s p = (if ends_with s p then Some (take (length s - length p) s) else None)"

fun find_char :: "char \<Rightarrow> string \<Rightarrow> nat option" where
  "find_char c [] = None"
| "find_char c (x # xs) = (if x = c then Some 0 else map_option Suc (find_char c xs))"

fun rfind_char :: "char \<Rightarrow> string \<Rightarrow> nat option" where
  "rfind_char c [] = None"
| "rfind_char c (x # xs) =
     (case rfind_char c xs of
        Some i \<Rightarrow> Some (Suc i)
      | None \<Rightarrow> (if x = c then Some 0 else None))"

fun split_on :: "char \<Rightarrow> string \<Rightarrow> string list" where
  "split_on c [] = [[]]"
| "split_on c (x # xs) =
     (if x = c then [] # split_on c xs
      else (case split_on c xs of [] \<Rightarrow> [[x]] | y # ys \<Rightarrow> (x # y) # ys))"

definition trim_end_matches :: "char \<Rightarrow> string \<Rightarrow> string" where
  "trim_end_matches c s = rev (dropWhile (\<lambda>x. x = c) (rev s))"

lemma starts_with_Nil [simp]: "starts_with s []"
  by (simp add: starts_with_def)

lemma starts_with_Cons [simp]:
  "starts_with [] (p # ps) = False"
  "starts_with (x # xs) (p # ps) = (x = p \<and> starts_with xs ps)"
  by (auto simp: starts_with_def)

lemma starts_with_iff: "starts_with s p \<longleftrightarrow> (\<exists>r. s = p @ r)"
  unfolding starts_with_def by (metis append_eq_conv_conj append_take_drop_id)

lemma ends_with_iff: "ends_with s p \<longleftrightarrow> (\<exists>r. s = r @ p)"
proof
  assume "ends_with s p"
  then show "\<exists>r. s = r @ p"
    unfolding ends_with_def by (metis append_take_drop_id)
qed (auto simp: ends_with_def)

lemma strip_prefix_eq_Some [str_simps]: "strip_prefix s p = Some r \<longleftrightarrow> s = p @ r"
  by (auto simp: strip_prefix_def starts_with_iff)

lemma strip_prefix_eq_None [str_simps]: "strip_prefix s p = None \<longleftrightarrow> \<not> starts_with s p"
  by (simp add: strip_prefix_def)

lemma strip_prefix_append [simp]: "strip_prefix (p @ r) p = Some r"
  by (simp add: strip_prefix_eq_Some)

lemma strip_suffix_eq_Some [str_simps]: "strip_suffix s p = Some r \<longleftrightarrow> s = r @ p"
  by (auto simp: strip_suffix_def ends_with_iff)

lemma strip_suffix_eq_None [str_simps]: "strip_suffix s p = None \<longleftrightarrow> \<not> ends_with s p"
  by (simp add: strip_suffix_def)

lemma strip_suffix_append [simp]: "strip_suffix (r @ p) p = Some r"
  by (simp add: strip_suffix_eq_Some)

lemma find_char_None [str_simps]: "find_char c s = None \<longleftrightarrow> c \<notin> set s"
  by (induction s) auto

lemma find_char_append: "c \<notin> set s \<Longrightarrow> find_char c (s @ c # t) = Some (length s)"
  by (induction s) auto

lemma rfind_char_None [str_simps]: "rfind_char c s = None \<longleftrightarrow> c \<notin> set s"
  by (induction s) (auto split: option.splits)

lemma rfind_char_append: "c \<notin> set t \<Longrightarrow> rfind_char c (s @ c # t) = Some (length s)"
proof (induction s)
  case Nil
  then have "rfind_char c t = None" by (simp add: rfind_char_None)
  then show ?case by simp
qed simp

lemma split_on_not_Nil [simp]: "split_on c s \<noteq> []"
  by (induction s) (auto split: list.splits)

lemma split_on_no_sep: "c \<notin> set s \<Longrightarrow> split_on c s = [s]"
  by (induction s) auto

lemma split_on_append_sep: "c \<notin> set s \<Longrightarrow> split_on c (s @ c # t) = s # split_on c t"
  by (induction s) auto

lemma split_on_sep_free: "seg \<in> set (split_on c s) \<Longrightarrow> c \<notin> set seg"
  by (induction s arbitrary: seg) (auto split: list.splits if_splits)

lemma trim_end_matches_snoc [simp]:
  "trim_end_matches c (s @ [x]) = (if x = c then trim_end_matches c s else s @ [x])"
  by (simp add: trim_end_matches_def)

lemma trim_end_matches_Nil [simp]: "trim_end_matches c [] = []"
  by (simp add: trim_end_matches_def)

lemma trim_end_matches_decomp: "\<exists>n. s = trim_end_matches c s @ replicate n c"
proof (induction s rule: rev_induct)
  case (snoc x s)
  show ?case
  proof (cases "x = c")
    case True
    from snoc obtain n where "s = trim_end_matches c s @ replicate n c" by blast
    then have "s @ [c] = trim_end_matches c s @ replicate (Suc n) c"
      by (metis append_assoc replicate_Suc replicate_append_same)
    with True show ?thesis by (metis trim_end_matches_snoc)
  qed simp
qed simp

lemma trim_end_matches_last:
  "trim_end_matches c s \<noteq> [] \<Longrightarrow> last (trim_end_matches c s) \<noteq> c"
  by (induction s rule: rev_induct) auto

lemma trim_end_matches_idem [simp]:
  "trim_end_matches c (trim_end_matches c s) = trim_end_matches c s"
  by (induction s rule: rev_induct) auto

lemma trim_end_matches_fixed: "s = [] \<or> last s \<noteq> c \<Longrightarrow> trim_end_matches c s = s"
  by (cases s rule: rev_cases) auto

text \<open>\<open>to_ascii_lowercase\<close> and \<open>eq_ignore_ascii_case\<close>: only the bytes \<open>A\<close> to \<open>Z\<close> change.\<close>

definition ascii_lower :: "char \<Rightarrow> char" where
  "ascii_lower c =
     (if 0x41 \<le> byte_of c \<and> byte_of c \<le> 0x5A then char_from (byte_of c + 0x20) else c)"

definition to_ascii_lowercase :: "string \<Rightarrow> string" where
  "to_ascii_lowercase s = map ascii_lower s"

definition eq_ignore_ascii_case :: "string \<Rightarrow> string \<Rightarrow> bool" where
  "eq_ignore_ascii_case a b \<longleftrightarrow> to_ascii_lowercase a = to_ascii_lowercase b"

lemma unat_lower: "b \<le> 0x5A \<Longrightarrow> unat (b + 0x20 :: u8) = unat b + 32"
  by (simp add: word_le_nat_alt unat_word_ariths)

lemma ascii_lower_idem [simp]: "ascii_lower (ascii_lower c) = ascii_lower c"
proof -
  have "0x41 \<le> b \<Longrightarrow> b \<le> 0x5A \<Longrightarrow> \<not> b + 0x20 \<le> 0x5A" for b :: u8
    by (simp add: word_le_nat_alt[of "b + 0x20"] unat_lower) (simp add: word_le_nat_alt)
  then show ?thesis by (simp add: ascii_lower_def)
qed

lemma ascii_lower_eq_dot [simp]: "ascii_lower c = CHR ''.'' \<longleftrightarrow> c = CHR ''.''"
proof -
  have "0x41 \<le> b \<Longrightarrow> b \<le> 0x5A \<Longrightarrow> b + 0x20 \<noteq> 0x2E" for b :: u8
    using unat_lower[of b] by (auto simp: word_le_nat_alt)
  moreover have "byte_of (CHR ''.'') = 0x2E" by (simp add: byte_of_def)
  ultimately show ?thesis by (auto simp: ascii_lower_def char_from_eq_iff)
qed

lemma ascii_lower_eq_star [simp]: "ascii_lower c = CHR ''*'' \<longleftrightarrow> c = CHR ''*''"
proof -
  have "0x41 \<le> b \<Longrightarrow> b \<le> 0x5A \<Longrightarrow> b + 0x20 \<noteq> 0x2A" for b :: u8
    using unat_lower[of b] by (auto simp: word_le_nat_alt)
  moreover have "byte_of (CHR ''*'') = 0x2A" by (simp add: byte_of_def)
  ultimately show ?thesis by (auto simp: ascii_lower_def char_from_eq_iff)
qed

lemma to_ascii_lowercase_simps [simp]:
  "to_ascii_lowercase [] = []"
  "to_ascii_lowercase (c # s) = ascii_lower c # to_ascii_lowercase s"
  "to_ascii_lowercase (s @ t) = to_ascii_lowercase s @ to_ascii_lowercase t"
  "to_ascii_lowercase (to_ascii_lowercase s) = to_ascii_lowercase s"
  "to_ascii_lowercase s = [] \<longleftrightarrow> s = []"
  by (simp_all add: to_ascii_lowercase_def comp_def)

lemma eq_ignore_ascii_case_lower [simp]:
  "eq_ignore_ascii_case (to_ascii_lowercase a) (to_ascii_lowercase b) = eq_ignore_ascii_case a b"
  by (simp add: eq_ignore_ascii_case_def)

lemma find_char_lower_dot: "find_char (CHR ''.'') (to_ascii_lowercase s) = find_char (CHR ''.'') s"
  by (induction s) auto

section \<open>Network addresses\<close>

text \<open>
  \<open>std::net\<close> addresses: an IPv4 address is its 32 bits, an IPv6 address its 128 bits, and
  \<open>octets\<close> lists them most significant byte first.
\<close>

datatype ip_addr = V4 u32 | V6 "128 word"

datatype socket_addr =
    SocketAddrV4 u32 u16
  | SocketAddrV6 "128 word" u16 (flowinfo: u32) (scope_id: u32)

fun sock_ip :: "socket_addr \<Rightarrow> ip_addr" where
  "sock_ip (SocketAddrV4 a p) = V4 a"
| "sock_ip (SocketAddrV6 a p f s) = V6 a"

fun sock_port :: "socket_addr \<Rightarrow> u16" where
  "sock_port (SocketAddrV4 a p) = p"
| "sock_port (SocketAddrV6 a p f s) = p"

definition be_bytes :: "nat \<Rightarrow> 'w::len word \<Rightarrow> u8 list" where
  "be_bytes n w = map (\<lambda>i. ucast (drop_bit (8 * i) w)) (rev [0..<n])"

fun octets :: "ip_addr \<Rightarrow> u8 list" where
  "octets (V4 a) = be_bytes 4 a"
| "octets (V6 a) = be_bytes 16 a"

section \<open>Lists\<close>

text \<open>\<open>Iterator::find\<close> is HOL's \<^const>\<open>List.find\<close>; the facts used about it.\<close>

lemma find_decomp:
  "List.find P xs = Some x \<Longrightarrow>
    \<exists>us vs. xs = us @ x # vs \<and> P x \<and> (\<forall>u\<in>set us. \<not> P u)"
proof (induction xs)
  case (Cons a xs)
  show ?case
  proof (cases "P a")
    case True
    with Cons.prems show ?thesis by (intro exI[of _ "[]"] exI[of _ xs]) simp
  next
    case False
    with Cons obtain us vs where "xs = us @ x # vs" "P x" "\<forall>u\<in>set us. \<not> P u" by auto
    with False show ?thesis by (intro exI[of _ "a # us"] exI[of _ vs]) simp
  qed
qed simp

lemma find_SomeD: "List.find P xs = Some x \<Longrightarrow> x \<in> set xs \<and> P x"
  by (auto simp: find_Some_iff)

lemma sorted_find_least:
  assumes "sorted (map f xs)" and "List.find P xs = Some x" and "y \<in> set xs" and "P y"
  shows "f x \<le> f y"
proof -
  obtain us vs where d: "xs = us @ x # vs" "\<forall>u\<in>set us. \<not> P u"
    using find_decomp[OF assms(2)] by blast
  with assms(3,4) have "y = x \<or> y \<in> set vs" by auto
  with assms(1) d(1) show ?thesis by (auto simp: sorted_append)
qed

section \<open>HashMaps as association lists\<close>

text \<open>
  \<open>insert\<close> replaces the value of a present key and appends a new key; \<open>entry(k).or_default()\<close>
  followed by a mutation is \<open>alist_upsert\<close>.
\<close>

fun alist_upsert :: "'k \<Rightarrow> 'v \<Rightarrow> ('v \<Rightarrow> 'v) \<Rightarrow> ('k \<times> 'v) list \<Rightarrow> ('k \<times> 'v) list" where
  "alist_upsert k d f [] = [(k, f d)]"
| "alist_upsert k d f ((k', v) # m) =
     (if k' = k then (k', f v) # m else (k', v) # alist_upsert k d f m)"

definition alist_insert :: "'k \<Rightarrow> 'v \<Rightarrow> ('k \<times> 'v) list \<Rightarrow> ('k \<times> 'v) list" where
  "alist_insert k v m = alist_upsert k v (\<lambda>_. v) m"

definition alist_wf :: "('k \<times> 'v) list \<Rightarrow> bool" where
  "alist_wf m \<longleftrightarrow> distinct (map fst m)"

lemma map_of_alist_upsert [alist_simps]:
  "map_of (alist_upsert k d f m) k' =
     (if k' = k then Some (f (case map_of m k of None \<Rightarrow> d | Some v \<Rightarrow> v)) else map_of m k')"
  by (induction m) auto

lemma map_of_alist_insert [alist_simps]: "map_of (alist_insert k v m) = (map_of m)(k \<mapsto> v)"
  by (rule ext) (simp add: alist_insert_def map_of_alist_upsert)

lemma keys_alist_upsert [alist_simps]:
  "fst ` set (alist_upsert k d f m) = insert k (fst ` set m)"
proof (induction m)
  case (Cons e m)
  obtain k' v where e: "e = (k', v)" by (cases e)
  show ?case
    using Cons by (cases "k' = k") (simp_all add: e insert_commute)
qed simp

lemma keys_alist_insert [alist_simps]: "fst ` set (alist_insert k v m) = insert k (fst ` set m)"
  by (simp add: alist_insert_def keys_alist_upsert)

lemma alist_wf_Nil [simp]: "alist_wf []"
  by (simp add: alist_wf_def)

lemma alist_wf_upsert [simp]: "alist_wf m \<Longrightarrow> alist_wf (alist_upsert k d f m)"
  unfolding alist_wf_def
  by (induction m) (auto simp: keys_alist_upsert)

lemma alist_wf_insert [simp]: "alist_wf m \<Longrightarrow> alist_wf (alist_insert k v m)"
  by (simp add: alist_insert_def)

lemma alist_insert_fresh: "k \<notin> fst ` set m \<Longrightarrow> alist_insert k v m = m @ [(k, v)]"
  unfolding alist_insert_def by (induction m) auto

section \<open>Words and sorted lists\<close>

lemma unat_inc_less:
  fixes r n :: "'a::len word"
  assumes "r < n"
  shows "unat (r + 1) = Suc (unat r)"
proof -
  have "unat r < unat n" "unat n < 2 ^ LENGTH('a)"
    using assms unsigned_less[of n] by (simp_all add: word_less_nat_alt)
  then have "Suc (unat r) < 2 ^ LENGTH('a)" by linarith
  then show ?thesis by (simp add: unat_word_ariths)
qed

lemma sorted_remdups_adj_distinct: "sorted xs \<Longrightarrow> distinct (remdups_adj xs)"
  by (induction xs rule: remdups_adj.induct) (auto simp: order_le_less)

section \<open>Iterator extrema\<close>

text \<open>
  \<open>Iterator::max_by_key\<close> returns the last maximal element and \<open>Iterator::min_by_key\<close> the
  first minimal one.
\<close>

fun max_by_key :: "('a \<Rightarrow> 'k::linorder) \<Rightarrow> 'a list \<Rightarrow> 'a option" where
  "max_by_key f [] = None"
| "max_by_key f (x # xs) =
     Some (foldl (\<lambda>best y. if f best > f y then best else y) x xs)"

fun min_by_key :: "('a \<Rightarrow> 'k::linorder) \<Rightarrow> 'a list \<Rightarrow> 'a option" where
  "min_by_key f [] = None"
| "min_by_key f (x # xs) =
     Some (foldl (\<lambda>best y. if f best > f y then y else best) x xs)"

lemma max_by_key_append:
  "xs \<noteq> [] \<Longrightarrow> max_by_key f (xs @ [y]) =
     (case max_by_key f xs of Some b \<Rightarrow> Some (if f b > f y then b else y) | None \<Rightarrow> Some y)"
  by (cases xs) auto

lemma min_by_key_append:
  "xs \<noteq> [] \<Longrightarrow> min_by_key f (xs @ [y]) =
     (case min_by_key f xs of Some b \<Rightarrow> Some (if f b > f y then y else b) | None \<Rightarrow> Some y)"
  by (cases xs) auto

lemma max_by_key_None [simp]: "max_by_key f xs = None \<longleftrightarrow> xs = []"
  by (cases xs) auto

lemma min_by_key_None [simp]: "min_by_key f xs = None \<longleftrightarrow> xs = []"
  by (cases xs) auto

lemma max_by_key_decomp:
  assumes "max_by_key f xs = Some b"
  obtains pre post where "xs = pre @ b # post" "\<forall>x\<in>set pre. f x \<le> f b" "\<forall>x\<in>set post. f x < f b"
proof -
  have "\<exists>pre post. xs = pre @ b # post \<and> (\<forall>x\<in>set pre. f x \<le> f b) \<and> (\<forall>x\<in>set post. f x < f b)"
    using assms
  proof (induction xs arbitrary: b rule: rev_induct)
    case (snoc y xs)
    show ?case
    proof (cases "xs = []")
      case False
      then obtain c where c: "max_by_key f xs = Some c" by (cases "max_by_key f xs") auto
      obtain pre post where d: "xs = pre @ c # post" "\<forall>x\<in>set pre. f x \<le> f c"
        "\<forall>x\<in>set post. f x < f c" using snoc.IH[OF c] by blast
      have b: "b = (if f c > f y then c else y)" using snoc.prems False c by (simp add: max_by_key_append)
      show ?thesis
      proof (cases "f c > f y")
        case True
        then have "xs @ [y] = pre @ b # (post @ [y])" using b d by simp
        then show ?thesis using True b d by (intro exI[of _ pre] exI[of _ "post @ [y]"]) auto
      next
        case F: False
        then show ?thesis using b d
          by (intro exI[of _ xs] exI[of _ "[]"]) (auto dest: less_imp_le intro: order_trans)
      qed
    qed (use snoc.prems in \<open>auto intro!: exI[of _ "[]"]\<close>)
  qed simp
  then show ?thesis using that by blast
qed

lemma max_by_key_unique:
  assumes "\<forall>x\<in>set pre. f x \<le> f b" "\<forall>x\<in>set post. f x < f b"
  shows "max_by_key f (pre @ b # post) = Some b"
proof -
  obtain c where c: "max_by_key f (pre @ b # post) = Some c"
    by (cases "max_by_key f (pre @ b # post)") auto
  then obtain pr po where d: "pre @ b # post = pr @ c # po" "\<forall>x\<in>set pr. f x \<le> f c"
    "\<forall>x\<in>set po. f x < f c" by (rule max_by_key_decomp)
  from d(1) consider (same) "b = c" | (left) "b \<in> set pr" "c \<in> set post"
    | (right) "b \<in> set po" "c \<in> set pre"
    by (auto simp: append_eq_append_conv2 Cons_eq_append_conv append_eq_Cons_conv)
  then show ?thesis using c d assms by cases (simp, (meson leD)+)
qed

lemma max_by_key_filter:
  assumes "max_by_key f xs = Some b" "P b"
  shows "max_by_key f (filter P xs) = Some b"
proof -
  obtain pre post where "xs = pre @ b # post" "\<forall>x\<in>set pre. f x \<le> f b" "\<forall>x\<in>set post. f x < f b"
    using assms(1) by (rule max_by_key_decomp)
  then show ?thesis using assms(2) max_by_key_unique[of "filter P pre" f b "filter P post"] by simp
qed

lemma max_by_key_map: "max_by_key f (map g xs) = map_option g (max_by_key (f \<circ> g) xs)"
proof (induction xs rule: rev_induct)
  case (snoc y xs)
  then show ?case
    by (cases "xs = []") (auto simp: max_by_key_append split: option.split)
qed simp

lemma max_by_key_cong: "(\<And>x. x \<in> set xs \<Longrightarrow> f x = g x) \<Longrightarrow> max_by_key f xs = max_by_key g xs"
proof (induction xs rule: rev_induct)
  case (snoc y xs)
  moreover have "b \<in> set xs" if "max_by_key g xs = Some b" for b
    using that by (auto elim: max_by_key_decomp)
  ultimately show ?case
    by (cases "xs = []") (auto simp: max_by_key_append split: option.split)
qed simp

lemma max_by_key_ge: "max_by_key f xs = Some b \<Longrightarrow> x \<in> set xs \<Longrightarrow> f x \<le> f b"
  by (erule max_by_key_decomp) (auto simp: less_imp_le)

lemma max_by_key_in: "max_by_key f xs = Some b \<Longrightarrow> b \<in> set xs"
  by (auto elim: max_by_key_decomp)

lemma min_by_key_decomp:
  assumes "min_by_key f xs = Some b"
  obtains pre post where "xs = pre @ b # post" "\<forall>x\<in>set pre. f b < f x" "\<forall>x\<in>set post. f b \<le> f x"
proof -
  have "\<exists>pre post. xs = pre @ b # post \<and> (\<forall>x\<in>set pre. f b < f x) \<and> (\<forall>x\<in>set post. f b \<le> f x)"
    using assms
  proof (induction xs arbitrary: b rule: rev_induct)
    case (snoc y xs)
    show ?case
    proof (cases "xs = []")
      case False
      then obtain c where c: "min_by_key f xs = Some c" by (cases "min_by_key f xs") auto
      obtain pre post where d: "xs = pre @ c # post" "\<forall>x\<in>set pre. f c < f x"
        "\<forall>x\<in>set post. f c \<le> f x" using snoc.IH[OF c] by blast
      have b: "b = (if f c > f y then y else c)" using snoc.prems False c by (simp add: min_by_key_append)
      show ?thesis
      proof (cases "f c > f y")
        case True
        then show ?thesis using b d
          by (intro exI[of _ xs] exI[of _ "[]"]) (auto intro: less_le_trans order.strict_trans)
      next
        case F: False
        then show ?thesis using b d by (intro exI[of _ pre] exI[of _ "post @ [y]"]) auto
      qed
    qed (use snoc.prems in \<open>auto intro!: exI[of _ "[]"]\<close>)
  qed simp
  then show ?thesis using that by blast
qed

section \<open>Checked indexing and saturating arithmetic\<close>

text \<open>\<open>slice::get\<close>, and the saturating operations of the unsigned integers.\<close>

definition nth_opt :: "'a list \<Rightarrow> nat \<Rightarrow> 'a option" where
  "nth_opt xs i = (if i < length xs then Some (xs ! i) else None)"

definition saturating_add :: "'w::len word \<Rightarrow> 'w word \<Rightarrow> 'w word" where
  "saturating_add a b = (if a + b < a then - 1 else a + b)"

definition saturating_sub :: "'w::len word \<Rightarrow> 'w word \<Rightarrow> 'w word" where
  "saturating_sub a b = (if a < b then 0 else a - b)"

lemma nth_opt_eq_Some [simp]: "nth_opt xs i = Some x \<longleftrightarrow> i < length xs \<and> xs ! i = x"
  by (simp add: nth_opt_def)

lemma nth_opt_eq_None [simp]: "nth_opt xs i = None \<longleftrightarrow> length xs \<le> i"
  by (auto simp: nth_opt_def)

lemma unat_saturating_add:
  fixes a b :: "'w::len word"
  shows "unat (saturating_add a b) = min (unat a + unat b) (2 ^ LENGTH('w) - 1)"
proof -
  have "unat a < 2 ^ LENGTH('w)" "unat b < 2 ^ LENGTH('w)" by simp_all
  moreover have "unat (- 1 :: 'w word) = 2 ^ LENGTH('w) - 1"
    by (simp add: unsigned_minus_1_eq_mask mask_eq_exp_minus_1)
  ultimately show ?thesis
    by (auto simp: saturating_add_def word_less_nat_alt unat_plus_if'
        simp del: unsigned_less)
qed

lemma unat_saturating_sub: "unat (saturating_sub a b) = unat a - unat b"
  by (auto simp: saturating_sub_def word_less_nat_alt unat_sub_if')

section \<open>ASCII white space and collected results\<close>

text \<open>\<open>u8::is_ascii_whitespace\<close>, \<open>str::trim_ascii\<close>, and \<open>collect::<Result<Vec<_>, _>>\<close>.\<close>

definition is_ascii_whitespace :: "char \<Rightarrow> bool" where
  "is_ascii_whitespace c \<longleftrightarrow> c \<in> set [CHR '' '', CHR 0x09, CHR 0x0A, CHR 0x0C, CHR 0x0D]"

definition trim_ascii :: "string \<Rightarrow> string" where
  "trim_ascii s = rev (dropWhile is_ascii_whitespace (rev (dropWhile is_ascii_whitespace s)))"

fun collect_results :: "('e + 'a) list \<Rightarrow> 'e + 'a list" where
  "collect_results [] = Inr []"
| "collect_results (r # rs) =
     (case r of
        Inl e \<Rightarrow> Inl e
      | Inr x \<Rightarrow> (case collect_results rs of Inl e \<Rightarrow> Inl e | Inr xs \<Rightarrow> Inr (x # xs)))"

lemma collect_results_map_Inr [simp]: "collect_results (map Inr xs) = Inr xs"
  by (induction xs) simp_all

lemma collect_results_InrD: "collect_results rs = Inr xs \<Longrightarrow> rs = map Inr xs"
  by (induction rs arbitrary: xs) (auto split: sum.splits)

end
