(* ===== verification/Upstream_Tls.thy ===== *)
theory Upstream_Tls
  imports Cox_Prelude
begin

text \<open>
  Upstream connection protocol and TLS identity:
  \<open>crates/coxswain-core/src/routing/common/upstream_tls.rs\<close>.  The subject-alternative-name
  check decides whether an upstream certificate authenticates a backend, so the lemmas state
  exactly which names a certificate entry covers.  \<open>DefaultHasher\<close> is the standard library's
  hasher with an unspecified algorithm; the two builder methods that fold into \<open>group_key\<close>
  take it as a parameter.
\<close>

section \<open>Definitions\<close>

datatype backend_protocol = Http1 | H2c | WebSocket

definition is_h2 :: "backend_protocol \<Rightarrow> bool" where
  "is_h2 p = (case p of H2c \<Rightarrow> True | Http1 \<Rightarrow> False | WebSocket \<Rightarrow> False)"

definition parse_app_protocol :: "string \<Rightarrow> backend_protocol" where
  "parse_app_protocol raw =
     (if raw = ''kubernetes.io/h2c'' then H2c
      else if raw = ''kubernetes.io/ws'' then WebSocket
      else Http1)"

datatype subject_alt_name = Hostname string | Uri string

definition dns_san_matches :: "string \<Rightarrow> string \<Rightarrow> bool" where
  "dns_san_matches expected cert_san =
     (case strip_prefix cert_san ''*.'' of
        Some wc_suffix \<Rightarrow>
          (case find_char (CHR ''.'') expected of
             Some dot_pos \<Rightarrow>
               (let label = take dot_pos expected; rest = drop (dot_pos + 1) expected
                in label \<noteq> [] \<and> eq_ignore_ascii_case rest wc_suffix)
           | None \<Rightarrow> False)
      | None \<Rightarrow> eq_ignore_ascii_case cert_san expected)"

definition san_set_matches :: "subject_alt_name list \<Rightarrow> string list \<Rightarrow> string list \<Rightarrow> bool" where
  "san_set_matches expected dns_sans uri_sans =
     list_ex (\<lambda>e. case e of
         Hostname h \<Rightarrow> list_ex (\<lambda>s. dns_san_matches h s) dns_sans
       | Uri u \<Rightarrow> list_ex (\<lambda>s. s = u) uri_sans) expected"

datatype upstream_ca = System | Bundle "u8 list"

record backend_client_cert =
  cert_pem :: "u8 list"
  key_pem :: "u8 list"
  cert_source :: string

record upstream_tls =
  sni :: string
  ca :: upstream_ca
  group_key :: u64
  client_cert :: "backend_client_cert option"
  subject_alt_names :: "subject_alt_name list"

definition upstream_tls_new :: "string \<Rightarrow> upstream_ca \<Rightarrow> u64 \<Rightarrow> upstream_tls" where
  "upstream_tls_new s c k =
     \<lparr>sni = s, ca = c, group_key = k, client_cert = None, subject_alt_names = []\<rparr>"

definition with_client_cert ::
  "(u64 \<Rightarrow> string \<Rightarrow> u64) \<Rightarrow> backend_client_cert \<Rightarrow> upstream_tls \<Rightarrow> upstream_tls" where
  "with_client_cert hash2 cert t =
     t\<lparr>group_key := hash2 (group_key t) (cert_source cert), client_cert := Some cert\<rparr>"

definition with_subject_alt_names ::
  "(u64 \<Rightarrow> subject_alt_name list \<Rightarrow> u64) \<Rightarrow> subject_alt_name list \<Rightarrow> upstream_tls \<Rightarrow> upstream_tls" where
  "with_subject_alt_names hash2 sans t =
     t\<lparr>group_key := hash2 (group_key t) sans, subject_alt_names := sans\<rparr>"

section \<open>Certificate name matching\<close>

lemma find_char_decomp:
  "find_char c s = Some i \<longleftrightarrow> i < length s \<and> s ! i = c \<and> c \<notin> set (take i s)"
proof (induction s arbitrary: i)
  case (Cons x s)
  then show ?case by (cases i) auto
qed simp

lemma split_at_first:
  "(\<exists>i. find_char c s = Some i \<and> P (take i s) (drop (i + 1) s)) \<longleftrightarrow>
   (\<exists>l r. s = l @ c # r \<and> c \<notin> set l \<and> P l r)"
proof
  assume "\<exists>i. find_char c s = Some i \<and> P (take i s) (drop (i + 1) s)"
  then obtain i where "i < length s" "s ! i = c" "c \<notin> set (take i s)" "P (take i s) (drop (i + 1) s)"
    by (auto simp: find_char_decomp)
  then show "\<exists>l r. s = l @ c # r \<and> c \<notin> set l \<and> P l r"
    by (metis Suc_eq_plus1 id_take_nth_drop)
qed (auto simp: find_char_append)

lemma dns_san_matches_wildcard_iff:
  "dns_san_matches expected (''*.'' @ suffix) \<longleftrightarrow>
     (\<exists>label rest. expected = label @ CHR ''.'' # rest \<and> label \<noteq> [] \<and> CHR ''.'' \<notin> set label \<and>
        eq_ignore_ascii_case rest suffix)"
proof -
  have "dns_san_matches expected (''*.'' @ suffix) \<longleftrightarrow>
      (\<exists>i. find_char (CHR ''.'') expected = Some i \<and> take i expected \<noteq> [] \<and>
         eq_ignore_ascii_case (drop (i + 1) expected) suffix)"
    by (simp add: dns_san_matches_def strip_prefix_def Let_def split: option.split)
  then show ?thesis
    using split_at_first[of "CHR ''.''" expected "\<lambda>l r. l \<noteq> [] \<and> eq_ignore_ascii_case r suffix"]
    by auto
qed

lemma dns_san_matches_plain:
  "\<not> starts_with cert ''*.'' \<Longrightarrow> dns_san_matches expected cert = eq_ignore_ascii_case cert expected"
  by (simp add: dns_san_matches_def strip_prefix_def)

lemma starts_with_wildcard_lower:
  "starts_with (to_ascii_lowercase s) ''*.'' = starts_with s ''*.''"
proof (cases s)
  case (Cons a t)
  then show ?thesis by (cases t) auto
qed simp

lemma dns_san_matches_lower:
  "dns_san_matches (to_ascii_lowercase e) (to_ascii_lowercase c) = dns_san_matches e c"
proof (cases "starts_with c ''*.''")
  case True
  then obtain suf where c: "c = ''*.'' @ suf" by (auto simp: starts_with_iff)
  have low: "to_ascii_lowercase c = ''*.'' @ to_ascii_lowercase suf"
    by (simp add: c ascii_lower_eq_dot[THEN iffD2] ascii_lower_eq_star[THEN iffD2])
  have parts: "drop n (to_ascii_lowercase e) = to_ascii_lowercase (drop n e)"
    "take n (to_ascii_lowercase e) = to_ascii_lowercase (take n e)" for n
    by (simp_all add: to_ascii_lowercase_def drop_map take_map)
  show ?thesis
    unfolding low unfolding c
    by (simp add: dns_san_matches_def strip_prefix_def find_char_lower_dot parts Let_def
        del: take_eq_Nil split: option.split)
next
  case False
  then show ?thesis by (simp add: dns_san_matches_plain starts_with_wildcard_lower)
qed

section \<open>Properties\<close>

text \<open>
  C39: a wildcard certificate entry covers exactly the names made of one non-empty dot-free
  label followed by its suffix, compared without regard to ASCII case: never the bare suffix
  and never a deeper subdomain.
\<close>

theorem wildcard_san_covers_one_label:
  "dns_san_matches expected (''*.'' @ suffix) \<longleftrightarrow>
     (\<exists>label rest. expected = label @ CHR ''.'' # rest \<and> label \<noteq> [] \<and> CHR ''.'' \<notin> set label \<and>
        eq_ignore_ascii_case rest suffix)"
  by (rule dns_san_matches_wildcard_iff)

text \<open>
  the DNS name check does not depend on the ASCII case of either side, and a policy with no
  expected names never authenticates a certificate.
\<close>

theorem san_check_case_insensitive:
  "dns_san_matches (to_ascii_lowercase e) (to_ascii_lowercase c) = dns_san_matches e c \<and>
   \<not> san_set_matches [] dns_sans uri_sans"
  by (simp add: dns_san_matches_lower san_set_matches_def)

end
