(* ===== verification/Retry.thy ===== *)
theory Retry
  imports Cox_Prelude
begin

text \<open>
  Upstream retries: the policy a backend group carries
  (\<open>crates/coxswain-core/src/routing/common/retry.rs\<close>) and the proxy hooks that spend it
  (\<open>crates/coxswain-proxy/src/retry.rs\<close> and the response-code retry of
  \<open>upstream_response_filter\<close> in \<open>crates/coxswain-proxy/src/hooks.rs\<close>).  The part of
  \<open>ProxyCtx\<close> the hooks read and write is a record; the Prometheus counters they bump are the
  lists of labels emitted so far.  Pingora's \<open>RetryType\<close> is third-party: its constructor from
  a boolean and \<open>decide_reuse\<close> are parameters.  Durations are nanoseconds.
\<close>

section \<open>The retry policy\<close>

record retry_policy_config =
  attempts :: u32
  backoff :: "nat option"
  http_codes :: "u16 list"
  grpc_codes :: "u16 list"

definition DEFAULT_HTTP_RETRY_CODES :: "u16 list" where
  "DEFAULT_HTTP_RETRY_CODES = [502, 503, 504]"

definition DEFAULT_GRPC_RETRY_CODES :: "u16 list" where
  "DEFAULT_GRPC_RETRY_CODES = [14]"

definition retry_policy_default :: retry_policy_config where
  "retry_policy_default = \<lparr>attempts = 0, backoff = None, http_codes = [], grpc_codes = []\<rparr>"

definition normalize_codes :: "u16 list option \<Rightarrow> u16 list \<Rightarrow> u16 list" where
  "normalize_codes codes dflt =
     (let v = (case codes of Some c \<Rightarrow> c | None \<Rightarrow> dflt) in remdups_adj (sort v))"

definition retry_policy_new ::
  "u32 \<Rightarrow> nat option \<Rightarrow> u16 list \<Rightarrow> u16 list \<Rightarrow> retry_policy_config" where
  "retry_policy_new n b h g = \<lparr>attempts = n, backoff = b, http_codes = h, grpc_codes = g\<rparr>"

definition for_http :: "u32 \<Rightarrow> nat option \<Rightarrow> u16 list option \<Rightarrow> retry_policy_config" where
  "for_http n b h =
     \<lparr>attempts = n, backoff = b, http_codes = normalize_codes h DEFAULT_HTTP_RETRY_CODES,
      grpc_codes = []\<rparr>"

definition for_grpc ::
  "u32 \<Rightarrow> nat option \<Rightarrow> u16 list option \<Rightarrow> u16 list option \<Rightarrow> retry_policy_config" where
  "for_grpc n b h g =
     \<lparr>attempts = n, backoff = b, http_codes = normalize_codes h DEFAULT_HTTP_RETRY_CODES,
      grpc_codes = normalize_codes g DEFAULT_GRPC_RETRY_CODES\<rparr>"

definition is_disabled :: "retry_policy_config \<Rightarrow> bool" where
  "is_disabled p \<longleftrightarrow> attempts p = 0"

definition retries_http :: "retry_policy_config \<Rightarrow> u16 \<Rightarrow> bool" where
  "retries_http p status \<longleftrightarrow> status \<in> set (http_codes p)"

definition retries_grpc :: "retry_policy_config \<Rightarrow> u16 \<Rightarrow> bool" where
  "retries_grpc p code \<longleftrightarrow> code \<in> set (grpc_codes p)"

section \<open>The hooks\<close>

datatype retry_trigger = ConnectError | Timeout | HttpCode | GrpcCode

text \<open>The Pingora error types and sources the code distinguishes.\<close>

datatype error_type =
    HTTPStatus u16 | ConnectTimedout | ReadTimedout | WriteTimedout
  | ConnectionClosed | ReadError | WriteError | OtherType

datatype error_source = Upstream | Downstream | Internal | Unset

record 'rt proxy_error =
  etype :: error_type
  esource :: error_source
  retry :: 'rt

record retry_ctx =
  resolved_policy :: "retry_policy_config option"
  retries_used :: u32
  last_retry_trigger :: "retry_trigger option"
  request_timeout_is_controlling :: bool
  upstream_timeout_budget_active :: bool
  upstream_retries_total :: "string list"
  upstream_errors_total :: "string list"

definition inc_upstream_retry :: "string \<Rightarrow> retry_ctx \<Rightarrow> retry_ctx" where
  "inc_upstream_retry label ctx = ctx\<lparr>upstream_retries_total := upstream_retries_total ctx @ [label]\<rparr>"

definition inc_upstream_error :: "string \<Rightarrow> retry_ctx \<Rightarrow> retry_ctx" where
  "inc_upstream_error label ctx = ctx\<lparr>upstream_errors_total := upstream_errors_total ctx @ [label]\<rparr>"

definition fail_to_connect ::
  "(bool \<Rightarrow> 'rt) \<Rightarrow> retry_ctx \<Rightarrow> 'rt proxy_error \<Rightarrow> retry_ctx \<times> 'rt proxy_error" where
  "fail_to_connect decided ctx e =
     (case resolved_policy ctx of
        None \<Rightarrow> (ctx, e)
      | Some policy \<Rightarrow>
          if is_disabled policy \<or> retries_used ctx \<ge> attempts policy then (ctx, e)
          else
            let is_timeout = (etype e = ConnectTimedout);
                ctx = ctx\<lparr>retries_used := retries_used ctx + 1,
                          last_retry_trigger := Some (if is_timeout then Timeout else ConnectError)\<rparr>;
                e = e\<lparr>retry := decided True\<rparr>
            in (inc_upstream_retry (if is_timeout then ''timeout'' else ''connect-failure'') ctx, e))"

definition error_while_proxy ::
  "(bool \<Rightarrow> 'rt) \<Rightarrow> ('rt \<Rightarrow> bool \<Rightarrow> 'rt) \<Rightarrow> 'rt proxy_error \<Rightarrow> retry_ctx \<Rightarrow> bool \<Rightarrow> bool
     \<Rightarrow> 'rt proxy_error" where
  "error_while_proxy decided decide_reuse e ctx client_reused retry_buffer_truncated =
     (if last_retry_trigger ctx = Some HttpCode \<or> last_retry_trigger ctx = Some GrpcCode
      then e\<lparr>retry := decided True\<rparr>
      else e\<lparr>retry := decide_reuse (retry e) (client_reused \<and> \<not> retry_buffer_truncated)\<rparr>)"

fun select_failure_status :: "error_type \<Rightarrow> error_source \<Rightarrow> bool \<Rightarrow> bool \<Rightarrow> u16" where
  "select_failure_status et es rt_controlling budget_active =
     (case et of
        HTTPStatus code \<Rightarrow> code
      | _ \<Rightarrow>
        if (et = ReadTimedout \<or> et = WriteTimedout) \<and> (rt_controlling \<or> budget_active) then 504
        else if et = ConnectTimedout \<and> budget_active then 502
        else (case es of
            Upstream \<Rightarrow> 502
          | Downstream \<Rightarrow>
              (if et = ConnectionClosed \<or> et = ReadError \<or> et = WriteError then 0 else 400)
          | _ \<Rightarrow> 500))"

definition classify_upstream_error :: "'rt proxy_error \<Rightarrow> string" where
  "classify_upstream_error e =
     (if etype e = ConnectTimedout \<or> etype e = ReadTimedout \<or> etype e = WriteTimedout
      then ''timeout''
      else (case esource e of Upstream \<Rightarrow> ''connect'' | _ \<Rightarrow> ''other''))"

text \<open>\<open>fail_to_proxy\<close> returns the context, the error code and the status it wrote, if any.\<close>

definition fail_to_proxy ::
  "'rt proxy_error \<Rightarrow> retry_ctx \<Rightarrow> retry_ctx \<times> u16 \<times> u16 option" where
  "fail_to_proxy e ctx =
     (let code = select_failure_status (etype e) (esource e)
                   (request_timeout_is_controlling ctx) (upstream_timeout_budget_active ctx);
          ctx = inc_upstream_error (classify_upstream_error e) ctx
      in (ctx, code, if code > 0 then Some code else None))"

text \<open>
  The retry decision of \<open>upstream_response_filter\<close>: \<open>Inl\<close> carries the retriable error returned
  to Pingora, \<open>Inr\<close> the context of a response that passes on.
\<close>

definition response_retry_decision ::
  "retry_ctx \<Rightarrow> u16 \<Rightarrow> u16 option \<Rightarrow> (retry_trigger \<times> string) option" where
  "response_retry_decision ctx status grpc_status =
     (case resolved_policy ctx of
        None \<Rightarrow> None
      | Some policy \<Rightarrow>
          if retries_used ctx \<ge> attempts policy then None
          else (case grpc_status of
              Some code \<Rightarrow> if retries_grpc policy code then Some (GrpcCode, ''grpc-code'') else None
            | None \<Rightarrow> if retries_http policy status then Some (HttpCode, ''http-code'') else None))"

definition response_retry ::
  "(bool \<Rightarrow> 'rt) \<Rightarrow> retry_ctx \<Rightarrow> u16 \<Rightarrow> u16 option \<Rightarrow> bool
     \<Rightarrow> retry_ctx \<times> 'rt proxy_error option" where
  "response_retry decided ctx status grpc_status retry_buffer_truncated =
     (let ctx = (if status \<ge> 500 then inc_upstream_error ''5xx'' ctx else ctx) in
      case response_retry_decision ctx status grpc_status of
        Some (trigger, condition) \<Rightarrow>
          if \<not> retry_buffer_truncated then
            let ctx = ctx\<lparr>retries_used := retries_used ctx + 1, last_retry_trigger := Some trigger\<rparr>;
                ctx = inc_upstream_retry condition ctx
            in (ctx, Some \<lparr>etype = HTTPStatus status, esource = Upstream, retry = decided True\<rparr>)
          else (ctx, None)
      | None \<Rightarrow> (ctx, None))"

section \<open>A request's sequence of hook calls\<close>

text \<open>
  One request meets a sequence of failed connections, upstream responses and transport errors, and each
  may be granted a retry.  A fresh connection error carries Pingora's initial decision, no retry; the error
  with which \<open>upstream_response_filter\<close> asks for a retry passes through \<open>error_while_proxy\<close>,
  as does every error of an established upstream exchange, with whatever decision Pingora gave it.
  Whether Pingora retries is read off the error by the parameter \<open>granted\<close>.
\<close>

datatype 'rt hook_event =
    ConnectFailed error_type error_source
  | Responded u16 "u16 option" bool bool
  | ProxyFailed "'rt proxy_error" bool bool

fun hook_step ::
  "(bool \<Rightarrow> 'rt) \<Rightarrow> ('rt \<Rightarrow> bool \<Rightarrow> 'rt) \<Rightarrow> ('rt \<Rightarrow> bool) \<Rightarrow> retry_ctx \<Rightarrow> 'rt hook_event \<Rightarrow> retry_ctx \<times> bool" where
  "hook_step decided decide_reuse granted ctx (ConnectFailed et es) =
     (let (ctx', e') = fail_to_connect decided ctx \<lparr>etype = et, esource = es, retry = decided False\<rparr>
      in (ctx', granted (retry e')))"
| "hook_step decided decide_reuse granted ctx (Responded status grpc truncated reused) =
     (case response_retry decided ctx status grpc truncated of
        (ctx', None) \<Rightarrow> (ctx', False)
      | (ctx', Some e) \<Rightarrow> (ctx', granted (retry (error_while_proxy decided decide_reuse e ctx' reused truncated))))"
| "hook_step decided decide_reuse granted ctx (ProxyFailed e truncated reused) =
     (ctx, granted (retry (error_while_proxy decided decide_reuse e ctx reused truncated)))"

fun run_hooks ::
  "(bool \<Rightarrow> 'rt) \<Rightarrow> ('rt \<Rightarrow> bool \<Rightarrow> 'rt) \<Rightarrow> ('rt \<Rightarrow> bool) \<Rightarrow> retry_ctx \<Rightarrow> 'rt hook_event list \<Rightarrow> retry_ctx \<times> bool list" where
  "run_hooks decided decide_reuse granted ctx [] = (ctx, [])"
| "run_hooks decided decide_reuse granted ctx (ev # evs) =
     (let (ctx', g) = hook_step decided decide_reuse granted ctx ev;
          (ctx'', gs) = run_hooks decided decide_reuse granted ctx' evs
      in (ctx'', g # gs))"








lemma run_hooks_snoc:
  "run_hooks d u g ctx (evs @ [ev]) =
     (fst (hook_step d u g (fst (run_hooks d u g ctx evs)) ev),
      snd (run_hooks d u g ctx evs) @ [snd (hook_step d u g (fst (run_hooks d u g ctx evs)) ev)])"
  by (induction evs arbitrary: ctx) (auto simp: Let_def split: prod.splits)

lemma run_hooks_length [simp]: "length (snd (run_hooks d u g ctx evs)) = length evs"
  by (induction evs rule: rev_induct) (simp_all add: run_hooks_snoc)



section \<open>Properties\<close>

text \<open>
  the code lists of a policy are sorted, free of duplicates, and hold exactly the codes the
  operator listed; an omitted list means the defaults and an explicit empty list means none.
\<close>

theorem normalize_codes_spec:
  "sorted (normalize_codes codes dflt) \<and> distinct (normalize_codes codes dflt) \<and>
   set (normalize_codes codes dflt) = set (case codes of Some c \<Rightarrow> c | None \<Rightarrow> dflt)"
  by (simp add: normalize_codes_def sorted_remdups_adj sorted_remdups_adj_distinct)


definition sample_ctx :: retry_ctx where
  "sample_ctx =
     \<lparr>resolved_policy = Some (for_http 1 None None), retries_used = 0, last_retry_trigger = None,
      request_timeout_is_controlling = False, upstream_timeout_budget_active = False,
      upstream_retries_total = [], upstream_errors_total = []\<rparr>"




text \<open>
  once one response-code retry has been granted, a later transport error of the same request
  is marked retriable whatever its kind, although the attempt budget is spent, the connection is
  fresh and the request body can no longer be replayed: the recorded trigger is never cleared.
\<close>

theorem stale_trigger_retries_past_budget:
  "let ctx = fst (run_hooks decided decide_reuse granted sample_ctx [Responded 503 None False False]) in
     retries_used ctx = attempts (for_http 1 None None) \<and>
     retry (error_while_proxy decided decide_reuse
        \<lparr>etype = ReadError, esource = Upstream, retry = r\<rparr> ctx False True) = decided True"
  by (simp add: sample_ctx_def for_http_def normalize_codes_def DEFAULT_HTTP_RETRY_CODES_def
      response_retry_def response_retry_decision_def retries_http_def inc_upstream_error_def
      inc_upstream_retry_def error_while_proxy_def)

text \<open>
  an error that carries no status of its own is answered with 502 or 504 when it comes from
  the upstream, and with no response exactly when the downstream connection itself broke.
\<close>

theorem failure_status_classes:
  assumes "\<forall>code. et \<noteq> HTTPStatus code"
  shows "select_failure_status et Upstream rt bt \<in> {502, 504} \<and>
         (select_failure_status et es rt bt = 0 \<longleftrightarrow>
           es = Downstream \<and> et \<in> {ConnectionClosed, ReadError, WriteError})"
  using assms by (cases et; cases es; simp)

theorem failure_status_classes_witness:
  "(\<forall>code. ReadTimedout \<noteq> HTTPStatus code) \<and> select_failure_status ReadTimedout Upstream True False \<in> {502, 504}"
  using failure_status_classes[of ReadTimedout True False] by simp

end
