(* ===== verification/Backend.thy ===== *)
theory Backend
  imports Upstream_Tls Retry
begin

text \<open>
  Upstream selection: \<open>crates/coxswain-core/src/endpoints.rs\<close> and
  \<open>crates/coxswain-core/src/routing/common/backend.rs\<close>.  A backend group is a record with
  the fields of the Rust struct; its atomics are plain fields, so each selection returns the
  updated group.  The counters keep their machine width (\<open>AtomicUsize\<close> is 64 bits wide).  A
  panic (an \<open>assert!\<close> or an index out of bounds) is the outer \<open>None\<close> of the operations that
  contain one.  The filter type is a parameter because filters embed backend groups again;
  \<open>HeaderName::from_bytes\<close> belongs to the \<open>http\<close> crate and is a parameter of the parser.
\<close>

section \<open>Endpoints\<close>

record endpoint_key =
  ek_namespace :: string
  ek_service :: string
  ek_port :: u16

record resolved_endpoints =
  re_addrs :: "socket_addr list"
  re_app_protocol :: backend_protocol
  re_service_exists :: bool

definition resolved_endpoints_new ::
  "socket_addr list \<Rightarrow> backend_protocol \<Rightarrow> bool \<Rightarrow> resolved_endpoints" where
  "resolved_endpoints_new as p ex = \<lparr>re_addrs = as, re_app_protocol = p, re_service_exists = ex\<rparr>"

definition resolved_endpoints_empty :: resolved_endpoints where
  "resolved_endpoints_empty = \<lparr>re_addrs = [], re_app_protocol = Http1, re_service_exists = False\<rparr>"

definition empty_group_status :: "bool \<Rightarrow> u16" where
  "empty_group_status has_valid_empty = (if has_valid_empty then 503 else 500)"

section \<open>Configuration types and their parser\<close>

datatype session_affinity = CookieAffinity string | HeaderAffinity string

datatype hash_source = UriSource | SourceIp | HeaderSource string | CookieSource string

datatype load_balance = RoundRobin | LeastConn | Ewma | Hash hash_source

datatype load_balance_parse_error =
  UnknownValue | EmptyHeaderName | InvalidHeaderName | EmptyCookieName | UnknownHashAttr

definition parse_hash_attribute ::
  "(string \<Rightarrow> string option) \<Rightarrow> string \<Rightarrow> load_balance_parse_error + load_balance" where
  "parse_hash_attribute header_from_bytes attr =
     (if attr = ''uri'' then Inr (Hash UriSource)
      else if attr = ''source-ip'' then Inr (Hash SourceIp)
      else if starts_with attr ''header='' then
        (let name = drop (length ''header='') attr in
         if name = [] then Inl EmptyHeaderName
         else (case header_from_bytes name of
                 Some h \<Rightarrow> Inr (Hash (HeaderSource h)) | None \<Rightarrow> Inl InvalidHeaderName))
      else if starts_with attr ''cookie='' then
        (let name = drop (length ''cookie='') attr in
         if name = [] then Inl EmptyCookieName else Inr (Hash (CookieSource name)))
      else Inl UnknownHashAttr)"

definition parse_lenient ::
  "(string \<Rightarrow> string option) \<Rightarrow> string \<Rightarrow> load_balance_parse_error + load_balance" where
  "parse_lenient header_from_bytes s =
     (if s = ''round_robin'' then Inr RoundRobin
      else if s = ''least_conn'' then Inr LeastConn
      else if s = ''ewma'' then Inr Ewma
      else if s = ''ip_hash'' then Inr (Hash SourceIp)
      else if starts_with s ''hash:'' then
        parse_hash_attribute header_from_bytes (drop (length ''hash:'') s)
      else Inl UnknownValue)"

section \<open>Hashing\<close>

definition FNV_OFFSET :: u64 where
  "FNV_OFFSET = 0xcbf29ce484222325"

definition FNV_PRIME :: u64 where
  "FNV_PRIME = 0x100000001b3"

definition fnv_byte :: "u64 \<Rightarrow> u8 \<Rightarrow> u64" where
  "fnv_byte hash b = Bit_Operations.xor hash (ucast b) * FNV_PRIME"

definition affinity_hash_parts :: "u8 list list \<Rightarrow> u64" where
  "affinity_hash_parts parts = foldl (\<lambda>hash part. foldl fnv_byte hash part) FNV_OFFSET parts"

definition affinity_hash :: "u8 list \<Rightarrow> u64" where
  "affinity_hash bytes = affinity_hash_parts [bytes]"

definition affinity_token :: "socket_addr \<Rightarrow> u64" where
  "affinity_token addr =
     (let tagged = (case sock_ip addr of V4 a \<Rightarrow> 4 # octets (V4 a) | V6 a \<Rightarrow> 6 # octets (V6 a))
      in affinity_hash (tagged @ be_bytes 2 (sock_port addr)))"

definition rendezvous_score :: "u64 \<Rightarrow> u64 \<Rightarrow> u64" where
  "rendezvous_score key_hash token =
     (let z = Bit_Operations.xor key_hash (word_rotl 32 token);
          z = Bit_Operations.xor z (drop_bit 30 z) * 0xbf58476d1ce4e5b9;
          z = Bit_Operations.xor z (drop_bit 27 z) * 0x94d049bb133111eb
      in Bit_Operations.xor z (drop_bit 31 z))"

section \<open>The backend group\<close>

record weighted_backend_spec =
  wb_resolved :: resolved_endpoints
  wb_key :: "endpoint_key option"
  wb_weight :: u16

record affinity_endpoint =
  ae_addr :: socket_addr
  ae_token :: u64
  ae_backend_idx :: u16

record lb_endpoint =
  le_addr :: socket_addr
  le_backend_idx :: u16
  le_token :: u64
  le_active :: u32
  le_ewma_ns :: u64

record 'f selected =
  sel_addr :: socket_addr
  sel_filters :: "'f list option"
  sel_track :: "u32 option"

record backend_pool =
  bp_addrs :: "socket_addr list"
  bp_rr :: u64

record 'f backend_group =
  bg_name :: string
  bg_spec :: "weighted_backend_spec list"
  bg_backends :: "backend_pool list"
  bg_slots :: "u16 list"
  bg_slot_counter :: u64
  bg_addrs_snapshot :: "socket_addr list"
  bg_protocol :: backend_protocol
  bg_tls :: "upstream_tls option"
  bg_retry :: retry_policy_config
  bg_per_backend_filters :: "'f list option list option"
  bg_session_affinity :: "session_affinity option"
  bg_affinity_endpoints :: "affinity_endpoint list option"
  bg_keepalive_timeout :: "nat option"
  bg_connect_timeout :: "nat option"
  bg_load_balance :: load_balance
  bg_lb_endpoints :: "lb_endpoint list option"

definition backend_pool_new :: "socket_addr list \<Rightarrow> backend_pool option" where
  "backend_pool_new as = (if as = [] then None else Some \<lparr>bp_addrs = as, bp_rr = 0\<rparr>)"

definition backend_pool_next :: "backend_pool \<Rightarrow> (backend_pool \<times> socket_addr) option" where
  "backend_pool_next p =
     (if bp_addrs p = [] then None
      else Some (p\<lparr>bp_rr := bp_rr p + 1\<rparr>, bp_addrs p ! (unat (bp_rr p) mod length (bp_addrs p))))"

function gcd_u16 :: "u16 \<Rightarrow> u16 \<Rightarrow> u16" where
  "gcd_u16 a b = (if b = 0 then a else gcd_u16 b (a mod b))"
  by pat_completeness auto

termination gcd_u16
  by (relation "measure (\<lambda>(a, b). unat b)") (auto simp: unat_mod_distrib unat_gt_0)

declare gcd_u16.simps [simp del]

definition gcd_reduce :: "u16 list \<Rightarrow> u16 list" where
  "gcd_reduce weights =
     (let g = foldl gcd_u16 0 weights in
      if g \<le> 1 then weights else map (\<lambda>w. w div g) weights)"

definition empty_with_spec :: "string \<Rightarrow> weighted_backend_spec list \<Rightarrow> 'f backend_group" where
  "empty_with_spec name spec =
     \<lparr>bg_name = name, bg_spec = spec, bg_backends = [], bg_slots = [], bg_slot_counter = 0,
      bg_addrs_snapshot = [], bg_protocol = Http1, bg_tls = None, bg_retry = retry_policy_default,
      bg_per_backend_filters = None, bg_session_affinity = None, bg_affinity_endpoints = None,
      bg_keepalive_timeout = None, bg_connect_timeout = None, bg_load_balance = RoundRobin,
      bg_lb_endpoints = None\<rparr>"

definition slots_of :: "u16 list \<Rightarrow> u16 list" where
  "slots_of reduced = concat (map (\<lambda>(idx, w). replicate (unat w) (of_nat idx)) (enumerate 0 reduced))"

definition from_pools ::
  "string \<Rightarrow> weighted_backend_spec list \<Rightarrow> (socket_addr list \<times> u16) list \<Rightarrow> 'f backend_group option" where
  "from_pools name spec pools =
     (if pools = [] then Some (empty_with_spec name spec)
      else
        let reduced = gcd_reduce (map snd pools) in
        case those (map (\<lambda>(addrs, _). backend_pool_new addrs) pools) of
          None \<Rightarrow> None
        | Some backends \<Rightarrow> Some
            \<lparr>bg_name = name, bg_spec = spec, bg_backends = backends, bg_slots = slots_of reduced,
             bg_slot_counter = 0, bg_addrs_snapshot = concat (map fst pools), bg_protocol = Http1,
             bg_tls = None, bg_retry = retry_policy_default, bg_per_backend_filters = None,
             bg_session_affinity = None, bg_affinity_endpoints = None, bg_keepalive_timeout = None,
             bg_connect_timeout = None, bg_load_balance = RoundRobin, bg_lb_endpoints = None\<rparr>)"

definition weighted_with_endpoints ::
  "string \<Rightarrow> (resolved_endpoints \<times> endpoint_key option \<times> u16) list \<Rightarrow> 'f backend_group option" where
  "weighted_with_endpoints name entries =
     (let spec_entries =
            map (\<lambda>(resolved, key, weight). \<lparr>wb_resolved = resolved, wb_key = key, wb_weight = weight\<rparr>)
              (filter (\<lambda>(resolved, key, w). w > 0 \<and> (re_addrs resolved \<noteq> [] \<or> key \<noteq> None)) entries);
          pools =
            map (\<lambda>wb. (re_addrs (wb_resolved wb), wb_weight wb))
              (filter (\<lambda>wb. re_addrs (wb_resolved wb) \<noteq> []) spec_entries)
      in from_pools name spec_entries pools)"

definition weighted :: "string \<Rightarrow> (socket_addr list \<times> u16) list \<Rightarrow> 'f backend_group option" where
  "weighted name ws =
     weighted_with_endpoints name
       (map (\<lambda>(addrs, w). (resolved_endpoints_new addrs Http1 True, None, w)) ws)"

definition backend_group_new :: "string \<Rightarrow> socket_addr list \<Rightarrow> 'f backend_group option" where
  "backend_group_new name endpoints =
     weighted_with_endpoints name [(resolved_endpoints_new endpoints Http1 True, None, 1)]"

section \<open>Builders\<close>

definition with_protocol :: "backend_protocol \<Rightarrow> 'f backend_group \<Rightarrow> 'f backend_group" where
  "with_protocol p g = g\<lparr>bg_protocol := p\<rparr>"

definition with_tls :: "upstream_tls \<Rightarrow> 'f backend_group \<Rightarrow> 'f backend_group" where
  "with_tls t g = g\<lparr>bg_tls := Some t\<rparr>"

definition with_retries :: "retry_policy_config \<Rightarrow> 'f backend_group \<Rightarrow> 'f backend_group" where
  "with_retries r g = g\<lparr>bg_retry := r\<rparr>"

definition with_keepalive_timeout :: "nat option \<Rightarrow> 'f backend_group \<Rightarrow> 'f backend_group" where
  "with_keepalive_timeout t g = g\<lparr>bg_keepalive_timeout := t\<rparr>"

definition with_connect_timeout :: "nat option \<Rightarrow> 'f backend_group \<Rightarrow> 'f backend_group" where
  "with_connect_timeout t g = g\<lparr>bg_connect_timeout := t\<rparr>"

text \<open>The nested loops that index every pooled address with its backend's number.\<close>

definition pool_index :: "(nat \<Rightarrow> socket_addr \<Rightarrow> 'e) \<Rightarrow> backend_pool list \<Rightarrow> 'e list" where
  "pool_index mk backends =
     concat (map (\<lambda>(backend_idx, pool). map (mk backend_idx) (bp_addrs pool)) (enumerate 0 backends))"

definition mk_lb_endpoint :: "nat \<Rightarrow> socket_addr \<Rightarrow> lb_endpoint" where
  "mk_lb_endpoint backend_idx addr =
     \<lparr>le_addr = addr, le_backend_idx = of_nat backend_idx, le_token = affinity_token addr,
      le_active = 0, le_ewma_ns = 0\<rparr>"

definition mk_affinity_endpoint :: "nat \<Rightarrow> socket_addr \<Rightarrow> affinity_endpoint" where
  "mk_affinity_endpoint backend_idx addr =
     \<lparr>ae_addr = addr, ae_token = affinity_token addr, ae_backend_idx = of_nat backend_idx\<rparr>"

definition with_load_balance :: "load_balance \<Rightarrow> 'f backend_group \<Rightarrow> 'f backend_group" where
  "with_load_balance lb g =
     (let g = g\<lparr>bg_load_balance := lb\<rparr> in
      if lb = RoundRobin then g\<lparr>bg_lb_endpoints := None\<rparr>
      else
        let index = pool_index mk_lb_endpoint (bg_backends g) in
        g\<lparr>bg_lb_endpoints := (if index = [] then None else Some index)\<rparr>)"

definition hash_by :: "'f backend_group \<Rightarrow> hash_source option" where
  "hash_by g = (case bg_load_balance g of Hash source \<Rightarrow> Some source | _ \<Rightarrow> None)"

text \<open>The release build: a list of the wrong length leaves the group as it is.\<close>

definition with_per_backend_filters :: "'f list list \<Rightarrow> 'f backend_group \<Rightarrow> 'f backend_group" where
  "with_per_backend_filters per_backend g =
     (if length per_backend \<noteq> length (bg_backends g) then g
      else if \<not> list_ex (\<lambda>f. f \<noteq> []) per_backend then g\<lparr>bg_per_backend_filters := None\<rparr>
      else g\<lparr>bg_per_backend_filters :=
               Some (map (\<lambda>f. if f = [] then None else Some f) per_backend)\<rparr>)"

definition with_session_affinity :: "session_affinity option \<Rightarrow> 'f backend_group \<Rightarrow> 'f backend_group" where
  "with_session_affinity affinity g =
     (case affinity of
        None \<Rightarrow> g\<lparr>bg_session_affinity := None, bg_affinity_endpoints := None\<rparr>
      | Some cfg \<Rightarrow> g\<lparr>bg_session_affinity := Some cfg,
                     bg_affinity_endpoints := Some (pool_index mk_affinity_endpoint (bg_backends g))\<rparr>)"

section \<open>Selection\<close>

definition filters_for_backend :: "'f backend_group \<Rightarrow> nat \<Rightarrow> 'f list option" where
  "filters_for_backend g backend_idx =
     (case bg_per_backend_filters g of
        None \<Rightarrow> None
      | Some all \<Rightarrow> (case nth_opt all backend_idx of Some slot \<Rightarrow> slot | None \<Rightarrow> None))"

definition endpoint_by_token ::
  "'f backend_group \<Rightarrow> u64 \<Rightarrow> (socket_addr \<times> 'f list option) option" where
  "endpoint_by_token g token =
     (case bg_affinity_endpoints g of
        None \<Rightarrow> None
      | Some index \<Rightarrow>
          map_option (\<lambda>e. (ae_addr e, filters_for_backend g (unat (ae_backend_idx e))))
            (find (\<lambda>e. ae_token e = token) index))"

definition endpoint_by_hash ::
  "'f backend_group \<Rightarrow> u64 \<Rightarrow> (socket_addr \<times> 'f list option) option" where
  "endpoint_by_hash g key_hash =
     (case bg_affinity_endpoints g of
        None \<Rightarrow> None
      | Some index \<Rightarrow>
          map_option (\<lambda>e. (ae_addr e, filters_for_backend g (unat (ae_backend_idx e))))
            (max_by_key (\<lambda>e. rendezvous_score key_hash (ae_token e)) index))"

definition filters_for_endpoint :: "'f backend_group \<Rightarrow> socket_addr \<Rightarrow> 'f list option" where
  "filters_for_endpoint g addr =
     (case bg_affinity_endpoints g of
        None \<Rightarrow> None
      | Some index \<Rightarrow>
          (case find (\<lambda>e. ae_addr e = addr) index of
             None \<Rightarrow> None
           | Some e \<Rightarrow> filters_for_backend g (unat (ae_backend_idx e))))"

definition next_endpoint_with_filters ::
  "'f backend_group \<Rightarrow> ('f backend_group \<times> (socket_addr \<times> 'f list option) option) option" where
  "next_endpoint_with_filters g =
     (if bg_slots g = [] then Some (g, None)
      else
        let slot = unat (bg_slot_counter g) mod length (bg_slots g);
            g = g\<lparr>bg_slot_counter := bg_slot_counter g + 1\<rparr>;
            backend_idx = unat (bg_slots g ! slot)
        in case nth_opt (bg_backends g) backend_idx of
             None \<Rightarrow> None
           | Some pool \<Rightarrow>
               (case backend_pool_next pool of
                  None \<Rightarrow> None
                | Some (pool', addr) \<Rightarrow>
                    Some (g\<lparr>bg_backends := (bg_backends g)[backend_idx := pool']\<rparr>,
                          Some (addr, filters_for_backend g backend_idx))))"

definition next_endpoint :: "'f backend_group \<Rightarrow> ('f backend_group \<times> socket_addr option) option" where
  "next_endpoint g = map_option (\<lambda>(g', r). (g', map_option fst r)) (next_endpoint_with_filters g)"

definition select_round_robin :: "'f backend_group \<Rightarrow> ('f backend_group \<times> 'f selected option) option" where
  "select_round_robin g =
     map_option (\<lambda>(g', r). (g', map_option (\<lambda>(addr, filters).
         \<lparr>sel_addr = addr, sel_filters = filters, sel_track = None\<rparr>) r))
       (next_endpoint_with_filters g)"

definition select_tracked :: "'f backend_group \<Rightarrow> lb_endpoint list \<Rightarrow> nat \<Rightarrow> 'f selected" where
  "select_tracked g eps idx =
     \<lparr>sel_addr = le_addr (eps ! idx),
      sel_filters = filters_for_backend g (unat (le_backend_idx (eps ! idx))),
      sel_track = Some (of_nat idx)\<rparr>"

definition select_upstream ::
  "'f backend_group \<Rightarrow> u64 option \<Rightarrow> ('f backend_group \<times> 'f selected option) option" where
  "select_upstream g hash_key =
     (case bg_load_balance g of
        RoundRobin \<Rightarrow> select_round_robin g
      | Hash _ \<Rightarrow>
          (case bg_lb_endpoints g of
             None \<Rightarrow> Some (g, None)
           | Some eps \<Rightarrow>
               (case hash_key of
                  None \<Rightarrow> select_round_robin g
                | Some key \<Rightarrow>
                    Some (g, map_option (\<lambda>ep.
                        \<lparr>sel_addr = le_addr ep,
                         sel_filters = filters_for_backend g (unat (le_backend_idx ep)),
                         sel_track = None\<rparr>)
                      (max_by_key (\<lambda>e. rendezvous_score key (le_token e)) eps))))
      | LeastConn \<Rightarrow>
          (case bg_lb_endpoints g of
             None \<Rightarrow> Some (g, None)
           | Some eps \<Rightarrow>
               (case min_by_key (\<lambda>(_, e). le_active e) (enumerate 0 eps) of
                  None \<Rightarrow> Some (g, None)
                | Some (idx, _) \<Rightarrow>
                    Some (g\<lparr>bg_lb_endpoints :=
                             Some (eps[idx := (eps ! idx)\<lparr>le_active := le_active (eps ! idx) + 1\<rparr>])\<rparr>,
                          Some (select_tracked g eps idx))))
      | Ewma \<Rightarrow>
          (case bg_lb_endpoints g of
             None \<Rightarrow> Some (g, None)
           | Some eps \<Rightarrow>
               (case min_by_key (\<lambda>(_, e). le_ewma_ns e) (enumerate 0 eps) of
                  None \<Rightarrow> Some (g, None)
                | Some (idx, _) \<Rightarrow> Some (g, Some (select_tracked g eps idx)))))"

definition dec_active :: "'f backend_group \<Rightarrow> lb_endpoint list \<Rightarrow> nat \<Rightarrow> 'f backend_group" where
  "dec_active g eps i =
     g\<lparr>bg_lb_endpoints := Some (eps[i := (eps ! i)\<lparr>le_active := le_active (eps ! i) - 1\<rparr>])\<rparr>"

definition release :: "u32 \<Rightarrow> 'f backend_group \<Rightarrow> 'f backend_group" where
  "release idx g =
     (case bg_lb_endpoints g of
        None \<Rightarrow> g
      | Some eps \<Rightarrow>
          if unat idx < length eps \<and> bg_load_balance g = LeastConn then dec_active g eps (unat idx)
          else g)"

definition ewma_update :: "u64 \<Rightarrow> u64 \<Rightarrow> u64" where
  "ewma_update old sample =
     (if old = 0 then sample else saturating_add (saturating_sub old (old div 8)) (sample div 8))"

definition complete :: "u32 \<Rightarrow> nat option \<Rightarrow> 'f backend_group \<Rightarrow> 'f backend_group" where
  "complete idx elapsed g =
     (case bg_lb_endpoints g of
        None \<Rightarrow> g
      | Some eps \<Rightarrow>
          (case nth_opt eps (unat idx) of
             None \<Rightarrow> g
           | Some ep \<Rightarrow>
               (case bg_load_balance g of
                  LeastConn \<Rightarrow> dec_active g eps (unat idx)
                | Ewma \<Rightarrow>
                    (case elapsed of
                       None \<Rightarrow> g
                     | Some d \<Rightarrow>
                         let sample = of_nat (min d (2 ^ 64 - 1)) in
                         g\<lparr>bg_lb_endpoints := Some (eps[unat idx :=
                             ep\<lparr>le_ewma_ns := ewma_update (le_ewma_ns ep) sample\<rparr>])\<rparr>)
                | _ \<Rightarrow> g)))"

end
