(* ===== verification/Backend_Selection.thy ===== *)
theory Backend_Selection
  imports Backend
begin

text \<open>
  Correctness of the backend group: the invariant every constructor, builder and selection
  keeps, exactness of the two-level weighted round-robin, the in-flight accounting of the
  least-connections mode, and the stability of rendezvous hashing.
\<close>

section \<open>Weights\<close>

lemma unat_gcd_u16: "unat (gcd_u16 a b) = gcd (unat a) (unat b)"
proof (induction a b rule: gcd_u16.induct)
  case (1 a b)
  show ?case
  proof (cases "b = 0")
    case False
    then show ?thesis
      using 1 by (subst gcd_u16.simps) (simp add: unat_mod_distrib gcd_non_0_nat unat_gt_0 gcd.commute)
  qed (simp add: gcd_u16.simps)
qed

lemma unat_foldl_gcd_u16: "unat (foldl gcd_u16 g ws) = gcd (unat g) (Gcd (unat ` set ws))"
  by (induction ws arbitrary: g) (simp_all add: unat_gcd_u16 gcd.assoc)

definition weight_gcd :: "u16 list \<Rightarrow> nat" where
  "weight_gcd ws = Gcd (unat ` set ws)"

lemma gcd_reduce_exact: "map unat (gcd_reduce ws) = map (\<lambda>w. unat w div weight_gcd ws) ws"
proof -
  let ?g = "foldl gcd_u16 0 ws"
  have g: "unat ?g = weight_gcd ws" by (simp add: unat_foldl_gcd_u16 weight_gcd_def)
  show ?thesis
  proof (cases "?g \<le> 1")
    case True
    then have "weight_gcd ws = 0 \<or> weight_gcd ws = 1" using g by (auto simp: word_le_nat_alt)
    then show ?thesis
    proof
      assume "weight_gcd ws = 0"
      then have "unat w = 0" if "w \<in> set ws" for w using that by (auto simp: weight_gcd_def Gcd_0_iff)
      then show ?thesis using True \<open>weight_gcd ws = 0\<close> by (simp add: gcd_reduce_def Let_def)
    next
      assume "weight_gcd ws = 1"
      then show ?thesis using True by (simp add: gcd_reduce_def Let_def)
    qed
  next
    case False
    then show ?thesis using g by (simp add: gcd_reduce_def Let_def unat_div_distrib)
  qed
qed

lemma length_gcd_reduce [simp]: "length (gcd_reduce ws) = length ws"
  by (simp add: gcd_reduce_def Let_def)

lemma gcd_reduce_pos:
  assumes "\<forall>w\<in>set ws. 0 < w" and "w \<in> set (gcd_reduce ws)"
  shows "0 < unat w"
proof -
  have "unat w \<in> set (map unat (gcd_reduce ws))" using assms(2) by simp
  then obtain v where v: "v \<in> set ws" "unat w = unat v div weight_gcd ws"
    by (auto simp: gcd_reduce_exact)
  have "weight_gcd ws dvd unat v" using v(1) by (simp add: weight_gcd_def)
  moreover have "0 < unat v" using assms(1) v(1) by (simp add: unat_gt_0 word_gt_0)
  ultimately show ?thesis using v(2) by (metis dvd_div_eq_0_iff gr0I less_numeral_extra(3))
qed

section \<open>The slot array\<close>

lemma set_slots_of: "s \<in> set (slots_of ws) \<Longrightarrow> unat s < length ws"
proof -
  assume "s \<in> set (slots_of ws)"
  then obtain i where i: "i < length ws" "s = of_nat i"
    by (auto simp: slots_of_def in_set_enumerate_eq)
  have "unat (of_nat i :: u16) \<le> i" by (simp add: unat_of_nat)
  then show ?thesis using i by simp
qed

lemma slots_of_empty_iff:
  assumes "\<forall>w\<in>set ws. 0 < unat w"
  shows "slots_of ws = [] \<longleftrightarrow> ws = []"
proof (cases ws)
  case (Cons w ws')
  then have "0 < unat w" using assms by simp
  then show ?thesis using Cons by (auto simp: slots_of_def gr0_conv_Suc)
qed (simp add: slots_of_def)

lemma slots_of_append: "slots_of (ws @ [w]) = slots_of ws @ replicate (unat w) (of_nat (length ws))"
  by (simp add: slots_of_def enumerate_append_eq)

lemma slots_of_Nil [simp]: "slots_of [] = []"
  by (simp add: slots_of_def)

lemma length_slots_of: "length (slots_of ws) = sum_list (map unat ws)"
  by (induction ws rule: rev_induct) (simp_all add: slots_of_append)

lemma count_slots_of:
  assumes "length ws \<le> 2 ^ 16" "i < length ws"
  shows "length (filter (\<lambda>s. unat s = i) (slots_of ws)) = unat (ws ! i)"
  using assms
proof (induction ws rule: rev_induct)
  case (snoc w ws)
  have none: "filter (\<lambda>s. unat s = length ws) (slots_of ws) = []"
    using set_slots_of by (fastforce simp: filter_empty_conv)
  have u: "unat (of_nat (length ws) :: u16) = length ws"
    using snoc.prems by (simp add: unat_of_nat)
  show ?case
    using snoc none u by (cases "i = length ws") (auto simp: slots_of_append nth_append)
qed simp

section \<open>The invariant\<close>

text \<open>An accounting entry without its counters is what the index loop wrote.\<close>

definition erase_counters :: "lb_endpoint \<Rightarrow> lb_endpoint" where
  "erase_counters e = e\<lparr>le_active := 0, le_ewma_ns := 0\<rparr>"

definition group_inv :: "'f backend_group \<Rightarrow> bool" where
  "group_inv g \<longleftrightarrow>
     (\<forall>p\<in>set (bg_backends g). bp_addrs p \<noteq> []) \<and>
     (\<forall>s\<in>set (bg_slots g). unat s < length (bg_backends g)) \<and>
     (bg_slots g = [] \<longleftrightarrow> bg_backends g = []) \<and>
     bg_addrs_snapshot g = concat (map bp_addrs (bg_backends g)) \<and>
     (\<forall>fs. bg_per_backend_filters g = Some fs \<longrightarrow> length fs = length (bg_backends g)) \<and>
     (bg_affinity_endpoints g = None \<longrightarrow> bg_session_affinity g = None) \<and>
     (\<forall>ix. bg_affinity_endpoints g = Some ix \<longrightarrow>
        ix = pool_index mk_affinity_endpoint (bg_backends g)) \<and>
     (bg_lb_endpoints g = None \<longrightarrow> bg_load_balance g = RoundRobin \<or> bg_backends g = []) \<and>
     (\<forall>eps. bg_lb_endpoints g = Some eps \<longrightarrow> bg_backends g \<noteq> [] \<and>
        map erase_counters eps = pool_index mk_lb_endpoint (bg_backends g))"

section \<open>Indexes over the pooled endpoints\<close>

lemma pool_index_addrs:
  "pool_index mk bs = concat (map (\<lambda>(i, as). map (mk i) as) (enumerate 0 (map bp_addrs bs)))"
  by (simp add: pool_index_def enumerate_eq_zip zip_map2 case_prod_unfold comp_def)

lemma pool_index_cong: "map bp_addrs bs = map bp_addrs bs' \<Longrightarrow> pool_index mk bs = pool_index mk bs'"
  by (simp add: pool_index_addrs)

text \<open>
  What the affinity index and the accounting index promise their readers: an entry made for an
  address carries that address, its stable token and the number of its backend.
\<close>

locale endpoint_index =
  fixes mk :: "nat \<Rightarrow> socket_addr \<Rightarrow> 'e"
    and addr_of :: "'e \<Rightarrow> socket_addr"
    and token_of :: "'e \<Rightarrow> u64"
    and backend_of :: "'e \<Rightarrow> u16"
  assumes addr_of_mk: "addr_of (mk i a) = a"
    and token_of_mk: "token_of (mk i a) = affinity_token a"
    and backend_of_mk: "backend_of (mk i a) = of_nat i"
begin

lemma index_addrs: "map addr_of (pool_index mk bs) = concat (map bp_addrs bs)"
proof -
  have "map addr_of (pool_index mk bs) = concat (map snd (enumerate 0 (map bp_addrs bs)))"
    by (simp add: pool_index_addrs map_concat comp_def case_prod_unfold addr_of_mk del: map_snd_enumerate)
  then show ?thesis by simp
qed

lemma index_entry:
  assumes "e \<in> set (pool_index mk bs)"
  obtains i where "i < length bs" "addr_of e \<in> set (bp_addrs (bs ! i))" "backend_of e = of_nat i"
    "token_of e = affinity_token (addr_of e)"
  using assms that
  by (auto simp: pool_index_def in_set_enumerate_eq addr_of_mk token_of_mk backend_of_mk)

lemma rendezvous_owner:
  "map_option addr_of (max_by_key (\<lambda>e. rendezvous_score k (token_of e)) (pool_index mk bs)) =
   max_by_key (\<lambda>a. rendezvous_score k (affinity_token a)) (concat (map bp_addrs bs))"
proof -
  have "max_by_key (\<lambda>e. rendezvous_score k (token_of e)) (pool_index mk bs) =
        max_by_key ((\<lambda>a. rendezvous_score k (affinity_token a)) \<circ> addr_of) (pool_index mk bs)"
    by (rule max_by_key_cong) (auto elim: index_entry)
  then show ?thesis by (simp only: index_addrs[symmetric] max_by_key_map)
qed

end

interpretation affinity_ix: endpoint_index mk_affinity_endpoint ae_addr ae_token ae_backend_idx
  by unfold_locales (simp_all add: mk_affinity_endpoint_def)

interpretation lb_ix: endpoint_index mk_lb_endpoint le_addr le_token le_backend_idx
  by unfold_locales (simp_all add: mk_lb_endpoint_def)

section \<open>Every constructor, builder and operation keeps the invariant\<close>

lemma those_map_Some:
  "(\<forall>x\<in>set xs. f x = Some (h x)) \<Longrightarrow> those (map f xs) = Some (map h xs)"
  by (induction xs) auto

text \<open>The pools a list of refs contributes: positive weight and at least one address.\<close>

definition live_pools :: "(resolved_endpoints \<times> endpoint_key option \<times> u16) list \<Rightarrow> (socket_addr list \<times> u16) list" where
  "live_pools entries =
     map (\<lambda>(r, _, w). (re_addrs r, w)) (filter (\<lambda>(r, _, w). 0 < w \<and> re_addrs r \<noteq> []) entries)"

lemma weighted_with_endpoints_eq:
  "weighted_with_endpoints name entries =
     from_pools name
       (map (\<lambda>(r, k, w). \<lparr>wb_resolved = r, wb_key = k, wb_weight = w\<rparr>)
         (filter (\<lambda>(r, k, w). w > 0 \<and> (re_addrs r \<noteq> [] \<or> k \<noteq> None)) entries))
       (live_pools entries)"
proof -
  have "map (\<lambda>wb. (re_addrs (wb_resolved wb), wb_weight wb))
          (filter (\<lambda>wb. re_addrs (wb_resolved wb) \<noteq> [])
            (map (\<lambda>(r, k, w). \<lparr>wb_resolved = r, wb_key = k, wb_weight = w\<rparr>)
              (filter (\<lambda>(r, k, w). w > 0 \<and> (re_addrs r \<noteq> [] \<or> k \<noteq> None)) entries))) =
        live_pools entries"
    unfolding live_pools_def by (induction entries) auto
  then show ?thesis by (simp add: weighted_with_endpoints_def Let_def)
qed

lemma live_pools_ok: "p \<in> set (live_pools entries) \<Longrightarrow> fst p \<noteq> [] \<and> 0 < snd p"
  by (auto simp: live_pools_def)

lemma from_pools_Some:
  assumes "pools \<noteq> []" "\<forall>p\<in>set pools. fst p \<noteq> []"
  shows "from_pools name spec pools = Some
     ((empty_with_spec name spec)
        \<lparr>bg_backends := map (\<lambda>p. \<lparr>bp_addrs = fst p, bp_rr = 0\<rparr>) pools,
         bg_slots := slots_of (gcd_reduce (map snd pools)),
         bg_addrs_snapshot := concat (map fst pools)\<rparr>)"
proof -
  have "those (map (\<lambda>(addrs, _). backend_pool_new addrs) pools) =
        Some (map (\<lambda>p. \<lparr>bp_addrs = fst p, bp_rr = 0\<rparr>) pools)"
    by (rule those_map_Some) (use assms(2) in \<open>auto simp: backend_pool_new_def\<close>)
  then show ?thesis using assms(1) by (simp add: from_pools_def empty_with_spec_def Let_def)
qed

lemma from_pools_inv:
  assumes "\<forall>p\<in>set pools. fst p \<noteq> [] \<and> 0 < snd p"
  shows "\<exists>g. from_pools name spec pools = Some g \<and> group_inv g \<and> bg_addrs_snapshot g = concat (map fst pools)"
proof (cases "pools = []")
  case True
  then show ?thesis by (simp add: from_pools_def empty_with_spec_def group_inv_def)
next
  case False
  have pos: "\<forall>w\<in>set (gcd_reduce (map snd pools)). 0 < unat w"
    using gcd_reduce_pos[of "map snd pools"] assms by auto
  have "gcd_reduce (map snd pools) \<noteq> []"
    using False by (metis length_gcd_reduce length_map length_0_conv)
  then have "slots_of (gcd_reduce (map snd pools)) \<noteq> []" using pos by (simp add: slots_of_empty_iff)
  then show ?thesis
    using False assms set_slots_of[of _ "gcd_reduce (map snd pools)"]
    by (simp add: from_pools_Some group_inv_def empty_with_spec_def comp_def)
qed

lemma weighted_with_endpoints_inv:
  "\<exists>g. weighted_with_endpoints name entries = Some g \<and> group_inv g \<and>
     bg_addrs_snapshot g = concat (map fst (live_pools entries))"
  unfolding weighted_with_endpoints_eq by (rule from_pools_inv) (simp add: live_pools_ok)

lemma pool_index_Nil_iff:
  "\<forall>p\<in>set bs. bp_addrs p \<noteq> [] \<Longrightarrow> pool_index mk bs = [] \<longleftrightarrow> bs = []"
  by (cases bs) (auto simp: pool_index_def)

lemma erase_mk [simp]: "erase_counters (mk_lb_endpoint i a) = mk_lb_endpoint i a"
  by (simp add: erase_counters_def mk_lb_endpoint_def)

lemma erase_index [simp]: "map erase_counters (pool_index mk_lb_endpoint bs) = pool_index mk_lb_endpoint bs"
  by (simp add: pool_index_def map_concat comp_def case_prod_unfold)

lemma builders_inv:
  assumes "group_inv g"
  shows "group_inv (with_protocol p g)" and "group_inv (with_tls t g)"
    and "group_inv (with_retries r g)" and "group_inv (with_keepalive_timeout d g)"
    and "group_inv (with_connect_timeout d g)"
  using assms
  by (simp_all add: group_inv_def with_protocol_def with_tls_def with_retries_def
      with_keepalive_timeout_def with_connect_timeout_def)

lemma with_load_balance_inv: "group_inv g \<Longrightarrow> group_inv (with_load_balance lb g)"
  by (auto simp: group_inv_def with_load_balance_def Let_def pool_index_Nil_iff)

lemma with_per_backend_filters_inv: "group_inv g \<Longrightarrow> group_inv (with_per_backend_filters fs g)"
  by (auto simp: group_inv_def with_per_backend_filters_def)

lemma with_session_affinity_inv: "group_inv g \<Longrightarrow> group_inv (with_session_affinity a g)"
  by (auto simp: group_inv_def with_session_affinity_def split: option.split)

text \<open>Advancing counters changes no address, so it keeps the invariant.\<close>

lemma group_inv_counters:
  assumes "group_inv g" and "map bp_addrs bs = map bp_addrs (bg_backends g)"
  shows "group_inv (g\<lparr>bg_slot_counter := c, bg_backends := bs\<rparr>)"
proof -
  have "length bs = length (bg_backends g)" by (rule map_eq_imp_length_eq) (fact assms(2))
  moreover have "bs = [] \<longleftrightarrow> bg_backends g = []" using calculation by auto
  moreover have ne: "(\<forall>p\<in>set xs. bp_addrs p \<noteq> []) \<longleftrightarrow> [] \<notin> set (map bp_addrs xs)" for xs
    by force
  have "(\<forall>p\<in>set bs. bp_addrs p \<noteq> []) \<longleftrightarrow> (\<forall>p\<in>set (bg_backends g). bp_addrs p \<noteq> [])"
    by (simp only: ne assms(2))
  moreover have "pool_index mk_lb_endpoint bs = pool_index mk_lb_endpoint (bg_backends g)"
    "pool_index mk_affinity_endpoint bs = pool_index mk_affinity_endpoint (bg_backends g)"
    by (rule pool_index_cong, fact assms(2))+
  ultimately show ?thesis using assms by (simp add: group_inv_def)
qed

lemma map_bp_addrs_update:
  "i < length bs \<Longrightarrow> map bp_addrs (bs[i := (bs ! i)\<lparr>bp_rr := r\<rparr>]) = map bp_addrs bs"
  by (simp add: map_update list_update_same_conv)

lemma next_endpoint_inv:
  assumes "group_inv g"
  obtains (empty) "bg_slots g = []" "next_endpoint_with_filters g = Some (g, None)"
  | (pick) b r g' where "bg_slots g \<noteq> []"
      "b = unat (bg_slots g ! (unat (bg_slot_counter g) mod length (bg_slots g)))"
      "b < length (bg_backends g)"
      "r = bp_rr (bg_backends g ! b)"
      "g' = g\<lparr>bg_slot_counter := bg_slot_counter g + 1,
              bg_backends := (bg_backends g)[b := (bg_backends g ! b)\<lparr>bp_rr := r + 1\<rparr>]\<rparr>"
      "next_endpoint_with_filters g =
         Some (g', Some (bp_addrs (bg_backends g ! b) ! (unat r mod length (bp_addrs (bg_backends g ! b))),
                         filters_for_backend g b))"
      "bp_addrs (bg_backends g ! b) \<noteq> []"
      "group_inv g'"
proof (cases "bg_slots g = []")
  case True
  then show ?thesis using empty by (simp add: next_endpoint_with_filters_def)
next
  case False
  let ?b = "unat (bg_slots g ! (unat (bg_slot_counter g) mod length (bg_slots g)))"
  have b: "?b < length (bg_backends g)" using assms False by (auto simp: group_inv_def)
  then have ne: "bp_addrs (bg_backends g ! ?b) \<noteq> []" using assms by (auto simp: group_inv_def)
  show ?thesis
    by (rule pick[OF False refl b refl refl _ ne])
       (use False b ne assms in \<open>simp_all add: next_endpoint_with_filters_def Let_def
          backend_pool_next_def nth_opt_def filters_for_backend_def group_inv_counters
          map_bp_addrs_update\<close>)
qed

lemma group_inv_eps:
  assumes "group_inv g" "bg_lb_endpoints g = Some eps"
  shows "bg_backends g \<noteq> []"
    and "map erase_counters eps = pool_index mk_lb_endpoint (bg_backends g)"
    and "eps \<noteq> []"
    and "map le_addr eps = bg_addrs_snapshot g"
    and "map le_token eps = map affinity_token (bg_addrs_snapshot g)"
proof -
  show ix: "bg_backends g \<noteq> []" "map erase_counters eps = pool_index mk_lb_endpoint (bg_backends g)"
    using assms by (simp_all add: group_inv_def)
  show "eps \<noteq> []" using ix assms(1) pool_index_Nil_iff[of "bg_backends g" mk_lb_endpoint]
    by (auto simp: group_inv_def)
  have "map le_addr (map erase_counters eps) = concat (map bp_addrs (bg_backends g))"
    unfolding ix(2) by (rule lb_ix.index_addrs)
  then show addrs: "map le_addr eps = bg_addrs_snapshot g"
    using assms(1) by (simp add: group_inv_def erase_counters_def comp_def)
  have "le_token e = affinity_token (le_addr e)" if "e \<in> set eps" for e
  proof -
    have "erase_counters e \<in> set (pool_index mk_lb_endpoint (bg_backends g))"
      using that unfolding ix(2)[symmetric] by simp
    then show ?thesis by (rule lb_ix.index_entry) (simp add: erase_counters_def)
  qed
  then show "map le_token eps = map affinity_token (bg_addrs_snapshot g)"
    unfolding addrs[symmetric] by simp
qed

lemma eps_index:
  assumes "group_inv g" "bg_lb_endpoints g = Some eps" "e \<in> set eps"
  obtains i where "i < length (bg_backends g)" "le_addr e \<in> set (bp_addrs (bg_backends g ! i))"
    "le_backend_idx e = of_nat i" "le_token e = affinity_token (le_addr e)"
proof -
  have "erase_counters e \<in> set (pool_index mk_lb_endpoint (bg_backends g))"
    using assms(3) unfolding group_inv_eps(2)[OF assms(1,2), symmetric] by simp
  then show ?thesis by (rule lb_ix.index_entry) (rule that; simp add: erase_counters_def)
qed

lemma lb_update_inv:
  assumes "group_inv g" "bg_lb_endpoints g = Some eps" "i < length eps"
    and "erase_counters e = erase_counters (eps ! i)"
  shows "group_inv (g\<lparr>bg_lb_endpoints := Some (eps[i := e])\<rparr>)"
proof -
  have "map erase_counters (eps[i := e]) = map erase_counters eps"
    using assms(3,4) by (simp add: map_update list_update_same_conv)
  then show ?thesis using assms(1,2) by (simp add: group_inv_def)
qed

text \<open>The filters of a selection are those of a backend that holds the selected address.\<close>

definition selection_ok :: "'f backend_group \<Rightarrow> 'f selected \<Rightarrow> bool" where
  "selection_ok g s \<longleftrightarrow>
     (\<exists>i<length (bg_backends g).
        sel_addr s \<in> set (bp_addrs (bg_backends g ! i)) \<and>
        sel_filters s = filters_for_backend g (unat (of_nat i :: u16)))"

lemma snapshot_Nil_iff: "group_inv g \<Longrightarrow> bg_addrs_snapshot g = [] \<longleftrightarrow> bg_backends g = []"
  by (cases "bg_backends g") (auto simp: group_inv_def)

lemma select_round_robin_ok:
  assumes "group_inv g"
  shows "\<exists>g' r. select_round_robin g = Some (g', r) \<and> group_inv g' \<and>
           (r = None \<longleftrightarrow> bg_addrs_snapshot g = []) \<and> (\<forall>s. r = Some s \<longrightarrow> selection_ok g s)"
  using assms
proof (cases rule: next_endpoint_inv)
  case empty
  then have "bg_backends g = []" using assms by (simp add: group_inv_def)
  then show ?thesis using empty assms snapshot_Nil_iff[OF assms]
    by (simp add: select_round_robin_def)
next
  case (pick b r g')
  have "bg_backends g \<noteq> []" using pick(3) by auto
  moreover have "unat (of_nat b :: u16) = b"
    unfolding pick(2) by simp
  ultimately show ?thesis using pick snapshot_Nil_iff[OF assms]
    by (auto simp: select_round_robin_def selection_ok_def intro!: exI[of _ b])
qed

lemma min_by_key_enumerate:
  assumes "min_by_key (\<lambda>(_, e). f e) (enumerate 0 xs) = Some (i, e)"
  shows "i < length xs \<and> e = xs ! i \<and> (\<forall>j<length xs. f (xs ! i) \<le> f (xs ! j)) \<and>
         (\<forall>j<i. f (xs ! i) < f (xs ! j))"
proof -
  obtain pre post where d: "enumerate 0 xs = pre @ (i, e) # post"
    "\<forall>x\<in>set pre. f e < f (snd x)" "\<forall>x\<in>set post. f e \<le> f (snd x)"
    using assms by (rule min_by_key_decomp) (auto simp: case_prod_unfold)
  have len: "length pre < length xs" using arg_cong[OF d(1), of length] by simp
  have "(i, e) = enumerate 0 xs ! length pre" using d(1) by simp
  then have ie: "i = length pre" "e = xs ! i" using len by (auto simp: nth_enumerate_eq)
  have before: "f (xs ! i) < f (xs ! j)" if "j < i" for j
  proof -
    have "enumerate 0 xs ! j \<in> set pre" using that ie d(1) by (simp add: nth_append)
    then show ?thesis using d(2) ie that len by (auto simp: nth_enumerate_eq)
  qed
  have after: "f (xs ! i) \<le> f (xs ! j)" if "i < j" "j < length xs" for j
  proof -
    have l: "length pre + Suc (length post) = length xs" using arg_cong[OF d(1), of length] by simp
    have "enumerate 0 xs ! j = post ! (j - Suc i)" using that ie d(1) by (simp add: nth_append)
    then have "enumerate 0 xs ! j \<in> set post" using that ie l by simp
    then show ?thesis using d(3) ie that by (auto simp: nth_enumerate_eq)
  qed
  show ?thesis using ie len before after by (metis less_imp_le linorder_neqE_nat order_refl)
qed

lemma enumerate_Nil_iff [simp]: "enumerate n xs = [] \<longleftrightarrow> xs = []"
  by (cases xs) auto

lemma constructed_inv: "weighted_with_endpoints name entries = Some g \<Longrightarrow> group_inv g"
  by (metis option.inject weighted_with_endpoints_inv)

lemma select_entry_ok:
  assumes "group_inv g" "bg_lb_endpoints g = Some eps" "e \<in> set eps"
  shows "selection_ok g \<lparr>sel_addr = le_addr e,
           sel_filters = filters_for_backend g (unat (le_backend_idx e)), sel_track = t\<rparr>"
  using assms by (rule eps_index) (auto simp: selection_ok_def)

lemma select_upstream_ok:
  assumes inv: "group_inv g"
  shows "\<exists>g' r. select_upstream g key = Some (g', r) \<and> group_inv g' \<and>
           (r = None \<longleftrightarrow> bg_addrs_snapshot g = []) \<and> (\<forall>s. r = Some s \<longrightarrow> selection_ok g s)"
proof (cases "bg_load_balance g = RoundRobin")
  case True
  then show ?thesis using select_round_robin_ok[OF inv] by (simp add: select_upstream_def)
next
  case lb: False
  show ?thesis
  proof (cases "bg_lb_endpoints g")
    case None
    then have "bg_addrs_snapshot g = []" using inv lb snapshot_Nil_iff[OF inv] by (simp add: group_inv_def)
    then show ?thesis using None lb inv by (cases "bg_load_balance g") (simp_all add: select_upstream_def)
  next
    case (Some eps)
    note eps = group_inv_eps[OF inv Some]
    have ne: "bg_addrs_snapshot g \<noteq> []" using eps(3,4) by auto
    show ?thesis
    proof (cases "bg_load_balance g")
      case (Hash src)
      show ?thesis
      proof (cases key)
        case None
        then show ?thesis using select_round_robin_ok[OF inv] Hash Some by (simp add: select_upstream_def)
      next
        case (Some k)
        obtain e where e: "max_by_key (\<lambda>e. rendezvous_score k (le_token e)) eps = Some e"
          using eps(3) by (cases "max_by_key (\<lambda>e. rendezvous_score k (le_token e)) eps") auto
        then show ?thesis
          using Hash Some \<open>bg_lb_endpoints g = Some eps\<close> inv ne
            select_entry_ok[OF inv \<open>bg_lb_endpoints g = Some eps\<close> max_by_key_in[OF e]]
          by (simp add: select_upstream_def)
      qed
    next
      case LeastConn
      obtain i e where m: "min_by_key (\<lambda>(_, e). le_active e) (enumerate 0 eps) = Some (i, e)"
        using eps(3) by (cases "min_by_key (\<lambda>(_, e). le_active e) (enumerate 0 eps)") auto
      have i: "i < length eps" using min_by_key_enumerate[OF m] by simp
      then show ?thesis
        using LeastConn Some ne m select_entry_ok[OF inv Some nth_mem[OF i]] lb_update_inv[OF inv Some i]
        by (simp add: select_upstream_def select_tracked_def erase_counters_def)
    next
      case Ewma
      obtain i e where m: "min_by_key (\<lambda>(_, e). le_ewma_ns e) (enumerate 0 eps) = Some (i, e)"
        using eps(3) by (cases "min_by_key (\<lambda>(_, e). le_ewma_ns e) (enumerate 0 eps)") auto
      have i: "i < length eps" using min_by_key_enumerate[OF m] by simp
      then show ?thesis
        using Ewma Some ne m inv select_entry_ok[OF inv Some nth_mem[OF i]]
        by (simp add: select_upstream_def select_tracked_def)
    qed (use lb in simp)
  qed
qed

lemma dec_active_inv:
  "group_inv g \<Longrightarrow> bg_lb_endpoints g = Some eps \<Longrightarrow> i < length eps \<Longrightarrow> group_inv (dec_active g eps i)"
  unfolding dec_active_def by (rule lb_update_inv) (simp_all add: erase_counters_def)

lemma release_inv: "group_inv g \<Longrightarrow> group_inv (release idx g)"
  by (auto simp: release_def dec_active_inv split: option.split)

lemma complete_inv: "group_inv g \<Longrightarrow> group_inv (complete idx d g)"
  by (auto simp: complete_def Let_def erase_counters_def intro!: lb_update_inv dec_active_inv
      split: option.split load_balance.split)

text \<open>Groups a program can build and use: a constructor, then builders and operations.\<close>

inductive group_reachable :: "'f backend_group \<Rightarrow> bool" where
  construct: "weighted_with_endpoints name entries = Some g \<Longrightarrow> group_reachable g"
| protocol: "group_reachable g \<Longrightarrow> group_reachable (with_protocol p g)"
| tls: "group_reachable g \<Longrightarrow> group_reachable (with_tls t g)"
| retries: "group_reachable g \<Longrightarrow> group_reachable (with_retries r g)"
| keepalive: "group_reachable g \<Longrightarrow> group_reachable (with_keepalive_timeout d g)"
| connect: "group_reachable g \<Longrightarrow> group_reachable (with_connect_timeout d g)"
| balance: "group_reachable g \<Longrightarrow> group_reachable (with_load_balance lb g)"
| per_backend: "group_reachable g \<Longrightarrow> group_reachable (with_per_backend_filters fs g)"
| affinity: "group_reachable g \<Longrightarrow> group_reachable (with_session_affinity a g)"
| select: "group_reachable g \<Longrightarrow> select_upstream g key = Some (g', r) \<Longrightarrow> group_reachable g'"
| next_ep: "group_reachable g \<Longrightarrow> next_endpoint_with_filters g = Some (g', n) \<Longrightarrow> group_reachable g'"
| release: "group_reachable g \<Longrightarrow> group_reachable (release idx g)"
| complete: "group_reachable g \<Longrightarrow> group_reachable (complete idx d g)"

lemma group_reachable_inv: "group_reachable g \<Longrightarrow> group_inv g"
proof (induction rule: group_reachable.induct)
  case (construct name entries g)
  then show ?case by (rule constructed_inv)
next
  case (select g key g' r)
  then show ?case using select_upstream_ok[of g key] by auto
next
  case (next_ep g g' n)
  show ?case using next_ep.IH by (cases rule: next_endpoint_inv) (use next_ep in auto)
qed (simp_all add: builders_inv with_load_balance_inv with_per_backend_filters_inv
    with_session_affinity_inv release_inv complete_inv)

section \<open>Weighted round-robin\<close>

fun run_picks :: "nat \<Rightarrow> 'f backend_group \<Rightarrow> ('f backend_group \<times> socket_addr list) option" where
  "run_picks 0 g = Some (g, [])"
| "run_picks (Suc n) g =
     (case run_picks n g of
        None \<Rightarrow> None
      | Some (g', as) \<Rightarrow>
          (case next_endpoint g' of
             Some (g'', Some a) \<Rightarrow> Some (g'', as @ [a])
           | Some (g'', None) \<Rightarrow> Some (g'', as)
           | None \<Rightarrow> None))"

text \<open>
  The reference: pick \<open>k\<close> goes to the backend of slot \<open>k mod length slots\<close>, and within that
  backend to the pod after the one it served last.
\<close>

definition wrr_backend :: "'f backend_group \<Rightarrow> nat \<Rightarrow> nat" where
  "wrr_backend g k = unat (bg_slots g ! (k mod length (bg_slots g)))"

definition wrr_visits :: "'f backend_group \<Rightarrow> nat \<Rightarrow> nat \<Rightarrow> nat" where
  "wrr_visits g b k = length (filter (\<lambda>j. wrr_backend g j = b) [0..<k])"

definition wrr_pick :: "'f backend_group \<Rightarrow> nat \<Rightarrow> socket_addr" where
  "wrr_pick g k =
     (let b = wrr_backend g k; as = bp_addrs (bg_backends g ! b)
      in as ! (wrr_visits g b k mod length as))"

definition fresh_counters :: "'f backend_group \<Rightarrow> bool" where
  "fresh_counters g \<longleftrightarrow> bg_slot_counter g = 0 \<and> (\<forall>p\<in>set (bg_backends g). bp_rr p = 0)"

definition group_after :: "'f backend_group \<Rightarrow> nat \<Rightarrow> 'f backend_group" where
  "group_after g n =
     g\<lparr>bg_slot_counter := of_nat n,
       bg_backends := map (\<lambda>(b, p). p\<lparr>bp_rr := of_nat (wrr_visits g b n)\<rparr>) (enumerate 0 (bg_backends g))\<rparr>"

lemma group_after_0: "fresh_counters g \<Longrightarrow> group_after g 0 = g"
proof -
  assume f: "fresh_counters g"
  have "map (\<lambda>(b, p). p\<lparr>bp_rr := of_nat (wrr_visits g b 0)\<rparr>) (enumerate 0 (bg_backends g)) = bg_backends g"
    by (rule nth_equalityI) (use f in \<open>auto simp: nth_enumerate_eq wrr_visits_def fresh_counters_def\<close>)
  then show ?thesis using f by (simp add: group_after_def fresh_counters_def)
qed

lemma wrr_visits_le: "wrr_visits g b k \<le> k"
  using length_filter_le[of "\<lambda>j. wrr_backend g j = b" "[0..<k]"] by (simp add: wrr_visits_def)

lemma wrr_visits_Suc: "wrr_visits g b (Suc k) = wrr_visits g b k + (if wrr_backend g k = b then 1 else 0)"
  by (simp add: wrr_visits_def)

lemma group_after_inv: "group_inv g \<Longrightarrow> group_inv (group_after g n)"
  unfolding group_after_def
  by (rule group_inv_counters) (auto intro!: nth_equalityI simp: nth_enumerate_eq)

lemma next_endpoint_after:
  assumes inv: "group_inv g" and ne: "bg_slots g \<noteq> []" and n: "n < 2 ^ 64"
  shows "next_endpoint (group_after g n) = Some (group_after g (Suc n), Some (wrr_pick g n))"
proof -
  let ?g = "group_after g n" and ?b = "wrr_backend g n"
  have un: "unat (of_nat n :: u64) = n" using n by (simp add: unat_of_nat)
  have uv: "unat (of_nat (wrr_visits g b n) :: u64) = wrr_visits g b n" for b
    using n wrr_visits_le[of g b n] by (simp add: unat_of_nat)
  have b: "?b < length (bg_backends g)"
    using inv ne by (auto simp: group_inv_def wrr_backend_def)
  have slots [simp]: "bg_slots ?g = bg_slots g" "bg_slot_counter ?g = of_nat n"
    "bg_backends ?g ! ?b = (bg_backends g ! ?b)\<lparr>bp_rr := of_nat (wrr_visits g ?b n)\<rparr>"
    using b by (simp_all add: group_after_def nth_enumerate_eq)
  have upd: "?g\<lparr>bg_slot_counter := of_nat n + 1,
       bg_backends := (bg_backends ?g)[?b := (bg_backends ?g ! ?b)\<lparr>bp_rr := of_nat (wrr_visits g ?b n) + 1\<rparr>]\<rparr>
     = group_after g (Suc n)"
  proof -
    have "(bg_backends ?g)[?b := (bg_backends ?g ! ?b)\<lparr>bp_rr := of_nat (wrr_visits g ?b n) + 1\<rparr>] =
          bg_backends (group_after g (Suc n))"
      by (rule nth_equalityI)
         (use b in \<open>auto simp: group_after_def nth_list_update nth_enumerate_eq wrr_visits_Suc add.commute\<close>)
    then show ?thesis by (simp add: group_after_def add.commute)
  qed
  from group_after_inv[OF inv, of n] show ?thesis
  proof (cases rule: next_endpoint_inv)
    case (pick b' r g')
    have "b' = ?b" using pick(2) un by (simp add: wrr_backend_def)
    then show ?thesis
      using pick(4-6) upd uv by (simp add: next_endpoint_def wrr_pick_def Let_def)
  qed (use ne in simp)
qed

lemma run_picks_after:
  assumes "group_inv g" and "bg_slots g \<noteq> []" and "fresh_counters g" and "n \<le> 2 ^ 64"
  shows "run_picks n g = Some (group_after g n, map (wrr_pick g) [0..<n])"
  using assms(4)
proof (induction n)
  case (Suc n)
  then show ?case using next_endpoint_after[OF assms(1,2), of n] by simp
qed (simp add: group_after_0 assms(3))

lemma wrr_visits_cycles:
  assumes "bg_slots g \<noteq> []"
  shows "wrr_visits g b (m * length (bg_slots g)) =
           m * length (filter (\<lambda>s. unat s = b) (bg_slots g))"
proof (induction m)
  case (Suc m)
  let ?L = "length (bg_slots g)"
  have "[0..<Suc m * ?L] = [0..<m * ?L] @ map (\<lambda>j. j + m * ?L) [0..<?L]"
    using upt_add_eq_append[of 0 "m * ?L" ?L] by (simp add: map_add_upt add.commute)
  then have "wrr_visits g b (Suc m * ?L) = wrr_visits g b (m * ?L) +
      length (filter (\<lambda>j. wrr_backend g (j + m * ?L) = b) [0..<?L])"
    by (simp add: wrr_visits_def filter_map comp_def)
  also have "filter (\<lambda>j. wrr_backend g (j + m * ?L) = b) [0..<?L] =
             filter (\<lambda>j. unat (bg_slots g ! j) = b) [0..<?L]"
    by (rule filter_cong) (simp_all add: wrr_backend_def)
  also have "length \<dots> = length (filter (\<lambda>s. unat s = b) (map (\<lambda>j. bg_slots g ! j) [0..<?L]))"
    by (simp add: filter_map comp_def)
  also have "map (\<lambda>j. bg_slots g ! j) [0..<?L] = bg_slots g" by (rule map_nth)
  finally show ?case using Suc by simp
qed (simp add: wrr_visits_def)

lemma wrr_pick_in:
  assumes "group_inv g" "bg_slots g \<noteq> []"
  shows "wrr_pick g k \<in> set (bp_addrs (bg_backends g ! wrr_backend g k))"
    and "wrr_backend g k < length (bg_backends g)"
proof -
  show b: "wrr_backend g k < length (bg_backends g)"
    using assms by (auto simp: group_inv_def wrr_backend_def)
  then have "bp_addrs (bg_backends g ! wrr_backend g k) \<noteq> []" using assms(1) by (auto simp: group_inv_def)
  then show "wrr_pick g k \<in> set (bp_addrs (bg_backends g ! wrr_backend g k))"
    by (simp add: wrr_pick_def Let_def)
qed

lemma constructed_shape:
  assumes "weighted_with_endpoints name entries = Some g" and "live_pools entries \<noteq> []"
  shows "bg_backends g = map (\<lambda>p. \<lparr>bp_addrs = fst p, bp_rr = 0\<rparr>) (live_pools entries)"
    and "bg_slots g = slots_of (gcd_reduce (map snd (live_pools entries)))"
    and "fresh_counters g" and "bg_slots g \<noteq> []"
proof -
  have "\<forall>p\<in>set (live_pools entries). fst p \<noteq> []" using live_pools_ok by blast
  note eq = from_pools_Some[OF assms(2) this]
  show bg: "bg_backends g = map (\<lambda>p. \<lparr>bp_addrs = fst p, bp_rr = 0\<rparr>) (live_pools entries)"
    "bg_slots g = slots_of (gcd_reduce (map snd (live_pools entries)))"
    using assms(1) by (auto simp: weighted_with_endpoints_eq eq)
  show "fresh_counters g"
    using assms(1) by (auto simp: weighted_with_endpoints_eq eq fresh_counters_def empty_with_spec_def)
  show "bg_slots g \<noteq> []" using constructed_inv[OF assms(1)] bg(1) assms(2) by (simp add: group_inv_def)
qed

lemma cycle_count:
  assumes g: "weighted_with_endpoints name entries = Some g"
    and pools: "pools = live_pools entries"
    and i: "i < length pools" and few: "length pools \<le> 2 ^ 16"
    and disjoint: "\<forall>j<length pools. j \<noteq> i \<longrightarrow> set (fst (pools ! i)) \<inter> set (fst (pools ! j)) = {}"
    and m: "m * length (bg_slots g) \<le> 2 ^ 64"
  shows "\<exists>g' as. run_picks (m * length (bg_slots g)) g = Some (g', as) \<and>
           length (filter (\<lambda>a. a \<in> set (fst (pools ! i))) as) =
             m * (unat (snd (pools ! i)) div weight_gcd (map snd pools))"
proof -
  have ne: "live_pools entries \<noteq> []" using i pools by auto
  note shape = constructed_shape[OF g ne]
  note inv = constructed_inv[OF g]
  let ?L = "length (bg_slots g)"
  have "wrr_pick g k \<in> set (fst (pools ! i)) \<longleftrightarrow> wrr_backend g k = i" for k
    using wrr_pick_in[OF inv shape(4), of k] disjoint pools i by (auto simp: shape(1))
  then have "length (filter (\<lambda>a. a \<in> set (fst (pools ! i))) (map (wrr_pick g) [0..<m * ?L])) =
      wrr_visits g i (m * ?L)"
    by (simp add: wrr_visits_def filter_map comp_def)
  also have "\<dots> = m * length (filter (\<lambda>s. unat s = i) (bg_slots g))"
    by (rule wrr_visits_cycles) (fact shape(4))
  also have "length (filter (\<lambda>s. unat s = i) (bg_slots g)) = unat (gcd_reduce (map snd pools) ! i)"
    unfolding shape(2) pools by (rule count_slots_of) (use i few pools in simp_all)
  also have "\<dots> = map unat (gcd_reduce (map snd pools)) ! i" using i by simp
  also have "\<dots> = unat (snd (pools ! i)) div weight_gcd (map snd pools)"
    unfolding gcd_reduce_exact using i by simp
  finally show ?thesis using run_picks_after[OF inv shape(4,3) m] by simp
qed

section \<open>In-flight accounting\<close>

text \<open>
  A least-connections group together with the tracks of the selections that are neither
  released nor completed.
\<close>

inductive in_flight :: "'f backend_group \<Rightarrow> u32 list \<Rightarrow> bool" where
  start: "group_reachable g \<Longrightarrow> in_flight (with_load_balance LeastConn g) []"
| select: "in_flight g outs \<Longrightarrow> select_upstream g key = Some (g', Some s) \<Longrightarrow> sel_track s = Some i \<Longrightarrow>
           in_flight g' (i # outs)"
| release: "in_flight g outs \<Longrightarrow> i \<in> set outs \<Longrightarrow> in_flight (release i g) (remove1 i outs)"
| complete: "in_flight g outs \<Longrightarrow> i \<in> set outs \<Longrightarrow> in_flight (complete i d g) (remove1 i outs)"

lemma in_flight_reachable: "in_flight g outs \<Longrightarrow> group_reachable g"
  by (induction rule: in_flight.induct) (auto intro: group_reachable.intros)

definition counts_agree :: "lb_endpoint list \<Rightarrow> u32 list \<Rightarrow> bool" where
  "counts_agree eps outs \<longleftrightarrow>
     (\<forall>j<length eps. le_active (eps ! j) = of_nat (count_list outs (of_nat j)))"

lemma unat_of_nat_u32: "i < 2 ^ 32 \<Longrightarrow> unat (of_nat i :: u32) = i"
  by (simp add: unat_of_nat)

lemma of_nat_u32_inj:
  assumes "i < 2 ^ 32" "j < 2 ^ 32"
  shows "(of_nat i :: u32) = of_nat j \<longleftrightarrow> i = j"
  using unat_of_nat_u32[OF assms(1)] unat_of_nat_u32[OF assms(2)] by metis

lemma of_nat_u32_eq: "j < 2 ^ 32 \<Longrightarrow> (of_nat j :: u32) = i \<longleftrightarrow> j = unat i"
  using unat_of_nat_u32[of j] by (metis of_nat_unat ucast_id)

lemma select_least_conn:
  assumes "bg_load_balance g = LeastConn" and "bg_lb_endpoints g = Some eps"
    and "select_upstream g key = Some (g', Some s)"
  obtains i where "i < length eps" "\<forall>j<length eps. le_active (eps ! i) \<le> le_active (eps ! j)"
    "sel_addr s = le_addr (eps ! i)" "sel_track s = Some (of_nat i)"
    "g' = g\<lparr>bg_lb_endpoints := Some (eps[i := (eps ! i)\<lparr>le_active := le_active (eps ! i) + 1\<rparr>])\<rparr>"
proof (cases "min_by_key (\<lambda>(_, e). le_active e) (enumerate 0 eps)")
  case None
  then show ?thesis using assms by (simp add: select_upstream_def)
next
  case (Some ie)
  obtain i e where ie: "ie = (i, e)" by force
  show ?thesis
    by (rule that[of i]) (use assms Some min_by_key_enumerate[of le_active eps i e] ie in
        \<open>auto simp: select_upstream_def select_tracked_def\<close>)
qed

lemma counts_agree_inc:
  assumes "counts_agree eps outs" "i < length eps" "length eps \<le> 2 ^ 32"
  shows "counts_agree (eps[i := (eps ! i)\<lparr>le_active := le_active (eps ! i) + 1\<rparr>]) (of_nat i # outs)"
  using assms of_nat_u32_inj[of i] by (auto simp: counts_agree_def nth_list_update)

lemma count_list_remove1:
  "i \<in> set outs \<Longrightarrow> count_list (remove1 i outs) x = count_list outs x - (if x = i then 1 else 0)"
  by (induction outs) (auto simp: count_list_0_iff)

lemma counts_agree_dec:
  assumes "counts_agree eps outs" "i \<in> set outs" "unat i < length eps" "length eps \<le> 2 ^ 32"
  shows "counts_agree (eps[unat i := (eps ! unat i)\<lparr>le_active := le_active (eps ! unat i) - 1\<rparr>])
           (remove1 i outs)"
proof -
  have "0 < count_list outs i" using assms(2) by (metis count_list_0_iff gr0I)
  then have "(of_nat (count_list outs i) :: u32) - 1 = of_nat (count_list outs i - 1)"
    by (simp add: of_nat_diff)
  moreover have "(of_nat j :: u32) = i \<longleftrightarrow> j = unat i" if "j < length eps" for j
    using that assms(4) by (intro of_nat_u32_eq) simp
  moreover have "(of_nat (unat i) :: u32) = i" by simp
  ultimately show ?thesis using assms(1-3) unfolding counts_agree_def
    by (simp add: nth_list_update count_list_remove1) (metis (no_types))
qed

lemma fresh_index_idle: "e \<in> set (pool_index mk_lb_endpoint bs) \<Longrightarrow> le_active e = 0"
  by (auto simp: pool_index_def mk_lb_endpoint_def)

lemma in_flight_least_conn: "in_flight g outs \<Longrightarrow> bg_load_balance g = LeastConn"
proof (induction rule: in_flight.induct)
  case (select g outs key g' s i)
  then show ?case
    by (cases "bg_lb_endpoints g") (auto simp: select_upstream_def split: option.splits)
qed (auto simp: with_load_balance_def Let_def release_def complete_def dec_active_def
    split: option.split load_balance.split)

lemma in_flight_done:
  assumes IH: "\<And>eps. bg_lb_endpoints g = Some eps \<Longrightarrow> length eps \<le> 2 ^ 32 \<Longrightarrow>
      counts_agree eps outs \<and> (\<forall>i\<in>set outs. unat i < length eps)"
    and lb: "bg_lb_endpoints g = Some eps0" and i: "i \<in> set outs" "unat i < length eps0"
    and eps: "bg_lb_endpoints (dec_active g eps0 (unat i)) = Some eps" "length eps \<le> 2 ^ 32"
  shows "counts_agree eps (remove1 i outs) \<and> (\<forall>i\<in>set (remove1 i outs). unat i < length eps)"
proof -
  have e: "eps = eps0[unat i := (eps0 ! unat i)\<lparr>le_active := le_active (eps0 ! unat i) - 1\<rparr>]"
    using eps(1) by (simp add: dec_active_def)
  then have "counts_agree eps0 outs \<and> (\<forall>i\<in>set outs. unat i < length eps0)" "length eps0 \<le> 2 ^ 32"
    using IH[OF lb] eps(2) by simp_all
  then show ?thesis using counts_agree_dec[of eps0 outs i] i e by (auto dest: notin_set_remove1)
qed

lemma in_flight_counts:
  assumes "in_flight g outs" "bg_lb_endpoints g = Some eps" "length eps \<le> 2 ^ 32"
  shows "counts_agree eps outs \<and> (\<forall>i\<in>set outs. unat i < length eps)"
  using assms
proof (induction arbitrary: eps rule: in_flight.induct)
  case (start g)
  then show ?case
    using fresh_index_idle[of _ "bg_backends g"]
    by (simp add: with_load_balance_def Let_def counts_agree_def split: if_splits)
next
  case (select g outs key g' s i)
  note lb = in_flight_least_conn[OF select.hyps(1)]
  show ?case
  proof (cases "bg_lb_endpoints g")
    case None
    then show ?thesis using select.hyps(2) lb by (simp add: select_upstream_def)
  next
    case (Some eps0)
    obtain k where k: "k < length eps0" "sel_track s = Some (of_nat k)"
      "g' = g\<lparr>bg_lb_endpoints := Some (eps0[k := (eps0 ! k)\<lparr>le_active := le_active (eps0 ! k) + 1\<rparr>])\<rparr>"
      using select_least_conn[OF lb Some select.hyps(2)] by metis
    then show ?thesis
      using select.IH[OF Some] select.prems select.hyps(3) counts_agree_inc[of eps0 outs k]
      by (auto simp: unat_of_nat_u32)
  qed
next
  case (release g outs i)
  then obtain eps0 where eps0: "bg_lb_endpoints g = Some eps0"
    by (cases "bg_lb_endpoints g") (auto simp: release_def)
  have len: "length eps0 \<le> 2 ^ 32"
    using release.prems eps0 by (auto simp: release_def dec_active_def split: if_splits)
  then have i: "unat i < length eps0" using release.IH[OF eps0] release.hyps(2) by blast
  then have "release i g = dec_active g eps0 (unat i)"
    using in_flight_least_conn[OF release.hyps(1)] eps0 by (simp add: release_def)
  then show ?case using in_flight_done[OF release.IH eps0 release.hyps(2) i] release.prems by simp
next
  case (complete g outs i d)
  then obtain eps0 where eps0: "bg_lb_endpoints g = Some eps0"
    by (cases "bg_lb_endpoints g") (auto simp: complete_def)
  note lb = in_flight_least_conn[OF complete.hyps(1)]
  have len: "length eps0 \<le> 2 ^ 32"
    using complete.prems eps0 lb by (auto simp: complete_def dec_active_def split: option.splits)
  then have i: "unat i < length eps0" using complete.IH[OF eps0] complete.hyps(2) by blast
  then have "complete i d g = dec_active g eps0 (unat i)"
    using lb eps0 by (simp add: complete_def nth_opt_def)
  then show ?case using in_flight_done[OF complete.IH eps0 complete.hyps(2) i] complete.prems by simp
qed

lemma constructed_snapshot:
  "weighted_with_endpoints name entries = Some g \<Longrightarrow>
     bg_addrs_snapshot g = concat (map fst (live_pools entries))"
  by (metis option.inject weighted_with_endpoints_inv)

lemma constructed_total: "weighted_with_endpoints name entries \<noteq> None"
  by (metis option.distinct(1) weighted_with_endpoints_inv)

lemma least_loaded:
  assumes fl: "in_flight g outs" and few: "length outs < 2 ^ 32"
    and len: "length (bg_addrs_snapshot g) \<le> 2 ^ 32"
    and sel: "select_upstream g key = Some (g', Some s)"
  shows "\<exists>i<length (bg_addrs_snapshot g). sel_addr s = bg_addrs_snapshot g ! i \<and>
           sel_track s = Some (of_nat i) \<and>
           (\<forall>j<length (bg_addrs_snapshot g).
              count_list outs (of_nat i) \<le> count_list outs (of_nat j))"
proof -
  note lb = in_flight_least_conn[OF fl]
  note inv = group_reachable_inv[OF in_flight_reachable[OF fl]]
  obtain eps where eps: "bg_lb_endpoints g = Some eps"
    using sel lb by (cases "bg_lb_endpoints g") (auto simp: select_upstream_def)
  note addrs = group_inv_eps(4)[OF inv eps]
  then have le: "length eps = length (bg_addrs_snapshot g)" by (metis length_map)
  have "count_list outs x < 2 ^ 32" for x
    using count_le_length[of outs x] few by linarith
  then have active: "unat (le_active (eps ! j)) = count_list outs (of_nat j)" if "j < length eps" for j
    using in_flight_counts[OF fl eps] len le that by (simp add: counts_agree_def unat_of_nat_u32)
  obtain i where i: "i < length eps" "\<forall>j<length eps. le_active (eps ! i) \<le> le_active (eps ! j)"
    "sel_addr s = le_addr (eps ! i)" "sel_track s = Some (of_nat i)"
    using select_least_conn[OF lb eps sel] by metis
  have "sel_addr s = bg_addrs_snapshot g ! i" using i(1,3) unfolding addrs[symmetric] by simp
  moreover have "\<forall>j<length eps. count_list outs (of_nat i) \<le> count_list outs (of_nat j)"
    using i(1,2) active by (simp add: word_le_nat_alt)
  ultimately show ?thesis using i(1,4) le by auto
qed

section \<open>Rendezvous hashing, cookie tokens and latency averages\<close>

lemma affinity_index:
  assumes "group_reachable g" "bg_session_affinity g \<noteq> None"
  shows "bg_affinity_endpoints g = Some (pool_index mk_affinity_endpoint (bg_backends g))"
    and "bg_addrs_snapshot g = concat (map bp_addrs (bg_backends g))"
  using group_reachable_inv[OF assms(1)] assms(2)
  by (auto simp: group_inv_def)

lemma endpoint_by_hash_owner:
  assumes "group_reachable g" "bg_session_affinity g \<noteq> None"
  shows "map_option fst (endpoint_by_hash g k) =
           max_by_key (\<lambda>a. rendezvous_score k (affinity_token a)) (bg_addrs_snapshot g)"
  using affinity_ix.rendezvous_owner[of k "bg_backends g"] affinity_index[OF assms]
  by (simp add: endpoint_by_hash_def option.map_comp comp_def)

lemma select_hash_owner:
  assumes "group_reachable g" "bg_load_balance g = Hash src" "bg_addrs_snapshot g \<noteq> []"
  shows "\<exists>s. select_upstream g (Some k) = Some (g, Some s) \<and>
           Some (sel_addr s) = max_by_key (\<lambda>a. rendezvous_score k (affinity_token a)) (bg_addrs_snapshot g)"
proof -
  note inv = group_reachable_inv[OF assms(1)]
  obtain eps where eps: "bg_lb_endpoints g = Some eps"
    using inv assms(2,3) snapshot_Nil_iff[OF inv] by (cases "bg_lb_endpoints g") (auto simp: group_inv_def)
  note ix = group_inv_eps[OF inv eps]
  have "max_by_key (\<lambda>e. rendezvous_score k (le_token e)) eps =
        max_by_key ((\<lambda>a. rendezvous_score k (affinity_token a)) \<circ> le_addr) eps"
    by (rule max_by_key_cong) (auto elim: eps_index[OF inv eps])
  then have "map_option le_addr (max_by_key (\<lambda>e. rendezvous_score k (le_token e)) eps) =
        max_by_key (\<lambda>a. rendezvous_score k (affinity_token a)) (bg_addrs_snapshot g)"
    by (simp add: max_by_key_map flip: ix(4))
  then show ?thesis using assms(2) eps ix(3)
    by (cases "max_by_key (\<lambda>e. rendezvous_score k (le_token e)) eps") (auto simp: select_upstream_def)
qed

lemma endpoint_by_token_find:
  assumes "group_reachable g" "bg_session_affinity g \<noteq> None"
  shows "map_option fst (endpoint_by_token g t) = find (\<lambda>a. affinity_token a = t) (bg_addrs_snapshot g)"
proof -
  have find: "map_option ae_addr (find (\<lambda>e. ae_token e = t) xs) = find (\<lambda>a. affinity_token a = t) (map ae_addr xs)"
    if "\<forall>e\<in>set xs. ae_token e = affinity_token (ae_addr e)" for xs
    using that by (induction xs) auto
  have "\<forall>e\<in>set (pool_index mk_affinity_endpoint (bg_backends g)). ae_token e = affinity_token (ae_addr e)"
    by (auto elim: affinity_ix.index_entry)
  note eq = find[OF this]
  show ?thesis
    using eq affinity_index[OF assms] affinity_ix.index_addrs[of "bg_backends g"]
    by (simp add: endpoint_by_token_def option.map_comp comp_def)
qed

lemma foldl_fnv_concat: "foldl (\<lambda>h p. foldl fnv_byte h p) h parts = foldl fnv_byte h (concat parts)"
  by (induction parts arbitrary: h) simp_all

lemma ewma_bounds_nat:
  fixes a b :: nat
  shows "min a b \<le> a - a div 8 + b div 8" "a - a div 8 + b div 8 \<le> max a b"
  by linarith+

lemma ewma_update_between:
  "min old sample \<le> ewma_update old sample \<and> ewma_update old sample \<le> max old sample"
proof -
  have u: "unat old < 2 ^ 64" "unat sample < 2 ^ 64" using unsigned_less[of old] unsigned_less[of sample] by simp_all
  have "unat old - unat old div 8 + unat sample div 8 < 2 ^ 64"
    using u ewma_bounds_nat(2)[of "unat old" "unat sample"] by linarith
  then have "old \<noteq> 0 \<Longrightarrow> unat (ewma_update old sample) = unat old - unat old div 8 + unat sample div 8"
    by (simp add: ewma_update_def unat_saturating_add unat_saturating_sub unat_div_distrib)
  then show ?thesis using ewma_bounds_nat[of "unat old" "unat sample"]
    by (cases "old = 0") (auto simp: ewma_update_def word_le_nat_alt min_def max_def split: if_splits)
qed

section \<open>A concrete group\<close>

definition sample_entries :: "(resolved_endpoints \<times> endpoint_key option \<times> u16) list" where
  "sample_entries =
     [(resolved_endpoints_new [SocketAddrV4 1 80, SocketAddrV4 2 80] Http1 True, None, 4),
      (resolved_endpoints_new [SocketAddrV4 3 80] Http1 True, None, 2)]"

definition sample_group :: "nat backend_group" where
  "sample_group = the (weighted_with_endpoints ''web'' sample_entries)"

lemma sample_group_built: "weighted_with_endpoints ''web'' sample_entries = Some sample_group"
  unfolding sample_group_def by (rule option.collapse[OF constructed_total, symmetric])

lemma sample_live: "live_pools sample_entries =
    [([SocketAddrV4 1 80, SocketAddrV4 2 80], 4), ([SocketAddrV4 3 80], 2)]"
  by (simp add: live_pools_def sample_entries_def resolved_endpoints_new_def)

lemma sample_snapshot: "bg_addrs_snapshot sample_group = [SocketAddrV4 1 80, SocketAddrV4 2 80, SocketAddrV4 3 80]"
  using constructed_snapshot[OF sample_group_built] by (simp add: sample_live)

lemma sample_slots: "bg_slots sample_group = [0, 0, 1]"
proof -
  have "slots_of (gcd_reduce [4, 2]) = [0, 0, 1]" by code_simp
  then show ?thesis using constructed_shape(2)[OF sample_group_built] by (simp add: sample_live)
qed

lemma sample_reachable: "group_reachable sample_group"
  using sample_group_built by (rule group_reachable.construct)

lemma sample_affinity_reachable:
  "group_reachable (with_session_affinity (Some (HeaderAffinity ''x-user'')) sample_group)"
  by (rule group_reachable.affinity) (rule sample_reachable)

section \<open>Properties\<close>

text \<open>
  a group built by its constructor and used through builders, selections, releases and
  completions never panics on a selection; the selection is empty exactly when the group has no
  endpoint, and otherwise names an address of the group with the filters of a backend that
  holds it.
\<close>

theorem backend_selection_total:
  assumes "group_reachable g"
  shows "\<exists>g' r. select_upstream g key = Some (g', r) \<and> (r = None \<longleftrightarrow> bg_addrs_snapshot g = []) \<and>
           (\<forall>s. r = Some s \<longrightarrow> selection_ok g s)"
  using select_upstream_ok[OF group_reachable_inv[OF assms], of key] by blast

theorem backend_selection_total_witness:
  "group_reachable sample_group \<and>
   (\<exists>g' r. select_upstream sample_group None = Some (g', r) \<and> r \<noteq> None)"
  using backend_selection_total[OF sample_reachable, of None] sample_snapshot sample_reachable by auto

text \<open>
  C32: the atomic counters of the two-level round-robin implement the schedule that sends pick
  \<open>k\<close> to the backend of slot \<open>k\<close> modulo the slot count and, within it, to its next pod.
\<close>

theorem round_robin_refines_schedule:
  assumes "weighted_with_endpoints name entries = Some g" and "live_pools entries \<noteq> []" and "n \<le> 2 ^ 64"
  shows "\<exists>g'. run_picks n g = Some (g', map (wrr_pick g) [0..<n])"
  using run_picks_after[OF constructed_inv[OF assms(1)] constructed_shape(4,3)[OF assms(1,2)] assms(3)]
  by blast

theorem round_robin_refines_schedule_witness:
  "weighted_with_endpoints ''web'' sample_entries = Some sample_group \<and> live_pools sample_entries \<noteq> [] \<and>
   (\<exists>g'. run_picks 4 sample_group = Some (g', map (wrr_pick sample_group) [0..<4]))"
  using round_robin_refines_schedule[OF sample_group_built, of 4] sample_group_built
  by (simp add: sample_live)

text \<open>
  C6: over any number of full cycles the pods of backend \<open>i\<close> receive exactly their weight's
  share: \<open>m\<close> cycles send it \<open>m\<close> times its weight divided by the common divisor of all weights.
\<close>

theorem weighted_round_robin_exact:
  assumes "weighted_with_endpoints name entries = Some g"
    and "pools = live_pools entries"
    and "i < length pools" and "length pools \<le> 2 ^ 16"
    and "\<forall>j<length pools. j \<noteq> i \<longrightarrow> set (fst (pools ! i)) \<inter> set (fst (pools ! j)) = {}"
    and "m * length (bg_slots g) \<le> 2 ^ 64"
  shows "\<exists>g' as. run_picks (m * length (bg_slots g)) g = Some (g', as) \<and>
           length (filter (\<lambda>a. a \<in> set (fst (pools ! i))) as) =
             m * (unat (snd (pools ! i)) div weight_gcd (map snd pools))"
  using assms by (rule cycle_count)

theorem weighted_round_robin_exact_witness:
  "\<exists>g' as. run_picks (5 * length (bg_slots sample_group)) sample_group = Some (g', as) \<and>
     length (filter (\<lambda>a. a \<in> {SocketAddrV4 1 80, SocketAddrV4 2 80}) as) =
       5 * (4 div weight_gcd [4, 2])"
  using weighted_round_robin_exact[OF sample_group_built sample_live[symmetric], of 0 5]
  by (simp add: sample_slots less_Suc_eq)

text \<open>
  a least-connections selection goes to an endpoint with the fewest selections that are
  neither released nor completed.
\<close>

theorem least_conn_selects_least_loaded:
  assumes "in_flight g outs" and "length outs < 2 ^ 32" and "length (bg_addrs_snapshot g) \<le> 2 ^ 32"
    and "select_upstream g key = Some (g', Some s)"
  shows "\<exists>i<length (bg_addrs_snapshot g). sel_addr s = bg_addrs_snapshot g ! i \<and>
           sel_track s = Some (of_nat i) \<and>
           (\<forall>j<length (bg_addrs_snapshot g).
              count_list outs (of_nat i) \<le> count_list outs (of_nat j))"
  using assms by (rule least_loaded)

theorem least_conn_selects_least_loaded_witness:
  "\<exists>s i. snd (the (select_upstream (with_load_balance LeastConn sample_group) None)) = Some s \<and>
     i < 3 \<and> sel_addr s = bg_addrs_snapshot sample_group ! i"
proof -
  let ?g = "with_load_balance LeastConn sample_group"
  have snap: "bg_addrs_snapshot ?g = bg_addrs_snapshot sample_group"
    by (simp add: with_load_balance_def Let_def)
  have "group_inv ?g" by (rule with_load_balance_inv) (rule group_reachable_inv[OF sample_reachable])
  then obtain g' s where s: "select_upstream ?g None = Some (g', Some s)"
    using select_upstream_ok[of ?g None] snap sample_snapshot by auto
  then show ?thesis
    using least_conn_selects_least_loaded[OF in_flight.start[OF sample_reachable], of None g' s]
    by (auto simp: snap sample_snapshot numeral_3_eq_3)
qed

text \<open>
  C38: removing endpoints re-maps only the affinity keys whose endpoint was removed; a key whose
  endpoint survives keeps it.
\<close>

theorem rendezvous_minimal_disruption:
  assumes "group_reachable g" and "bg_session_affinity g \<noteq> None"
    and "group_reachable g'" and "bg_session_affinity g' \<noteq> None"
    and "bg_addrs_snapshot g' = filter P (bg_addrs_snapshot g)"
    and "endpoint_by_hash g k = Some (a, fs)" and "P a"
  shows "\<exists>fs'. endpoint_by_hash g' k = Some (a, fs')"
proof -
  have "max_by_key (\<lambda>a. rendezvous_score k (affinity_token a)) (bg_addrs_snapshot g) = Some a"
    using endpoint_by_hash_owner[OF assms(1,2), of k] assms(6) by simp
  then have "map_option fst (endpoint_by_hash g' k) = Some a"
    unfolding endpoint_by_hash_owner[OF assms(3,4)] assms(5) using assms(7) by (rule max_by_key_filter)
  then show ?thesis by auto
qed

lemma sample_owner:
  "max_by_key (\<lambda>a. rendezvous_score 7 (affinity_token a)) (bg_addrs_snapshot sample_group) =
     Some (SocketAddrV4 1 80)"
  unfolding sample_snapshot by code_simp

definition shrunk_group :: "nat backend_group" where
  "shrunk_group = the (weighted_with_endpoints ''web''
     [(resolved_endpoints_new [SocketAddrV4 1 80] Http1 True, None, 1),
      (resolved_endpoints_new [SocketAddrV4 3 80] Http1 True, None, 2)])"

lemma shrunk_reachable: "group_reachable shrunk_group"
  unfolding shrunk_group_def
  by (rule group_reachable.construct) (rule option.collapse[OF constructed_total, symmetric])

lemma shrunk_snapshot: "bg_addrs_snapshot shrunk_group = [SocketAddrV4 1 80, SocketAddrV4 3 80]"
  unfolding shrunk_group_def
  by (subst constructed_snapshot[OF option.collapse[OF constructed_total, symmetric]])
     (simp add: live_pools_def resolved_endpoints_new_def)

theorem rendezvous_minimal_disruption_witness:
  "\<exists>fs fs'.
     endpoint_by_hash (with_session_affinity (Some (HeaderAffinity ''x-user'')) sample_group) 7 =
       Some (SocketAddrV4 1 80, fs) \<and>
     endpoint_by_hash (with_session_affinity (Some (HeaderAffinity ''x-user'')) shrunk_group) 7 =
       Some (SocketAddrV4 1 80, fs')"
proof -
  let ?g = "with_session_affinity (Some (HeaderAffinity ''x-user'')) sample_group"
  let ?g' = "with_session_affinity (Some (HeaderAffinity ''x-user'')) shrunk_group"
  have r: "group_reachable ?g" "group_reachable ?g'"
    by (rule group_reachable.affinity, rule sample_reachable shrunk_reachable)+
  have a: "bg_session_affinity ?g \<noteq> None" "bg_session_affinity ?g' \<noteq> None"
    "bg_addrs_snapshot ?g = bg_addrs_snapshot sample_group"
    "bg_addrs_snapshot ?g' = bg_addrs_snapshot shrunk_group"
    by (simp_all add: with_session_affinity_def)
  have f: "bg_addrs_snapshot ?g' = filter (\<lambda>a. a \<noteq> SocketAddrV4 2 80) (bg_addrs_snapshot ?g)"
    unfolding a sample_snapshot shrunk_snapshot by simp
  obtain fs where fs: "endpoint_by_hash ?g 7 = Some (SocketAddrV4 1 80, fs)"
    using endpoint_by_hash_owner[OF r(1) a(1), of 7] sample_owner a(3) by auto
  then show ?thesis
    using rendezvous_minimal_disruption[OF r(1) a(1) r(2) a(2) f fs] by auto
qed

text \<open>
  a cookie minted for a live endpoint resolves to an endpoint with the same token, and a
  token that belongs to no live endpoint resolves to none.
\<close>

theorem cookie_token_round_trip:
  assumes "group_reachable g" and "bg_session_affinity g \<noteq> None"
  shows "(\<exists>fs a. endpoint_by_token g t = Some (a, fs) \<and> a \<in> set (bg_addrs_snapshot g) \<and> affinity_token a = t) \<or>
         endpoint_by_token g t = None \<and> t \<notin> affinity_token ` set (bg_addrs_snapshot g)"
  using endpoint_by_token_find[OF assms, of t]
  by (cases "endpoint_by_token g t") (auto simp: find_None_iff dest!: find_SomeD[OF sym] sym[of None])

theorem cookie_token_round_trip_witness:
  "\<exists>fs a. endpoint_by_token (with_session_affinity (Some (CookieAffinity ''s'')) sample_group)
       (affinity_token (SocketAddrV4 3 80)) = Some (a, fs)"
  using cookie_token_round_trip[OF group_reachable.affinity[OF sample_reachable],
      of "Some (CookieAffinity ''s'')" "affinity_token (SocketAddrV4 3 80)"]
  by (auto simp: with_session_affinity_def sample_snapshot)

text \<open>
  a completed request moves the latency estimate to a value between the old estimate and
  the sample; the saturating operations never saturate.
\<close>

theorem ewma_between:
  "min old sample \<le> ewma_update old sample \<and> ewma_update old sample \<le> max old sample"
  by (rule ewma_update_between)

text \<open>
  hashing a key in parts gives the hash of the joined key, so no buffer has to be built.
\<close>

theorem affinity_hash_parts_concat: "affinity_hash_parts parts = affinity_hash (concat parts)"
  by (simp add: affinity_hash_def affinity_hash_parts_def foldl_fnv_concat)

end
