(* ===== verification/Filters.thy ===== *)
theory Filters
  imports Backend
begin

text \<open>
  Filter actions (\<open>crates/coxswain-core/src/routing/common/filters.rs\<close>) and match predicates
  (\<open>predicate.rs\<close>).  A compiled regular expression is represented by its pattern; matching
  and capture expansion belong to the \<open>regex\<close> crate and are parameters, as are the header
  parsers of \<open>http\<close> and the query parser of \<open>form_urlencoded\<close>.  A header map is the list of
  its (lower-case name, value) pairs in order.  The backend of a mirror is a type parameter.
\<close>

section \<open>Filters\<close>

datatype path_modifier =
    ReplaceFullPath string
  | ReplacePrefixMatch string string
  | RegexReplace string string

definition path_modifier_apply ::
  "(string \<Rightarrow> string \<Rightarrow> string \<Rightarrow> string option) \<Rightarrow> path_modifier \<Rightarrow> string \<Rightarrow> string" where
  "path_modifier_apply regex_expand pm path =
     (case pm of
        ReplaceFullPath p \<Rightarrow> p
      | ReplacePrefixMatch prefix replacement \<Rightarrow>
          (let prefix_trimmed = trim_end_matches (CHR ''/'') prefix in
           if path = prefix_trimmed \<or> starts_with path prefix_trimmed then
             (let suffix = drop (length prefix_trimmed) path;
                  rep = trim_end_matches (CHR ''/'') replacement
              in if suffix = [] \<or> suffix = ''/'' then (if rep = [] then ''/'' else rep)
                 else rep @ suffix)
           else path)
      | RegexReplace regex replacement \<Rightarrow>
          (case regex_expand regex replacement path of Some out \<Rightarrow> out | None \<Rightarrow> path))"

datatype header_mod_error = InvalidName string | InvalidValue string

record header_mod =
  hm_add :: "(string \<times> string) list"
  hm_set :: "(string \<times> string) list"
  hm_remove :: "string list"

definition parse_pair ::
  "(string \<Rightarrow> string option) \<Rightarrow> (string \<Rightarrow> string option) \<Rightarrow> string \<times> string
     \<Rightarrow> header_mod_error + string \<times> string" where
  "parse_pair name_from value_from nv =
     (case name_from (fst nv) of
        None \<Rightarrow> Inl (InvalidName (fst nv))
      | Some n \<Rightarrow>
          (case value_from (snd nv) of None \<Rightarrow> Inl (InvalidValue (fst nv)) | Some v \<Rightarrow> Inr (n, v)))"

definition parse_name :: "(string \<Rightarrow> string option) \<Rightarrow> string \<Rightarrow> header_mod_error + string" where
  "parse_name name_from name =
     (case name_from name of None \<Rightarrow> Inl (InvalidName name) | Some n \<Rightarrow> Inr n)"

definition header_mod_parse ::
  "(string \<Rightarrow> string option) \<Rightarrow> (string \<Rightarrow> string option) \<Rightarrow> (string \<times> string) list
     \<Rightarrow> (string \<times> string) list \<Rightarrow> string list \<Rightarrow> header_mod_error + header_mod" where
  "header_mod_parse name_from value_from add set_list remove =
     (case collect_results (map (parse_pair name_from value_from) add) of
        Inl e \<Rightarrow> Inl e
      | Inr a \<Rightarrow>
          (case collect_results (map (parse_pair name_from value_from) set_list) of
             Inl e \<Rightarrow> Inl e
           | Inr s \<Rightarrow>
               (case collect_results (map (parse_name name_from) remove) of
                  Inl e \<Rightarrow> Inl e
                | Inr r \<Rightarrow> Inr \<lparr>hm_add = a, hm_set = s, hm_remove = r\<rparr>)))"

datatype cors_origin = ExactOrigin string | WildcardOrigin string string

definition cors_origin_matches :: "cors_origin \<Rightarrow> string \<Rightarrow> bool" where
  "cors_origin_matches org request_origin =
     (case org of
        ExactOrigin s \<Rightarrow> eq_ignore_ascii_case request_origin s
      | WildcardOrigin prefix suffix \<Rightarrow>
          (let lower = to_ascii_lowercase request_origin in
           starts_with lower prefix \<and> ends_with lower suffix))"

record cors_config =
  allow_origins :: "cors_origin list"
  allow_all_origins :: bool
  allow_credentials :: bool
  allow_methods :: "string option"
  allow_headers :: "string option"
  expose_headers :: "string option"
  max_age :: string

definition resolve_origin :: "(string \<Rightarrow> string option) \<Rightarrow> cors_config \<Rightarrow> string \<Rightarrow> string option" where
  "resolve_origin value_from c request_origin =
     (if allow_all_origins c \<or> list_ex (\<lambda>org. cors_origin_matches org request_origin) (allow_origins c)
      then value_from request_origin else None)"

record mirror_fraction =
  numerator :: u32
  denominator :: u32

definition mirror_fraction_new :: "u32 \<Rightarrow> u32 \<Rightarrow> mirror_fraction option" where
  "mirror_fraction_new n d =
     (if d = 0 \<or> n > d then None else Some \<lparr>numerator = n, denominator = d\<rparr>)"

definition should_sample :: "mirror_fraction \<Rightarrow> u32 \<Rightarrow> bool" where
  "should_sample f draw \<longleftrightarrow> draw mod denominator f < numerator f"

datatype 'b filter_action =
    RequestHeaderModifier header_mod
  | ResponseHeaderModifier header_mod
  | RequestRedirect "string option" "string option" "u16 option" u16 "path_modifier option"
  | UrlRewrite "string option" "path_modifier option"
  | Mirror 'b "mirror_fraction option"
  | Cors cors_config

section \<open>Predicates\<close>

datatype value_match = ExactValue string | RegexValue string

definition value_matches :: "(string \<Rightarrow> string \<Rightarrow> bool) \<Rightarrow> value_match \<Rightarrow> string \<Rightarrow> bool" where
  "value_matches regex_is_match vm v =
     (case vm of ExactValue s \<Rightarrow> s = v | RegexValue r \<Rightarrow> regex_is_match r v)"

record header_predicate =
  hp_name :: string
  hp_matcher :: value_match

record query_predicate =
  qp_name :: string
  qp_matcher :: value_match

record match_predicates =
  mp_method :: "string option"
  mp_headers :: "header_predicate list"
  mp_query :: "query_predicate list"

definition match_predicates_default :: match_predicates where
  "match_predicates_default = \<lparr>mp_method = None, mp_headers = [], mp_query = []\<rparr>"

record request_context =
  rc_method :: string
  rc_headers :: "(string \<times> string) list"
  rc_query :: "string option"

definition request_context_default :: request_context where
  "request_context_default = \<lparr>rc_method = ''GET'', rc_headers = [], rc_query = None\<rparr>"

definition get_all :: "(string \<times> string) list \<Rightarrow> string \<Rightarrow> string list" where
  "get_all hs name = map snd (filter (\<lambda>h. fst h = name) hs)"

definition predicates_is_empty :: "match_predicates \<Rightarrow> bool" where
  "predicates_is_empty p \<longleftrightarrow> mp_method p = None \<and> mp_headers p = [] \<and> mp_query p = []"

text \<open>The third-party functions the matcher calls.\<close>

record match_env =
  regex_is_match :: "string \<Rightarrow> string \<Rightarrow> bool"
  header_to_str :: "string \<Rightarrow> string option"
  query_parse :: "string \<Rightarrow> (string \<times> string) list"

fun headers_match :: "match_env \<Rightarrow> header_predicate list \<Rightarrow> request_context \<Rightarrow> bool" where
  "headers_match env [] ctx = True"
| "headers_match env (h # hs) ctx =
     (if \<not> list_ex (\<lambda>v. case header_to_str env v of
              Some s \<Rightarrow> value_matches (regex_is_match env) (hp_matcher h) s | None \<Rightarrow> False)
            (get_all (rc_headers ctx) (hp_name h))
      then False else headers_match env hs ctx)"

fun query_match :: "match_env \<Rightarrow> query_predicate list \<Rightarrow> (string \<times> string) list \<Rightarrow> bool" where
  "query_match env [] ps = True"
| "query_match env (q # qs) ps =
     (if \<not> list_ex (\<lambda>(k, v). k = qp_name q \<and> value_matches (regex_is_match env) (qp_matcher q) v) ps
      then False else query_match env qs ps)"

definition predicates_match :: "match_env \<Rightarrow> match_predicates \<Rightarrow> request_context \<Rightarrow> bool" where
  "predicates_match env p ctx =
     (if (case mp_method p of Some m \<Rightarrow> m \<noteq> rc_method ctx | None \<Rightarrow> False) then False
      else if \<not> headers_match env (mp_headers p) ctx then False
      else if mp_query p \<noteq> [] \<and>
        \<not> query_match env (mp_query p)
            (query_parse env (case rc_query ctx of Some q \<Rightarrow> q | None \<Rightarrow> []))
      then False
      else True)"

section \<open>Lemmas\<close>

lemma headers_match_iff:
  "headers_match env hs ctx \<longleftrightarrow>
     (\<forall>h\<in>set hs. \<exists>v\<in>set (get_all (rc_headers ctx) (hp_name h)). \<exists>s.
        header_to_str env v = Some s \<and> value_matches (regex_is_match env) (hp_matcher h) s)"
  by (induction hs) (auto simp: list_ex_iff split: option.splits)

lemma query_match_iff:
  "query_match env qs ps \<longleftrightarrow>
     (\<forall>q\<in>set qs. \<exists>v. (qp_name q, v) \<in> set ps \<and> value_matches (regex_is_match env) (qp_matcher q) v)"
  by (induction qs) (auto simp: list_ex_iff)

lemma empty_predicates_match: "predicates_is_empty p \<Longrightarrow> predicates_match env p ctx"
  by (simp add: predicates_is_empty_def predicates_match_def)

lemma path_covered_suffix:
  assumes "p = trim_end_matches (CHR ''/'') prefix" and "path = p @ s"
  shows "path_modifier_apply rx (ReplacePrefixMatch prefix r) path =
     (let rep = trim_end_matches (CHR ''/'') r in
      if s = [] \<or> s = ''/'' then (if rep = [] then ''/'' else rep) else rep @ s)"
  using assms by (simp add: path_modifier_apply_def starts_with_iff Let_def)

section \<open>Properties\<close>

text \<open>
  predicates are a conjunction: the method, every header predicate on some readable value
  of its header, and every query predicate on some pair of the parsed query.
\<close>

theorem predicates_match_iff:
  "predicates_match env p ctx \<longleftrightarrow>
     (case mp_method p of None \<Rightarrow> True | Some m \<Rightarrow> m = rc_method ctx) \<and>
     headers_match env (mp_headers p) ctx \<and>
     query_match env (mp_query p) (query_parse env (case rc_query ctx of Some q \<Rightarrow> q | None \<Rightarrow> []))"
  by (auto simp: predicates_match_def split: option.split)

text \<open>
  a prefix rewrite of a path its prefix covers (the prefix itself, or the prefix followed by
  a slash) replaces the prefix and keeps the rest; the result is again an absolute path, whatever
  trailing slashes the configured prefix and replacement carry.
\<close>

theorem prefix_rewrite_absolute:
  assumes "path = trim_end_matches (CHR ''/'') prefix @ s" and "s = [] \<or> hd s = CHR ''/''"
    and "r = [] \<or> hd r = CHR ''/''"
  shows "\<exists>t. path_modifier_apply rx (ReplacePrefixMatch prefix r) path = CHR ''/'' # t"
proof -
  have r: "trim_end_matches (CHR ''/'') r = [] \<or> hd (trim_end_matches (CHR ''/'') r) = CHR ''/''"
  proof (cases "trim_end_matches (CHR ''/'') r")
    case (Cons x xs)
    obtain n where "r = trim_end_matches (CHR ''/'') r @ replicate n (CHR ''/'')"
      using trim_end_matches_decomp[of r "CHR ''/''"] by blast
    then have "hd r = x" "r \<noteq> []" unfolding Cons by (metis append_Cons list.sel(1) list.distinct(1))+
    then show ?thesis using Cons assms(3) by simp
  qed simp
  then show ?thesis
    unfolding path_covered_suffix[OF refl assms(1)] using assms(2)
    by (cases s; cases "trim_end_matches (CHR ''/'') r") (auto simp: Let_def)
qed

theorem prefix_rewrite_absolute_witness:
  "(''/api/v1'' = trim_end_matches (CHR ''/'') ''/api/'' @ ''/v1'' \<and> hd ''/v1'' = CHR ''/'') \<and>
   (\<exists>t. path_modifier_apply (\<lambda>_ _ _. None) (ReplacePrefixMatch ''/api/'' ''/'') ''/api/v1'' = CHR ''/'' # t)"
  using prefix_rewrite_absolute[of "''/api/v1''" "''/api/''" "''/v1''" "''/''" "\<lambda>_ _ _. None"]
  by (simp add: trim_end_matches_def)

end
