(* ===== verification/Policy_Config.thy ===== *)
theory Policy_Config
  imports Cox_Prelude
begin

text \<open>
  The per-route policy configuration of
  \<open>crates/coxswain-core/src/routing/common/{circuit_breaker,compression,rate_limit,auth}.rs\<close>:
  immutable records with the source's fields, the media-type test of the compression policy
  and the resolution of the authentication header allow-lists.  Durations are nanoseconds; a
  \<open>NonZeroU32\<close> is its word.
\<close>

section \<open>Circuit breaker, rate limit and compression\<close>

record circuit_breaker_config =
  cb_threshold_pct :: u8
  cb_min_requests :: u32
  cb_window :: nat
  cb_open_duration :: nat
  cb_max_open_duration :: "nat option"

datatype rate_limit_key = ClientIp | HeaderKey string

record rate_limit_config =
  rl_requests_per_second :: u32
  rl_burst :: u32
  rl_key :: rate_limit_key

record compression_config =
  cc_gzip :: bool
  cc_brotli :: bool
  cc_level :: u32
  cc_min_size :: u64
  cc_types :: "string list"

definition allows_type :: "compression_config \<Rightarrow> string \<Rightarrow> bool" where
  "allows_type cfg content_type =
     (let media_type = trim_ascii (hd (split_on (CHR '';'') content_type)) in
      list_ex (\<lambda>t. eq_ignore_ascii_case t media_type) (cc_types cfg))"

section \<open>Authentication\<close>

definition DEFAULT_ALLOWED_HEADERS_HTTP :: "string list" where
  "DEFAULT_ALLOWED_HEADERS_HTTP = [''authorization'']"

definition DEFAULT_ALLOWED_HEADERS_GRPC :: "string list" where
  "DEFAULT_ALLOWED_HEADERS_GRPC =
     [''authorization'', ''location'', ''proxy-authenticate'', ''set-cookie'', ''www-authenticate'']"

definition resolve_allowed_headers :: "string list \<Rightarrow> string list \<Rightarrow> string list" where
  "resolve_allowed_headers raw dflt = (if raw = [] then dflt else map to_ascii_lowercase raw)"

record http_ext_auth_config =
  ha_allowed_headers :: "string list"
  ha_response_headers :: "string list"
  ha_always_set_cookie :: bool

record grpc_ext_auth_config =
  ga_allowed_headers :: "string list"
  ga_response_headers :: "string list"

datatype ext_auth_transport = HttpTransport http_ext_auth_config | GrpcTransport grpc_ext_auth_config

record ext_auth_config =
  ea_timeout :: nat
  ea_endpoints :: "socket_addr list"
  ea_fail_closed :: bool
  ea_transport :: ext_auth_transport

record jwt_header_loc =
  jh_name :: string
  jh_value_prefix :: string

record jwt_config =
  jwt_issuer :: string
  jwt_audiences :: "string list"
  jwt_jwks :: string
  jwt_from_headers :: "jwt_header_loc list"
  jwt_forward_payload_header :: "string option"
  jwt_claim_to_headers :: "(string \<times> string) list"
  jwt_forward_token :: bool

datatype password_hash = Bcrypt string | Sha1 string

record basic_credential =
  bc_username :: string
  bc_hash :: password_hash

datatype ingress_auth_config =
    External ext_auth_config
  | Basic "basic_credential list"
  | Jwt jwt_config
  | Unavailable

section \<open>Lemmas\<close>

text \<open>The allow-list never becomes empty, so a check is never sent without its headers.\<close>

lemma resolve_allowed_headers_nonempty: "dflt \<noteq> [] \<Longrightarrow> resolve_allowed_headers raw dflt \<noteq> []"
  by (simp add: resolve_allowed_headers_def)

lemma allows_type_ignores_parameters:
  assumes "CHR '';'' \<notin> set mt"
  shows "allows_type cfg (mt @ CHR '';'' # ps) = allows_type cfg mt"
  using assms by (simp add: allows_type_def split_on_append_sep split_on_no_sep)

end
