(* ===== verification/Route_Entry.thy ===== *)
theory Route_Entry
  imports Filters Policy_Config
begin

text \<open>
  Route entries (\<open>crates/coxswain-core/src/routing/common/entry.rs\<close>): the record a route
  builder fills in and the routing table carries, with its constructors and builders.  The
  creation time is nanoseconds relative to the Unix epoch; \<open>ipnet::IpNet\<close> is a type parameter.
\<close>

record route_timeouts =
  to_request :: "nat option"
  to_backend_request :: "nat option"
  to_connect :: "nat option"
  to_read :: "nat option"
  to_send :: "nat option"

definition route_timeouts_default :: route_timeouts where
  "route_timeouts_default =
     \<lparr>to_request = None, to_backend_request = None, to_connect = None, to_read = None, to_send = None\<rparr>"

datatype route_kind = ExactKind | PrefixKind | RegexKind

definition route_kind_as_str :: "route_kind \<Rightarrow> string" where
  "route_kind_as_str k =
     (case k of ExactKind \<Rightarrow> ''exact'' | PrefixKind \<Rightarrow> ''prefix'' | RegexKind \<Rightarrow> ''regex'')"

record 'b route_info =
  ri_path :: string
  ri_kind :: route_kind
  ri_backend_group :: "'b filter_action backend_group"
  ri_route_id :: string

record route_conflict =
  rcf_port :: u16
  rcf_host :: string
  rcf_path :: string
  rcf_kind :: route_kind
  rcf_rejected_group :: string
  rcf_rejected_route_id :: string
  rcf_winner_route_id :: string

record 'net forwarded_for_config =
  ff_header :: string
  ff_trusted_cidrs :: "'net list"

record ('b, 'net) route_entry =
  rt_backend_group :: "'b filter_action backend_group"
  rt_predicates :: match_predicates
  rt_filters :: "'b filter_action list"
  rt_timeouts :: route_timeouts
  rt_route_id :: string
  rt_metric_route_id :: string
  rt_created_at :: "int option"
  rt_error_status :: "u16 option"
  rt_error_status_endpoint_derived :: bool
  rt_path_pattern :: string
  rt_max_body_size :: "u64 option"
  rt_allow_source_range :: "'net list option"
  rt_deny_source_range :: "'net list option"
  rt_access_log_enabled :: "bool option"
  rt_rate_limit :: "rate_limit_config option"
  rt_auth :: "ingress_auth_config list"
  rt_compression :: "compression_config option"
  rt_forwarded_for :: "'net forwarded_for_config option"
  rt_circuit_breaker :: "circuit_breaker_config option"

section \<open>Constructors and builders\<close>

definition with_filters ::
  "'b filter_action backend_group \<Rightarrow> match_predicates \<Rightarrow> 'b filter_action list \<Rightarrow> route_timeouts
     \<Rightarrow> string \<Rightarrow> int option \<Rightarrow> ('b, 'net) route_entry" where
  "with_filters bg ps fs ts rid created =
     \<lparr>rt_backend_group = bg, rt_predicates = ps, rt_filters = fs, rt_timeouts = ts,
      rt_route_id = rid, rt_metric_route_id = [], rt_created_at = created, rt_error_status = None,
      rt_error_status_endpoint_derived = False, rt_path_pattern = [], rt_max_body_size = None,
      rt_allow_source_range = None, rt_deny_source_range = None, rt_access_log_enabled = None,
      rt_rate_limit = None, rt_auth = [], rt_compression = None, rt_forwarded_for = None,
      rt_circuit_breaker = None\<rparr>"

definition path_only ::
  "'b filter_action backend_group \<Rightarrow> string \<Rightarrow> int option \<Rightarrow> ('b, 'net) route_entry" where
  "path_only bg rid created =
     with_filters bg match_predicates_default [] route_timeouts_default rid created"

definition route_entry_new ::
  "'b filter_action backend_group \<Rightarrow> match_predicates \<Rightarrow> string \<Rightarrow> int option \<Rightarrow> ('b, 'net) route_entry" where
  "route_entry_new bg ps rid created = with_filters bg ps [] route_timeouts_default rid created"

definition redirect_only ::
  "match_predicates \<Rightarrow> 'b filter_action list \<Rightarrow> route_timeouts \<Rightarrow> string \<Rightarrow> int option
     \<Rightarrow> ('b, 'net) route_entry option" where
  "redirect_only ps fs ts rid created =
     map_option (\<lambda>bg. with_filters bg ps fs ts rid created) (backend_group_new [] [])"

definition is_redirect_only :: "('b, 'net) route_entry \<Rightarrow> bool" where
  "is_redirect_only e \<longleftrightarrow> bg_name (rt_backend_group e) = []"

definition with_path_pattern :: "string \<Rightarrow> ('b, 'net) route_entry \<Rightarrow> ('b, 'net) route_entry" where
  "with_path_pattern p e = e\<lparr>rt_path_pattern := p\<rparr>"

definition with_metric_route_id :: "string \<Rightarrow> ('b, 'net) route_entry \<Rightarrow> ('b, 'net) route_entry" where
  "with_metric_route_id i e = e\<lparr>rt_metric_route_id := i\<rparr>"

definition with_timeouts :: "route_timeouts \<Rightarrow> ('b, 'net) route_entry \<Rightarrow> ('b, 'net) route_entry" where
  "with_timeouts t e = e\<lparr>rt_timeouts := t\<rparr>"

definition with_filter_actions ::
  "'b filter_action list \<Rightarrow> ('b, 'net) route_entry \<Rightarrow> ('b, 'net) route_entry" where
  "with_filter_actions fs e = e\<lparr>rt_filters := fs\<rparr>"

definition with_max_body_size :: "u64 option \<Rightarrow> ('b, 'net) route_entry \<Rightarrow> ('b, 'net) route_entry" where
  "with_max_body_size n e = e\<lparr>rt_max_body_size := n\<rparr>"

definition with_allow_source_range ::
  "'net list option \<Rightarrow> ('b, 'net) route_entry \<Rightarrow> ('b, 'net) route_entry" where
  "with_allow_source_range r e = e\<lparr>rt_allow_source_range := r\<rparr>"

definition with_deny_source_range ::
  "'net list option \<Rightarrow> ('b, 'net) route_entry \<Rightarrow> ('b, 'net) route_entry" where
  "with_deny_source_range r e = e\<lparr>rt_deny_source_range := r\<rparr>"

definition with_access_log_enabled ::
  "bool option \<Rightarrow> ('b, 'net) route_entry \<Rightarrow> ('b, 'net) route_entry" where
  "with_access_log_enabled a e = e\<lparr>rt_access_log_enabled := a\<rparr>"

definition with_rate_limit ::
  "rate_limit_config option \<Rightarrow> ('b, 'net) route_entry \<Rightarrow> ('b, 'net) route_entry" where
  "with_rate_limit r e = e\<lparr>rt_rate_limit := r\<rparr>"

definition with_auth_chain ::
  "ingress_auth_config list \<Rightarrow> ('b, 'net) route_entry \<Rightarrow> ('b, 'net) route_entry" where
  "with_auth_chain a e = e\<lparr>rt_auth := a\<rparr>"

definition with_error_status :: "u16 option \<Rightarrow> ('b, 'net) route_entry \<Rightarrow> ('b, 'net) route_entry" where
  "with_error_status s e = e\<lparr>rt_error_status := s\<rparr>"

definition with_error_status_endpoint_derived ::
  "bool \<Rightarrow> ('b, 'net) route_entry \<Rightarrow> ('b, 'net) route_entry" where
  "with_error_status_endpoint_derived d e = e\<lparr>rt_error_status_endpoint_derived := d\<rparr>"

definition with_compression ::
  "compression_config option \<Rightarrow> ('b, 'net) route_entry \<Rightarrow> ('b, 'net) route_entry" where
  "with_compression c e = e\<lparr>rt_compression := c\<rparr>"

definition with_forwarded_for ::
  "'net forwarded_for_config option \<Rightarrow> ('b, 'net) route_entry \<Rightarrow> ('b, 'net) route_entry" where
  "with_forwarded_for f e = e\<lparr>rt_forwarded_for := f\<rparr>"

definition with_circuit_breaker ::
  "circuit_breaker_config option \<Rightarrow> ('b, 'net) route_entry \<Rightarrow> ('b, 'net) route_entry" where
  "with_circuit_breaker c e = e\<lparr>rt_circuit_breaker := c\<rparr>"

section \<open>Lemmas\<close>

lemma redirect_only_is_redirect_only:
  "\<exists>e. redirect_only ps fs ts rid created = Some e \<and> is_redirect_only e \<and> rt_filters e = fs"
  by (simp add: redirect_only_def backend_group_new_def weighted_with_endpoints_def from_pools_def
      resolved_endpoints_new_def empty_with_spec_def is_redirect_only_def with_filters_def)

end
