(* ===== verification/Path_Normalize.thy ===== *)
theory Path_Normalize
  imports Cox_Prelude
begin

text \<open>
  Request-path normalization: \<open>crates/coxswain-core/src/routing/common/path_normalize.rs\<close>.
  The definitions follow the file: the pre-scan \<open>needs_slow_path\<close>, the level-gated pipeline
  \<open>run_normalization\<close>, its five primitives, and \<open>NormalizeLevel::apply\<close> on top.  The source
  copies one UTF-8 character at a time; a continuation byte is never \<open>%\<close>, so copying byte by
  byte gives the same output.  The lemmas relate dot-segment removal to a stack of path
  segments, show that the pre-scan only skips work that would change nothing, and show what
  a normalized path cannot contain.
\<close>

section \<open>Definitions\<close>

unbundle bit_operations_syntax

abbreviation (input) slash :: char where "slash \<equiv> CHR ''/''"
abbreviation (input) backslash :: char where "backslash \<equiv> CHR 0x5C"
abbreviation (input) percent :: char where "percent \<equiv> CHR ''%''"
abbreviation (input) dot :: char where "dot \<equiv> CHR ''.''"

datatype normalize_level = Base | MergeSlashes | DecodeAndMergeSlashes

text \<open>\<open>Cow<str>\<close>: whether the path was returned as it is or as a new string.\<close>

datatype cow = Borrowed string | Owned string

fun cow_str :: "cow \<Rightarrow> string" where
  "cow_str (Borrowed s) = s"
| "cow_str (Owned s) = s"

definition merges :: "normalize_level \<Rightarrow> bool" where
  "merges level \<longleftrightarrow> level = MergeSlashes \<or> level = DecodeAndMergeSlashes"

fun needs_slow_path :: "string \<Rightarrow> normalize_level \<Rightarrow> bool" where
  "needs_slow_path [] level = False"
| "needs_slow_path (b # rest) level =
     (if b = percent \<or> b = backslash then True
      else if b = slash \<and> rest \<noteq> [] \<and> (hd rest = dot \<or> merges level \<and> hd rest = slash) then True
      else needs_slow_path rest level)"

definition hex_val :: "u8 \<Rightarrow> u8" where
  "hex_val b =
     (if 0x30 \<le> b \<and> b \<le> 0x39 then b - 0x30
      else if 0x61 \<le> b \<and> b \<le> 0x66 then b - 0x61 + 10
      else if 0x41 \<le> b \<and> b \<le> 0x46 then b - 0x41 + 10
      else 0)"

definition is_ascii_hexdigit :: "u8 \<Rightarrow> bool" where
  "is_ascii_hexdigit b \<longleftrightarrow>
     0x30 \<le> b \<and> b \<le> 0x39 \<or> 0x61 \<le> b \<and> b \<le> 0x66 \<or> 0x41 \<le> b \<and> b \<le> 0x46"

definition is_unreserved :: "u8 \<Rightarrow> bool" where
  "is_unreserved b \<longleftrightarrow>
     (0x30 \<le> b \<and> b \<le> 0x39 \<or> 0x61 \<le> b \<and> b \<le> 0x7A \<or> 0x41 \<le> b \<and> b \<le> 0x5A)
     \<or> b = 0x2D \<or> b = 0x2E \<or> b = 0x5F \<or> b = 0x7E"

text \<open>
  The escape test both decoders start with: \<open>%HH\<close> at the front of the input gives the decoded
  byte and what follows.
\<close>

fun escape_at :: "string \<Rightarrow> (u8 \<times> string) option" where
  "escape_at (p # a # b # rest) =
     (if p = percent \<and> is_ascii_hexdigit (byte_of a) \<and> is_ascii_hexdigit (byte_of b)
      then Some (push_bit 4 (hex_val (byte_of a)) OR hex_val (byte_of b), rest) else None)"
| "escape_at _ = None"

lemma escape_at_shorter: "escape_at s = Some (d, rest) \<Longrightarrow> length rest < length s"
  by (induction s rule: escape_at.induct) (auto split: if_splits)

function decode_escaped_slashes :: "string \<Rightarrow> string" where
  "decode_escaped_slashes [] = []"
| "decode_escaped_slashes (c # s) =
     (case escape_at (c # s) of
        Some (d, rest) \<Rightarrow>
          (if d = 0x2F \<or> d = 0x5C then char_from d # decode_escaped_slashes rest
           else c # decode_escaped_slashes s)
      | None \<Rightarrow> c # decode_escaped_slashes s)"
  by pat_completeness auto
termination
  by (relation "measure length") (auto dest: escape_at_shorter)

function decode_unreserved :: "string \<Rightarrow> string" where
  "decode_unreserved [] = []"
| "decode_unreserved (c # s) =
     (case escape_at (c # s) of
        Some (d, rest) \<Rightarrow>
          (if is_unreserved d then char_from d # decode_unreserved rest
           else c # decode_unreserved s)
      | None \<Rightarrow> c # decode_unreserved s)"
  by pat_completeness auto
termination
  by (relation "measure length") (auto dest: escape_at_shorter)

definition backslash_to_slash :: "string \<Rightarrow> string" where
  "backslash_to_slash s =
     (if backslash \<in> set s then map (\<lambda>c. if c = backslash then slash else c) s else s)"

definition pop_last_segment :: "string \<Rightarrow> string" where
  "pop_last_segment out = (case rfind_char slash out of Some pos \<Rightarrow> take pos out | None \<Rightarrow> out)"

text \<open>The end of the first path segment, its leading slash included (step E).\<close>

definition first_segment_end :: "string \<Rightarrow> nat" where
  "first_segment_end input =
     (case strip_prefix input ''/'' of
        Some rest \<Rightarrow> (case find_char slash rest of Some p \<Rightarrow> p + 1 | None \<Rightarrow> length input)
      | None \<Rightarrow> (case find_char slash input of Some p \<Rightarrow> p | None \<Rightarrow> length input))"

lemma first_segment_end_pos: "input \<noteq> [] \<Longrightarrow> 0 < first_segment_end input"
proof (cases "strip_prefix input ''/''")
  case None
  assume "input \<noteq> []"
  then obtain x xs where "input = x # xs" by (cases input) auto
  with None show ?thesis
    by (auto simp: first_segment_end_def str_simps split: option.splits)
qed (auto simp: first_segment_end_def split: option.splits)

function rds_loop :: "string \<Rightarrow> string \<Rightarrow> string" where
  "rds_loop out input =
     (if input = [] then out
      else if starts_with input ''../'' then rds_loop out (drop 3 input)
      else if starts_with input ''./'' then rds_loop out (drop 2 input)
      else if starts_with input ''/./'' then rds_loop out (drop 2 input)
      else if input = ''/.'' then rds_loop out ''/''
      else if starts_with input ''/../'' then rds_loop (pop_last_segment out) (drop 3 input)
      else if input = ''/..'' then rds_loop (pop_last_segment out) ''/''
      else if input = ''.'' \<or> input = ''..'' then out
      else rds_loop (out @ take (first_segment_end input) input)
                    (drop (first_segment_end input) input))"
  by pat_completeness auto
termination
  by (relation "measure (\<lambda>(out, input). length input)")
    (auto simp: first_segment_end_pos)

declare rds_loop.simps [simp del]

definition remove_dot_segments :: "string \<Rightarrow> string" where
  "remove_dot_segments path =
     (let out = rds_loop [] path in if out = [] then ''/'' else out)"

fun merge_slashes_loop :: "bool \<Rightarrow> string \<Rightarrow> string" where
  "merge_slashes_loop prev_slash [] = []"
| "merge_slashes_loop prev_slash (ch # s) =
     (if ch = slash
      then (if prev_slash then [] else [slash]) @ merge_slashes_loop True s
      else ch # merge_slashes_loop False s)"

definition merge_slashes :: "string \<Rightarrow> string" where
  "merge_slashes s = merge_slashes_loop False s"

definition run_normalization :: "string \<Rightarrow> normalize_level \<Rightarrow> string" where
  "run_normalization path level =
     (let s = (if level = DecodeAndMergeSlashes then decode_escaped_slashes path else path);
          s = decode_unreserved s;
          s = backslash_to_slash s;
          s = remove_dot_segments s
      in if merges level then merge_slashes s else s)"

definition normalize_apply :: "normalize_level \<Rightarrow> string \<Rightarrow> cow" where
  "normalize_apply level path =
     (if \<not> needs_slow_path path level then Borrowed path
      else let normalized = run_normalization path level in
           if normalized = path then Borrowed path else Owned normalized)"

section \<open>Dot-segment removal as a stack of segments\<close>

text \<open>
  The reference: a path is a list of segments, \<open>.\<close> is dropped, \<open>..\<close> pops, and a trailing dot
  segment leaves an empty last segment (a trailing slash).
\<close>

definition render :: "string list \<Rightarrow> string" where
  "render segs = concat (map (\<lambda>s. slash # s) segs)"

fun norm_segs :: "string list \<Rightarrow> string list \<Rightarrow> string list" where
  "norm_segs acc [] = acc"
| "norm_segs acc (s # rest) =
     (if s = ''.'' then (if rest = [] then acc @ [[]] else norm_segs acc rest)
      else if s = ''..'' then (if rest = [] then butlast acc @ [[]] else norm_segs (butlast acc) rest)
      else norm_segs (acc @ [s]) rest)"

definition slash_free :: "string list \<Rightarrow> bool" where
  "slash_free segs \<longleftrightarrow> (\<forall>s\<in>set segs. slash \<notin> set s)"

definition dot_free :: "string \<Rightarrow> bool" where
  "dot_free path \<longleftrightarrow> ''.'' \<notin> set (split_on slash path) \<and> ''..'' \<notin> set (split_on slash path)"

lemma slash_free_simps [simp]:
  "slash_free []"
  "slash_free (s # segs) \<longleftrightarrow> slash \<notin> set s \<and> slash_free segs"
  "slash_free (xs @ ys) \<longleftrightarrow> slash_free xs \<and> slash_free ys"
  by (auto simp: slash_free_def)

lemma slash_free_butlast [simp]: "slash_free segs \<Longrightarrow> slash_free (butlast segs)"
  by (auto simp: slash_free_def dest: in_set_butlastD)

lemma slash_free_split [simp]: "slash_free (split_on slash s)"
  by (auto simp: slash_free_def dest: split_on_sep_free)

lemma render_simps [simp]:
  "render [] = []"
  "render (s # segs) = slash # s @ render segs"
  "render (xs @ ys) = render xs @ render ys"
  by (simp_all add: render_def)

lemma render_split_on: "render (split_on slash p) = slash # p"
proof (induction p)
  case (Cons x p)
  then show ?case by (cases "split_on slash p") auto
qed simp

lemma split_on_append_render:
  "slash \<notin> set s \<Longrightarrow> slash_free segs \<Longrightarrow> split_on slash (s @ render segs) = s # segs"
  by (induction segs arbitrary: s) (simp_all add: split_on_no_sep split_on_append_sep)

lemma split_on_render: "slash_free segs \<Longrightarrow> split_on slash (render segs) = [] # segs"
  using split_on_append_render[of "[]" segs] by simp

lemma pop_last_segment_render:
  "slash_free segs \<Longrightarrow> pop_last_segment (render segs) = render (butlast segs)"
  by (cases segs rule: rev_cases) (auto simp: pop_last_segment_def rfind_char_append)

lemma first_segment_end_render:
  "slash \<notin> set s \<Longrightarrow> first_segment_end (slash # s @ render segs) = Suc (length s)"
  by (cases segs)
    (auto simp: first_segment_end_def strip_prefix_def find_char_append find_char_None [THEN iffD2])

lemma segment_start:
  assumes "slash \<notin> set s" and "slash \<notin> set p"
  shows "starts_with (s @ render segs) (p @ ''/'') \<longleftrightarrow> s = p \<and> segs \<noteq> []"
  using assms
proof (induction p arbitrary: s)
  case Nil
  then show ?case by (cases s; cases segs) auto
next
  case (Cons a p)
  then show ?case by (cases s; cases segs) auto
qed

lemma segment_eq: "slash \<notin> set p \<Longrightarrow> slash \<notin> set s \<Longrightarrow> s @ render segs = p \<longleftrightarrow> s = p \<and> segs = []"
  by (cases segs) auto

lemma rds_loop_Nil: "rds_loop out [] = out"
  by (simp add: rds_loop.simps)

lemma rds_loop_root: "rds_loop out ''/'' = out @ ''/''"
  by (subst rds_loop.simps) (simp add: rds_loop_Nil first_segment_end_def strip_prefix_def)

lemma rds_loop_dot_end: "rds_loop out ''/.'' = out @ ''/''"
  by (subst rds_loop.simps) (simp add: rds_loop_root)

lemma rds_loop_dotdot_end: "rds_loop out ''/..'' = pop_last_segment out @ ''/''"
  by (subst rds_loop.simps) (simp add: rds_loop_root)

lemma rds_loop_dot:
  "segs \<noteq> [] \<Longrightarrow> rds_loop out (slash # dot # render segs) = rds_loop out (render segs)"
  by (subst rds_loop.simps, cases segs) simp_all

lemma rds_loop_dotdot:
  "segs \<noteq> [] \<Longrightarrow>
   rds_loop out (slash # dot # dot # render segs) = rds_loop (pop_last_segment out) (render segs)"
  by (subst rds_loop.simps, cases segs) simp_all

lemma rds_loop_segment:
  assumes "slash \<notin> set s" and "s \<noteq> ''.''" and "s \<noteq> ''..''"
  shows "rds_loop out (slash # s @ render segs) = rds_loop (out @ slash # s) (render segs)"
proof -
  have "\<not> starts_with (s @ render segs) ''./''" "\<not> starts_with (s @ render segs) ''../''"
    using segment_start[OF assms(1), of "''.''" segs] segment_start[OF assms(1), of "''..''" segs]
      assms(2,3) by simp_all
  moreover have "s @ render segs \<noteq> ''.''" "s @ render segs \<noteq> ''..''"
    using segment_eq[OF _ assms(1), of "''.''" segs] segment_eq[OF _ assms(1), of "''..''" segs]
      assms(2,3) by simp_all
  ultimately show ?thesis
    by (subst rds_loop.simps) (simp add: first_segment_end_render assms(1))
qed

lemma rds_loop_segment_end:
  "slash \<notin> set s \<Longrightarrow> s \<noteq> ''.'' \<Longrightarrow> s \<noteq> ''..'' \<Longrightarrow> rds_loop out (slash # s) = out @ slash # s"
  using rds_loop_segment[of s out "[]"] by (simp add: rds_loop_Nil)

lemmas rds_loop_steps =
  rds_loop_Nil rds_loop_segment_end rds_loop_dot_end rds_loop_dotdot_end rds_loop_dot rds_loop_dotdot rds_loop_segment

lemma rds_loop_render:
  assumes "slash_free acc" and "slash_free xs" and "xs \<noteq> []"
  shows "rds_loop (render acc) (render xs) = render (norm_segs acc xs)"
  using assms
proof (induction acc xs rule: norm_segs.induct)
  case (2 acc s rest)
  then show ?case
    by (cases "rest = []"; cases "s = ''.''"; cases "s = ''..''")
      (simp_all add: rds_loop_steps pop_last_segment_render)
qed simp

lemma norm_segs_not_Nil: "xs \<noteq> [] \<or> acc \<noteq> [] \<and> xs = [] \<Longrightarrow> norm_segs acc xs \<noteq> []"
  by (induction acc xs rule: norm_segs.induct) auto

lemma remove_dot_segments_norm_segs:
  "remove_dot_segments (slash # p) = render (norm_segs [] (split_on slash p))"
proof -
  have "rds_loop [] (slash # p) = render (norm_segs [] (split_on slash p))"
    using rds_loop_render[of "[]" "split_on slash p"] by (simp add: render_split_on)
  moreover have "norm_segs [] (split_on slash p) \<noteq> []"
    by (simp add: norm_segs_not_Nil)
  ultimately show ?thesis
    by (cases "norm_segs [] (split_on slash p)") (simp_all add: remove_dot_segments_def)
qed

lemma slash_free_norm_segs:
  "slash_free acc \<Longrightarrow> slash_free xs \<Longrightarrow> slash_free (norm_segs acc xs)"
  by (induction acc xs rule: norm_segs.induct) auto

lemma norm_segs_no_dots:
  assumes "''.'' \<notin> set acc" and "''..'' \<notin> set acc"
  shows "''.'' \<notin> set (norm_segs acc xs) \<and> ''..'' \<notin> set (norm_segs acc xs)"
  using assms by (induction acc xs rule: norm_segs.induct) (auto dest: in_set_butlastD)

lemma norm_segs_id:
  "''.'' \<notin> set xs \<Longrightarrow> ''..'' \<notin> set xs \<Longrightarrow> norm_segs acc xs = acc @ xs"
  by (induction acc xs rule: norm_segs.induct) auto

lemma remove_dot_segments_dot_free: "dot_free (remove_dot_segments (slash # p))"
proof -
  have "split_on slash (remove_dot_segments (slash # p)) = [] # norm_segs [] (split_on slash p)"
    by (simp add: remove_dot_segments_norm_segs split_on_render slash_free_norm_segs)
  then show ?thesis using norm_segs_no_dots[of "[]"] by (simp add: dot_free_def)
qed

lemma remove_dot_segments_id:
  assumes "dot_free (slash # p)"
  shows "remove_dot_segments (slash # p) = slash # p"
  using assms
  by (simp add: remove_dot_segments_norm_segs dot_free_def norm_segs_id render_split_on)

lemma remove_dot_segments_absolute: "\<exists>q. remove_dot_segments (slash # p) = slash # q"
  using norm_segs_not_Nil[of "split_on slash p" "[]"]
  by (cases "norm_segs [] (split_on slash p)") (auto simp: remove_dot_segments_norm_segs)

lemma remove_dot_segments_set: "set (remove_dot_segments (slash # p)) \<subseteq> insert slash (set p)"
proof -
  have "set (render (norm_segs acc xs)) \<subseteq> insert slash (set (render acc) \<union> set (render xs))" for acc xs
  proof (induction acc xs rule: norm_segs.induct)
    case (2 acc s rest)
    have "set (render (butlast acc)) \<subseteq> set (render acc)"
      by (cases acc rule: rev_cases) auto
    with 2 show ?case by auto
  qed auto
  from this[of "[]" "split_on slash p"] show ?thesis
    by (simp add: remove_dot_segments_norm_segs render_split_on)
qed

section \<open>Slash merging\<close>

definition double_slash_free :: "string \<Rightarrow> bool" where
  "double_slash_free s \<longleftrightarrow> \<not> (\<exists>u v. s = u @ ''//'' @ v)"

lemma double_slash_free_Nil [simp]: "double_slash_free []"
  by (simp add: double_slash_free_def)

lemma double_slash_free_Cons [simp]:
  "double_slash_free (c # s) \<longleftrightarrow>
     \<not> (c = slash \<and> s \<noteq> [] \<and> hd s = slash) \<and> double_slash_free s"
  unfolding double_slash_free_def
  by (cases s) (auto simp: Cons_eq_append_conv)

lemma merge_slashes_loop_hd: "merge_slashes_loop True s = [] \<or> hd (merge_slashes_loop True s) \<noteq> slash"
  by (induction s) auto

lemma merge_slashes_loop_free: "double_slash_free (merge_slashes_loop b s)"
  using merge_slashes_loop_hd by (induction b s rule: merge_slashes_loop.induct) auto

lemma merge_slashes_loop_id:
  "double_slash_free s \<Longrightarrow> \<not> (b \<and> s \<noteq> [] \<and> hd s = slash) \<Longrightarrow> merge_slashes_loop b s = s"
  by (induction b s rule: merge_slashes_loop.induct) auto

lemma merge_slashes_id: "double_slash_free s \<Longrightarrow> merge_slashes s = s"
  by (simp add: merge_slashes_def merge_slashes_loop_id)

lemma merge_slashes_loop_segments:
  "set (split_on slash (merge_slashes_loop True s)) \<subseteq> insert [] (set (split_on slash s)) \<and>
   hd (split_on slash (merge_slashes_loop False s)) = hd (split_on slash s) \<and>
   set (tl (split_on slash (merge_slashes_loop False s))) \<subseteq> insert [] (set (tl (split_on slash s)))"
proof (induction s)
  case (Cons c s)
  then show ?case
    by (cases "split_on slash (merge_slashes_loop False s)"; cases "split_on slash s") auto
qed simp

lemma merge_slashes_segments:
  "set (split_on slash (merge_slashes s)) \<subseteq> insert [] (set (split_on slash s))"
  using merge_slashes_loop_segments[of s] unfolding merge_slashes_def
  by (cases "split_on slash (merge_slashes_loop False s)"; cases "split_on slash s") auto

lemma merge_slashes_dot_free: "dot_free s \<Longrightarrow> dot_free (merge_slashes s)"
  using merge_slashes_segments[of s] by (auto simp: dot_free_def)

lemma merge_slashes_set: "set (merge_slashes s) \<subseteq> set s"
proof -
  have "set (merge_slashes_loop b s) \<subseteq> set s" for b
    by (induction b s rule: merge_slashes_loop.induct) auto
  then show ?thesis by (simp add: merge_slashes_def)
qed

section \<open>Decoding\<close>

lemma escape_at_decomp:
  "escape_at s = Some (d, rest) \<Longrightarrow>
     \<exists>a b. s = percent # a # b # rest \<and> is_ascii_hexdigit (byte_of a) \<and> is_ascii_hexdigit (byte_of b)"
  by (induction s rule: escape_at.induct) (auto split: if_splits)

lemma escape_at_not_percent: "c \<noteq> percent \<Longrightarrow> escape_at (c # s) = None"
  by (cases "(c # s)" rule: escape_at.cases) auto

lemma decode_unreserved_id: "percent \<notin> set s \<Longrightarrow> decode_unreserved s = s"
  by (induction s rule: decode_unreserved.induct) (auto simp: escape_at_not_percent)

lemma decode_escaped_slashes_id: "percent \<notin> set s \<Longrightarrow> decode_escaped_slashes s = s"
  by (induction s rule: decode_escaped_slashes.induct) (auto simp: escape_at_not_percent)

lemma hexdigit_not_separator:
  "is_ascii_hexdigit (byte_of c) \<Longrightarrow> c \<noteq> slash \<and> c \<noteq> backslash \<and> c \<noteq> percent"
  by (auto simp: is_ascii_hexdigit_def byte_of_def)

lemma unreserved_not_separator:
  "is_unreserved d \<Longrightarrow> char_from d \<noteq> slash \<and> char_from d \<noteq> backslash \<and> char_from d \<noteq> percent"
  by (auto simp: is_unreserved_def byte_of_def char_from_eq_iff)

definition is_sep :: "char \<Rightarrow> bool" where
  "is_sep c \<longleftrightarrow> c = slash \<or> c = backslash"

lemma decode_unreserved_separators: "filter is_sep (decode_unreserved s) = filter is_sep s"
proof (induction s rule: decode_unreserved.induct)
  case (2 c s)
  show ?case
  proof (cases "escape_at (c # s)")
    case (Some p)
    obtain d rest where p: "p = (d, rest)" by (cases p)
    obtain a b where ab: "c # s = percent # a # b # rest"
      "is_ascii_hexdigit (byte_of a)" "is_ascii_hexdigit (byte_of b)"
      using escape_at_decomp[OF Some[unfolded p]] by blast
    have skip: "filter is_sep (c # s) = filter is_sep rest"
      unfolding ab(1)
      using hexdigit_not_separator[OF ab(2)] hexdigit_not_separator[OF ab(3)] by (simp add: is_sep_def)
    show ?thesis
    proof (cases "is_unreserved d")
      case True
      then have "filter is_sep (decode_unreserved (c # s)) = filter is_sep (decode_unreserved rest)"
        using Some p unreserved_not_separator[OF True] by (simp add: is_sep_def)
      with skip show ?thesis using "2.IH"(2)[OF Some p[symmetric] True] by simp
    next
      case False
      then have "decode_unreserved (c # s) = c # decode_unreserved s" using Some p by simp
      then show ?thesis using "2.IH"(3)[OF Some p[symmetric] False] by simp
    qed
  next
    case None
    then show ?thesis using "2.IH"(1) by simp
  qed
qed simp

lemma needs_slow_path_bytes:
  "\<not> needs_slow_path s level \<Longrightarrow> percent \<notin> set s \<and> backslash \<notin> set s"
  by (induction s level rule: needs_slow_path.induct) (auto split: if_splits)

lemma needs_slow_path_double_slash:
  "\<not> needs_slow_path s level \<Longrightarrow> merges level \<Longrightarrow> double_slash_free s"
  by (induction s level rule: needs_slow_path.induct) (auto split: if_splits)

lemma hd_split_on: "hd (split_on c s) = takeWhile (\<lambda>x. x \<noteq> c) s"
  by (induction s) (auto split: list.splits)

lemma tl_split_on_Cons: "tl (split_on c (x # s)) = (if x = c then split_on c s else tl (split_on c s))"
  by (cases "split_on c s") auto

lemma needs_slow_path_segments:
  "\<not> needs_slow_path s level \<Longrightarrow> \<forall>seg\<in>set (tl (split_on slash s)). seg = [] \<or> hd seg \<noteq> dot"
proof (induction s level rule: needs_slow_path.induct)
  case (2 b rest level)
  have tail: "\<not> needs_slow_path rest level" using "2.prems" by (simp split: if_splits)
  then have IH: "\<forall>seg\<in>set (tl (split_on slash rest)). seg = [] \<or> hd seg \<noteq> dot"
    using "2.IH" "2.prems" by (simp split: if_splits)
  have "b = slash \<Longrightarrow> takeWhile (\<lambda>x. x \<noteq> slash) rest = [] \<or> hd (takeWhile (\<lambda>x. x \<noteq> slash) rest) \<noteq> dot"
    using "2.prems" by (cases rest) (auto split: if_splits)
  then have "b = slash \<Longrightarrow> hd (split_on slash rest) = [] \<or> hd (hd (split_on slash rest)) \<noteq> dot"
    by (simp add: hd_split_on)
  with IH show ?case
    unfolding tl_split_on_Cons by (cases "split_on slash rest") auto
qed simp

lemma needs_slow_path_dot_free: "\<not> needs_slow_path (slash # q) level \<Longrightarrow> dot_free (slash # q)"
  using needs_slow_path_segments[of "slash # q" level] by (auto simp: dot_free_def)

lemma backslash_to_slash_absolute: "\<exists>q'. backslash_to_slash (slash # q) = slash # q'"
  by (simp add: backslash_to_slash_def)

lemma backslash_to_slash_set: "backslash \<notin> set (backslash_to_slash s)"
  by (auto simp: backslash_to_slash_def)

lemma decode_absolute:
  "decode_escaped_slashes (slash # q) = slash # decode_escaped_slashes q"
  "decode_unreserved (slash # q) = slash # decode_unreserved q"
  by (simp_all add: escape_at_not_percent)

text \<open>The path dot-segment removal works on is absolute when the request path is.\<close>

definition predotted :: "string \<Rightarrow> normalize_level \<Rightarrow> string" where
  "predotted path level =
     backslash_to_slash (decode_unreserved
       (if level = DecodeAndMergeSlashes then decode_escaped_slashes path else path))"

lemma predotted_absolute: "\<exists>q'. predotted (slash # q) level = slash # q'"
  using backslash_to_slash_absolute
  by (simp add: predotted_def decode_absolute del: decode_unreserved.simps decode_escaped_slashes.simps)

lemma run_normalization_predotted:
  "run_normalization path level =
     (let s = remove_dot_segments (predotted path level) in if merges level then merge_slashes s else s)"
  by (simp add: run_normalization_def predotted_def Let_def)

declare decode_unreserved.simps(2) [simp del] decode_escaped_slashes.simps(2) [simp del]

lemma apply_run_eq:
  "cow_str (normalize_apply level (slash # q)) = run_normalization (slash # q) level"
proof (cases "needs_slow_path (slash # q) level")
  case False
  then have "predotted (slash # q) level = slash # q"
    using needs_slow_path_bytes[OF False]
    by (simp add: predotted_def decode_unreserved_id decode_escaped_slashes_id
        backslash_to_slash_def del: needs_slow_path.simps)
  with False show ?thesis
    using needs_slow_path_dot_free[OF False] needs_slow_path_double_slash[OF False]
    by (simp add: normalize_apply_def run_normalization_predotted remove_dot_segments_id
        merge_slashes_id Let_def del: needs_slow_path.simps double_slash_free_Cons)
qed (simp add: normalize_apply_def Let_def)

lemma apply_canonical:
  "\<exists>r. cow_str (normalize_apply level (slash # q)) = slash # r \<and>
       dot_free (slash # r) \<and> backslash \<notin> set (slash # r) \<and>
       (merges level \<longrightarrow> double_slash_free (slash # r))"
proof -
  obtain q' where q': "predotted (slash # q) level = slash # q'" using predotted_absolute by blast
  obtain r where r: "remove_dot_segments (slash # q') = slash # r"
    using remove_dot_segments_absolute by blast
  have "backslash \<notin> set (slash # q')"
    unfolding q'[symmetric] predotted_def by (rule backslash_to_slash_set)
  then have clean: "dot_free (slash # r)" "backslash \<notin> set (slash # r)"
    using remove_dot_segments_dot_free[of q'] remove_dot_segments_set[of q'] r by auto
  have run: "run_normalization (slash # q) level =
      (if merges level then merge_slashes (slash # r) else slash # r)"
    by (simp add: run_normalization_predotted q' r)
  obtain m where m: "merge_slashes (slash # r) = slash # m"
    by (simp add: merge_slashes_def)
  have "dot_free (slash # m)" "backslash \<notin> set (slash # m)" "double_slash_free (slash # m)"
    using merge_slashes_dot_free[OF clean(1)] merge_slashes_set[of "slash # r"] clean(2)
      merge_slashes_loop_free[of False "slash # r"]
    unfolding m[symmetric] by (auto simp: merge_slashes_def)
  with clean show ?thesis
    unfolding apply_run_eq run m
    by (intro exI[of _ "if merges level then m else r"]) simp
qed

section \<open>Properties\<close>

text \<open>
  C33: dot-segment removal on an absolute path computes what the stack of segments computes,
  whatever order of \<open>.\<close> and \<open>..\<close> segments the path has.
\<close>

theorem remove_dot_segments_refines_stack:
  "remove_dot_segments (slash # p) = render (norm_segs [] (split_on slash p))"
  by (rule remove_dot_segments_norm_segs)

text \<open>
  the pre-scan is sound: on an absolute path \<open>apply\<close> returns what the whole pipeline
  returns, at every level.
\<close>

theorem normalize_apply_eq_pipeline:
  "cow_str (normalize_apply level (slash # q)) = run_normalization (slash # q) level"
  by (rule apply_run_eq)

text \<open>
  C2: an absolute path leaves \<open>apply\<close> absolute, with no \<open>.\<close> or \<open>..\<close> segment, with no
  backslash, and with no empty inner segment at the levels that merge slashes.
\<close>

theorem normalize_apply_canonical:
  "\<exists>r. cow_str (normalize_apply level (slash # q)) = slash # r \<and>
       dot_free (slash # r) \<and> backslash \<notin> set (slash # r) \<and>
       (merges level \<longrightarrow> double_slash_free (slash # r))"
  by (rule apply_canonical)

theorem normalize_apply_canonical_witness:
  "merges MergeSlashes \<and>
   (\<exists>r. cow_str (normalize_apply MergeSlashes ''//api/..%5C//v1'') = slash # r \<and>
        dot_free (slash # r) \<and> double_slash_free (slash # r))"
proof -
  have m: "merges MergeSlashes" by (simp add: merges_def)
  then show ?thesis
    using normalize_apply_canonical[of MergeSlashes "''/api/..%5C//v1''"] by blast
qed

text \<open>
  unreserved decoding neither adds nor removes a separator: the sequence of \<open>/\<close> and \<open>\\<close>
  bytes of the path is unchanged, so an encoded slash or backslash stays encoded at the levels
  below \<open>decode-and-merge-slashes\<close>.
\<close>

theorem decode_unreserved_keeps_separators:
  "filter is_sep (decode_unreserved s) = filter is_sep s"
  by (rule decode_unreserved_separators)

text \<open>
  normalization is idempotent on an absolute path without \<open>%\<close>.
\<close>

theorem normalize_apply_idempotent_unescaped:
  assumes "percent \<notin> set q"
  shows "cow_str (normalize_apply level (cow_str (normalize_apply level (slash # q)))) =
         cow_str (normalize_apply level (slash # q))"
proof -
  obtain q' where q': "predotted (slash # q) level = slash # q'" using predotted_absolute by blast
  have "predotted (slash # q) level = backslash_to_slash (slash # q)"
    using assms by (simp add: predotted_def decode_unreserved_id decode_escaped_slashes_id)
  with q' assms have q'p: "percent \<notin> set q'" by (auto simp: backslash_to_slash_def split: if_splits)
  obtain r where r: "cow_str (normalize_apply level (slash # q)) = slash # r"
    "dot_free (slash # r)" "backslash \<notin> set (slash # r)" "merges level \<longrightarrow> double_slash_free (slash # r)"
    using apply_canonical by blast
  have "set (slash # r) \<subseteq> insert slash (set q')"
    using remove_dot_segments_set[of q'] merge_slashes_set[of "remove_dot_segments (slash # q')"]
    unfolding r(1)[symmetric] apply_run_eq run_normalization_predotted q' Let_def
    by (auto split: if_splits)
  with q'p have "percent \<notin> set (slash # r)" by auto
  then have "predotted (slash # r) level = slash # r"
    using r(3) by (simp add: predotted_def decode_unreserved_id decode_escaped_slashes_id
        backslash_to_slash_def)
  then have "run_normalization (slash # r) level = slash # r"
    using r(2,4) by (simp add: run_normalization_predotted remove_dot_segments_id merge_slashes_id
        Let_def del: double_slash_free_Cons)
  then show ?thesis unfolding r(1) by (simp only: apply_run_eq)
qed

theorem normalize_apply_idempotent_unescaped_witness:
  "percent \<notin> set ''a/../b'' \<and>
   cow_str (normalize_apply Base (cow_str (normalize_apply Base ''/a/../b''))) =
   cow_str (normalize_apply Base ''/a/../b'')"
  using normalize_apply_idempotent_unescaped[of "''a/../b''" Base] by simp

text \<open>
  normalization is not idempotent in general: an escape whose second hex digit is itself
  escaped survives one pass as an encoded dot segment, and only a second pass resolves it.
\<close>

theorem normalize_apply_not_idempotent:
  "cow_str (normalize_apply Base ''/a/%2%45%2%45/b'') = ''/a/%2E%2E/b'' \<and>
   cow_str (normalize_apply Base ''/a/%2E%2E/b'') = ''/b''"
  by code_simp

end
