(* ===== verification/Host_Router.thy ===== *)
theory Host_Router
  imports Route_Entry Path_Normalize "HOL-Library.Product_Lexorder" "HOL-Library.List_Lexorder"
    "HOL-Library.Char_ord"
begin

text \<open>
  The per-host path router (\<open>crates/coxswain-core/src/routing/common/host_router.rs\<close>): the
  builder that groups, orders and compiles routes, and the lookup.  The radix router of
  \<open>matchit\<close> and the \<open>regex\<close> compiler are third-party and enter as records of operations; what
  the builder relies on is the predicate \<open>matchit_laws\<close>.  A compiled \<open>RegexSet\<close> holds one
  pattern and is represented by it.
\<close>

section \<open>Third-party interfaces\<close>

text \<open>\<open>mt_insert\<close> returns the router after the call and whether the insertion succeeded.\<close>

record ('r, 'v) matchit =
  mt_new :: 'r
  mt_insert :: "'r \<Rightarrow> string \<Rightarrow> 'v \<Rightarrow> 'r \<times> bool"
  mt_at :: "'r \<Rightarrow> string \<Rightarrow> 'v option"

text \<open>An absolute path without the braces that introduce a parameter.\<close>

definition plain :: "string \<Rightarrow> bool" where
  "plain p \<longleftrightarrow> starts_with p ''/'' \<and> CHR 0x7B \<notin> set p \<and> CHR 0x7D \<notin> set p"

definition catch_all :: "string \<Rightarrow> string" where
  "catch_all q = q @ CHR ''/'' # CHR 0x7B # ''*rest'' @ [CHR 0x7D]"

definition pattern_ok :: "string \<Rightarrow> bool" where
  "pattern_ok p \<longleftrightarrow> plain p \<or> (\<exists>q. (q = [] \<or> plain q) \<and> p = catch_all q)"

text \<open>
  The documented lookup for static patterns and trailing catch-alls: a static pattern equal to
  the path wins, otherwise the catch-all with the longest static part whose remainder is not
  empty.
\<close>

fun catch_all_at :: "(string \<Rightarrow> 'v option) \<Rightarrow> string \<Rightarrow> nat \<Rightarrow> 'v option" where
  "catch_all_at t path 0 =
     (if 1 < length path \<and> path ! 0 = CHR ''/'' then t (catch_all []) else None)"
| "catch_all_at t path (Suc n) =
     (case (if Suc n + 1 < length path \<and> path ! Suc n = CHR ''/''
            then t (catch_all (take (Suc n) path)) else None) of
        Some v \<Rightarrow> Some v
      | None \<Rightarrow> catch_all_at t path n)"

definition static_first_at :: "(string \<Rightarrow> 'v option) \<Rightarrow> string \<Rightarrow> 'v option" where
  "static_first_at t path =
     (case (if plain path then t path else None) of
        Some v \<Rightarrow> Some v
      | None \<Rightarrow> catch_all_at t path (length path))"

definition matchit_laws :: "('r, 'v) matchit \<Rightarrow> ('r \<Rightarrow> string \<Rightarrow> 'v option) \<Rightarrow> bool" where
  "matchit_laws mt tbl \<longleftrightarrow>
     tbl (mt_new mt) = (\<lambda>_. None) \<and>
     (\<forall>r p v. (\<forall>k. tbl r k \<noteq> None \<longrightarrow> pattern_ok k) \<and> pattern_ok p \<longrightarrow>
        snd (mt_insert mt r p v) = (tbl r p = None) \<and>
        tbl (fst (mt_insert mt r p v)) = (if tbl r p = None then (tbl r)(p := Some v) else tbl r)) \<and>
     (\<forall>r path. (\<forall>k. tbl r k \<noteq> None \<longrightarrow> pattern_ok k) \<longrightarrow>
        mt_at mt r path = static_first_at (tbl r) path)"

section \<open>Matches\<close>

record ('b, 'net) route_match =
  rm_backend_group :: "'b filter_action backend_group"
  rm_filters :: "'b filter_action list"
  rm_timeouts :: route_timeouts
  rm_path_pattern :: string
  rm_metric_route_id :: string
  rm_max_body_size :: "u64 option"
  rm_allow_source_range :: "'net list option"
  rm_deny_source_range :: "'net list option"
  rm_access_log_enabled :: "bool option"
  rm_rate_limit :: "rate_limit_config option"
  rm_auth :: "ingress_auth_config list"
  rm_compression :: "compression_config option"
  rm_forwarded_for :: "'net forwarded_for_config option"
  rm_circuit_breaker :: "circuit_breaker_config option"
  rm_normalized_path :: "string option"
  rm_error_status :: "u16 option"

definition from_entry :: "('b, 'net) route_entry \<Rightarrow> ('b, 'net) route_match" where
  "from_entry e =
     \<lparr>rm_backend_group = rt_backend_group e, rm_filters = rt_filters e, rm_timeouts = rt_timeouts e,
      rm_path_pattern = rt_path_pattern e, rm_metric_route_id = rt_metric_route_id e,
      rm_max_body_size = rt_max_body_size e, rm_allow_source_range = rt_allow_source_range e,
      rm_deny_source_range = rt_deny_source_range e, rm_access_log_enabled = rt_access_log_enabled e,
      rm_rate_limit = rt_rate_limit e, rm_auth = rt_auth e, rm_compression = rt_compression e,
      rm_forwarded_for = rt_forwarded_for e, rm_circuit_breaker = rt_circuit_breaker e,
      rm_normalized_path = None, rm_error_status = rt_error_status e\<rparr>"

record ('r, 'b, 'net) host_router =
  hr_router :: 'r
  hr_regex_routes :: "(string \<times> ('b, 'net) route_entry list) list"
  hr_has_query_predicates :: bool
  hr_route_info :: "'b route_info list"
  hr_normalize :: normalize_level
  hr_wire_table :: "(string \<times> route_kind \<times> ('b, 'net) route_entry) list"

fun first_match :: "match_env \<Rightarrow> request_context \<Rightarrow> ('b, 'net) route_entry list \<Rightarrow> ('b, 'net) route_match option" where
  "first_match env ctx [] = None"
| "first_match env ctx (e # es) =
     (if predicates_match env (rt_predicates e) ctx then Some (from_entry e) else first_match env ctx es)"

fun regex_fallback ::
  "match_env \<Rightarrow> request_context \<Rightarrow> string \<Rightarrow> (string \<times> ('b, 'net) route_entry list) list
     \<Rightarrow> ('b, 'net) route_match option" where
  "regex_fallback env ctx path [] = None"
| "regex_fallback env ctx path ((pat, es) # rest) =
     (if regex_is_match env pat path then
        (case first_match env ctx es of Some m \<Rightarrow> Some m | None \<Rightarrow> regex_fallback env ctx path rest)
      else regex_fallback env ctx path rest)"

definition host_route ::
  "('r, ('b, 'net) route_entry list) matchit \<Rightarrow> match_env \<Rightarrow> ('r, 'b, 'net) host_router \<Rightarrow> string
     \<Rightarrow> request_context \<Rightarrow> ('b, 'net) route_match option" where
  "host_route mt env h path ctx =
     (case (case mt_at mt (hr_router h) path of
              Some es \<Rightarrow> first_match env ctx es | None \<Rightarrow> None) of
        Some m \<Rightarrow> Some m
      | None \<Rightarrow> regex_fallback env ctx path (hr_regex_routes h))"

section \<open>Ordering and grouping\<close>

definition specificity_key ::
  "('b, 'net) route_entry \<Rightarrow> nat \<Rightarrow> int \<times> int \<times> int \<times> nat \<times> string \<times> nat" where
  "specificity_key e insertion_idx =
     (let has_method = (if mp_method (rt_predicates e) \<noteq> None then 1 else 0);
          ts = (case rt_created_at e of
                  Some t \<Rightarrow> if t < 0 then 2 ^ 128 - 1 else nat t div 10 ^ 6
                | None \<Rightarrow> 2 ^ 128 - 1)
      in (- has_method, - int (length (mp_headers (rt_predicates e))),
          - int (length (mp_query (rt_predicates e))), ts, rt_route_id e, insertion_idx))"

type_synonym 'e path_groups = "(string \<times> (nat \<times> 'e) list) list"

definition group_by_path :: "(string \<times> 'e) list \<Rightarrow> 'e path_groups" where
  "group_by_path routes =
     foldl (\<lambda>groups (idx, path, e). alist_upsert path [] (\<lambda>g. g @ [(idx, e)]) groups)
       [] (enumerate 0 routes)"

definition normalize_prefix :: "string \<Rightarrow> string" where
  "normalize_prefix path =
     (let trimmed = trim_end_matches (CHR ''/'') path in if trimmed = [] then ''/'' else trimmed)"

definition sort_and_freeze :: "(nat \<times> ('b, 'net) route_entry) list \<Rightarrow> ('b, 'net) route_entry list" where
  "sort_and_freeze entries = map snd (sort_key (\<lambda>(idx, e). specificity_key e idx) entries)"

definition value_sig :: "value_match \<Rightarrow> string" where
  "value_sig v = (case v of ExactValue s \<Rightarrow> ''e:'' @ s | RegexValue r \<Rightarrow> ''r:'' @ r)"

fun join :: "string \<Rightarrow> string list \<Rightarrow> string" where
  "join sep [] = []"
| "join sep [s] = s"
| "join sep (s # t # ss) = s @ sep @ join sep (t # ss)"

definition predicate_signature :: "match_predicates \<Rightarrow> string" where
  "predicate_signature p =
     (let hs = sort (map (\<lambda>h. hp_name h @ ''='' @ value_sig (hp_matcher h)) (mp_headers p));
          qs = sort (map (\<lambda>q. qp_name q @ ''='' @ value_sig (qp_matcher q)) (mp_query p))
      in ''m='' @ (case mp_method p of None \<Rightarrow> [] | Some m \<Rightarrow> m) @ ''|h='' @ join '','' hs
         @ ''|q='' @ join '','' qs)"

fun dup_loop ::
  "string \<Rightarrow> route_kind \<Rightarrow> (string \<times> string) list \<Rightarrow> string list \<Rightarrow> ('b, 'net) route_entry list
     \<Rightarrow> route_conflict list" where
  "dup_loop path kind winner emitted [] = []"
| "dup_loop path kind winner emitted (e # es) =
     (let sig = predicate_signature (rt_predicates e) in
      case map_of winner sig of
        None \<Rightarrow> dup_loop path kind (alist_insert sig (rt_route_id e) winner) emitted es
      | Some win \<Rightarrow>
          if win \<noteq> rt_route_id e \<and> rt_route_id e \<notin> set emitted then
            \<lparr>rcf_port = 0, rcf_host = [], rcf_path = path, rcf_kind = kind,
             rcf_rejected_group = bg_name (rt_backend_group e), rcf_rejected_route_id = rt_route_id e,
             rcf_winner_route_id = win\<rparr>
            # dup_loop path kind winner (rt_route_id e # emitted) es
          else dup_loop path kind winner emitted es)"

definition dup_conflicts :: "string \<Rightarrow> route_kind \<Rightarrow> ('b, 'net) route_entry list \<Rightarrow> route_conflict list" where
  "dup_conflicts path kind frozen = dup_loop path kind [] [] frozen"

section \<open>The builder\<close>

datatype router_error = MatchitInsert | RegexError

record ('b, 'net) host_router_builder =
  hb_exact_routes :: "(string \<times> ('b, 'net) route_entry) list"
  hb_prefix_routes :: "(string \<times> ('b, 'net) route_entry) list"
  hb_regex_routes :: "(string \<times> ('b, 'net) route_entry) list"
  hb_normalize :: "normalize_level option"

definition host_router_builder_default :: "('b, 'net) host_router_builder" where
  "host_router_builder_default =
     \<lparr>hb_exact_routes = [], hb_prefix_routes = [], hb_regex_routes = [], hb_normalize = None\<rparr>"

definition set_path_normalize ::
  "normalize_level \<Rightarrow> ('b, 'net) host_router_builder \<Rightarrow> ('b, 'net) host_router_builder" where
  "set_path_normalize level b =
     (case hb_normalize b of Some _ \<Rightarrow> b | None \<Rightarrow> b\<lparr>hb_normalize := Some level\<rparr>)"

definition add_exact_route ::
  "string \<Rightarrow> ('b, 'net) route_entry \<Rightarrow> ('b, 'net) host_router_builder \<Rightarrow> ('b, 'net) host_router_builder" where
  "add_exact_route path e b = b\<lparr>hb_exact_routes := hb_exact_routes b @ [(path, e)]\<rparr>"

definition add_prefix_route ::
  "string \<Rightarrow> ('b, 'net) route_entry \<Rightarrow> ('b, 'net) host_router_builder \<Rightarrow> ('b, 'net) host_router_builder" where
  "add_prefix_route path e b = b\<lparr>hb_prefix_routes := hb_prefix_routes b @ [(path, e)]\<rparr>"

definition add_regex_route ::
  "string \<Rightarrow> ('b, 'net) route_entry \<Rightarrow> ('b, 'net) host_router_builder \<Rightarrow> ('b, 'net) host_router_builder" where
  "add_regex_route pat e b = b\<lparr>hb_regex_routes := hb_regex_routes b @ [(pat, e)]\<rparr>"

text \<open>The local variables of \<open>build\<close>.\<close>

record ('r, 'b, 'net) build_state =
  bs_router :: 'r
  bs_route_info :: "'b route_info list"
  bs_wire_table :: "(string \<times> route_kind \<times> ('b, 'net) route_entry) list"
  bs_conflicts :: "route_conflict list"
  bs_has_query :: bool
  bs_regex :: "(string \<times> ('b, 'net) route_entry list) list"

definition check_query :: "(nat \<times> ('b, 'net) route_entry) list \<Rightarrow> bool" where
  "check_query entries = list_ex (\<lambda>(_, e). mp_query (rt_predicates e) \<noteq> []) entries"

definition note_group ::
  "route_kind \<Rightarrow> string \<Rightarrow> (nat \<times> ('b, 'net) route_entry) list \<Rightarrow> ('r, 'b, 'net) build_state
     \<Rightarrow> ('r, 'b, 'net) build_state" where
  "note_group kind path entries s =
     s\<lparr>bs_has_query := (bs_has_query s \<or> check_query entries),
       bs_route_info := bs_route_info s @
         map (\<lambda>(_, e). \<lparr>ri_path = path, ri_kind = kind, ri_backend_group = rt_backend_group e,
                        ri_route_id = rt_route_id e\<rparr>) entries,
       bs_wire_table := bs_wire_table s @ map (\<lambda>(_, e). (path, kind, e)) entries\<rparr>"

fun build_exact ::
  "('r, ('b, 'net) route_entry list) matchit \<Rightarrow> ('b, 'net) route_entry path_groups
     \<Rightarrow> ('r, 'b, 'net) build_state \<Rightarrow> router_error + ('r, 'b, 'net) build_state" where
  "build_exact mt [] s = Inr s"
| "build_exact mt ((path, entries) # gs) s =
     (let s = note_group ExactKind path entries s;
          frozen = sort_and_freeze entries;
          s = s\<lparr>bs_conflicts := bs_conflicts s @ dup_conflicts path ExactKind frozen\<rparr>;
          (r, ok) = mt_insert mt (bs_router s) path frozen
      in if ok then build_exact mt gs (s\<lparr>bs_router := r\<rparr>) else Inl MatchitInsert)"

definition prefix_patterns :: "string \<Rightarrow> string list" where
  "prefix_patterns path =
     (if path = ''/'' then [''/'', catch_all []] else [path, path @ ''/'', catch_all path])"

fun insert_each :: "('r, 'v) matchit \<Rightarrow> string list \<Rightarrow> 'v \<Rightarrow> 'r \<Rightarrow> 'r" where
  "insert_each mt [] v r = r"
| "insert_each mt (p # ps) v r = insert_each mt ps v (fst (mt_insert mt r p v))"

fun build_prefix ::
  "('r, ('b, 'net) route_entry list) matchit \<Rightarrow> ('b, 'net) route_entry path_groups
     \<Rightarrow> ('r, 'b, 'net) build_state \<Rightarrow> ('r, 'b, 'net) build_state" where
  "build_prefix mt [] s = s"
| "build_prefix mt ((path, entries) # gs) s =
     (let s = note_group PrefixKind path entries s;
          frozen = sort_and_freeze entries;
          s = s\<lparr>bs_conflicts := bs_conflicts s @ dup_conflicts path PrefixKind frozen\<rparr>
      in build_prefix mt gs
           (s\<lparr>bs_router := insert_each mt (prefix_patterns path) frozen (bs_router s)\<rparr>))"

fun build_regex ::
  "(string \<Rightarrow> bool) \<Rightarrow> ('b, 'net) route_entry path_groups \<Rightarrow> ('r, 'b, 'net) build_state
     \<Rightarrow> router_error + ('r, 'b, 'net) build_state" where
  "build_regex regex_ok [] s = Inr s"
| "build_regex regex_ok ((pat, entries) # gs) s =
     (let s = note_group RegexKind pat entries s in
      if \<not> regex_ok pat then Inl RegexError
      else build_regex regex_ok gs (s\<lparr>bs_regex := bs_regex s @ [(pat, sort_and_freeze entries)]\<rparr>))"

definition host_router_build ::
  "('r, ('b, 'net) route_entry list) matchit \<Rightarrow> (string \<Rightarrow> bool) \<Rightarrow> ('b, 'net) host_router_builder
     \<Rightarrow> router_error + ('r, 'b, 'net) host_router \<times> route_conflict list" where
  "host_router_build mt regex_ok b =
     (let s0 = \<lparr>bs_router = mt_new mt, bs_route_info = [], bs_wire_table = [], bs_conflicts = [],
                bs_has_query = False, bs_regex = []\<rparr>
      in case build_exact mt (group_by_path (hb_exact_routes b)) s0 of
           Inl e \<Rightarrow> Inl e
         | Inr s1 \<Rightarrow>
             let s2 = build_prefix mt
                        (group_by_path (map (\<lambda>(p, e). (normalize_prefix p, e)) (hb_prefix_routes b))) s1
             in case build_regex regex_ok (group_by_path (hb_regex_routes b)) s2 of
                  Inl e \<Rightarrow> Inl e
                | Inr s3 \<Rightarrow>
                    Inr (\<lparr>hr_router = bs_router s3, hr_regex_routes = bs_regex s3,
                          hr_has_query_predicates = bs_has_query s3, hr_route_info = bs_route_info s3,
                          hr_normalize = (case hb_normalize b of Some l \<Rightarrow> l | None \<Rightarrow> Base),
                          hr_wire_table = bs_wire_table s3\<rparr>, bs_conflicts s3))"

section \<open>Wildcard hosts\<close>

datatype wildcard_kind = SingleLabel | MultiLabel

definition wildcard_matches :: "string \<Rightarrow> string \<Rightarrow> wildcard_kind \<Rightarrow> bool" where
  "wildcard_matches host suffix kind =
     (case strip_suffix host suffix of
        None \<Rightarrow> False
      | Some rest \<Rightarrow>
          (case strip_suffix rest ''.'' of
             None \<Rightarrow> False
           | Some prefix \<Rightarrow>
               if prefix = [] then False
               else (case kind of SingleLabel \<Rightarrow> CHR ''.'' \<notin> set prefix | MultiLabel \<Rightarrow> True)))"

end
