(* ===== verification/Host_Routing.thy ===== *)
theory Host_Routing
  imports Host_Router
begin

text \<open>
  Correctness of the per-host router: the compiled radix table implements "exact path, else
  longest covering prefix", the winner within a slot is the most specific entry whose
  predicates hold, the conflict report names exactly the shadowed routes, and a wildcard host
  pattern matches exactly the hosts below its suffix.
\<close>

section \<open>Grouping\<close>

lemma group_by_path_snoc:
  "group_by_path (rs @ [(p, e)]) =
     alist_upsert p [] (\<lambda>g. g @ [(length rs, e)]) (group_by_path rs)"
  by (simp add: group_by_path_def enumerate_append_eq)

lemma group_by_path_Nil [simp]: "group_by_path [] = []"
  by (simp add: group_by_path_def)

lemma group_by_path_wf: "alist_wf (group_by_path rs)"
  by (induction rs rule: rev_induct) (auto simp: group_by_path_snoc)

definition entries_at :: "string \<Rightarrow> (string \<times> 'e) list \<Rightarrow> (nat \<times> 'e) list" where
  "entries_at path rs = map (\<lambda>(i, _, e). (i, e)) (filter (\<lambda>(_, p, _). p = path) (enumerate 0 rs))"

lemma entries_at_snoc:
  "entries_at path (rs @ [(p, e)]) = entries_at path rs @ (if p = path then [(length rs, e)] else [])"
  by (simp add: entries_at_def enumerate_append_eq)

lemma map_of_group_by_path:
  "map_of (group_by_path rs) path = (if entries_at path rs = [] then None else Some (entries_at path rs))"
proof (induction rs rule: rev_induct)
  case Nil
  show ?case by (simp add: group_by_path_def entries_at_def)
next
  case (snoc r rs)
  obtain p e where r: "r = (p, e)" by force
  show ?case using snoc unfolding r
    by (auto simp: group_by_path_snoc entries_at_snoc map_of_alist_upsert)
qed

lemma group_keys: "fst ` set (group_by_path rs) = fst ` set rs"
proof (induction rs rule: rev_induct)
  case (snoc r rs)
  then show ?case by (cases r) (simp add: group_by_path_snoc keys_alist_upsert)
qed simp

section \<open>Patterns\<close>

lemma catch_all_inj [simp]: "catch_all q = catch_all q' \<longleftrightarrow> q = q'"
  by (simp add: catch_all_def)

lemma catch_all_not_plain [simp]: "\<not> plain (catch_all q)"
  by (simp add: plain_def catch_all_def)

definition prefix_key :: "string \<Rightarrow> bool" where
  "prefix_key p \<longleftrightarrow> plain p \<and> (p = ''/'' \<or> last p \<noteq> CHR ''/'')"

lemma plainD: "plain p \<Longrightarrow> \<exists>t. p = CHR ''/'' # t"
  by (auto simp: plain_def starts_with_iff)

lemma plain_append_slash: "plain p \<Longrightarrow> plain (p @ ''/'')"
  by (auto simp: plain_def starts_with_iff)

lemma normalize_prefix_key: "plain p \<Longrightarrow> prefix_key (normalize_prefix p)"
proof -
  assume p: "plain p"
  let ?t = "trim_end_matches (CHR ''/'') p"
  show ?thesis
  proof (cases "?t = []")
    case True
    then show ?thesis by (simp add: normalize_prefix_def prefix_key_def plain_def starts_with_iff)
  next
    case False
    obtain n where n: "p = ?t @ replicate n (CHR ''/'')" using trim_end_matches_decomp by blast
    obtain x xs where x: "?t = x # xs" using False by (cases ?t) auto
    have "set ?t \<subseteq> set p" by (subst (2) n) simp
    moreover have "x = CHR ''/''" using plainD[OF p] n x by (metis append_Cons list.inject)
    ultimately have "plain ?t" using p x by (auto simp: plain_def starts_with_iff)
    then show ?thesis using False trim_end_matches_last[OF False]
      by (simp add: normalize_prefix_def prefix_key_def)
  qed
qed

lemma prefix_patterns_ok: "plain p \<Longrightarrow> k \<in> set (prefix_patterns p) \<Longrightarrow> pattern_ok k"
  using plain_append_slash[of p]
  by (auto simp: prefix_patterns_def pattern_ok_def split: if_splits)

lemma catch_all_in_patterns:
  "plain p \<Longrightarrow> catch_all q \<in> set (prefix_patterns p) \<longleftrightarrow> (if p = ''/'' then q = [] else q = p)"
  using plain_append_slash[of p] catch_all_not_plain[of q]
  by (auto simp: prefix_patterns_def simp del: catch_all_not_plain)

lemma static_in_patterns:
  "plain k \<Longrightarrow> k \<in> set (prefix_patterns p) \<longleftrightarrow>
     (if p = ''/'' then k = ''/'' else k = p \<or> k = p @ ''/'')"
  by (auto simp: prefix_patterns_def)

lemma patterns_unique:
  assumes "prefix_key p" "prefix_key p'" "k \<in> set (prefix_patterns p)" "k \<in> set (prefix_patterns p')"
  shows "p = p'"
proof (cases "plain k")
  case True
  then show ?thesis
    using assms plainD[of p] plainD[of p']
    by (auto simp: static_in_patterns prefix_key_def split: if_splits)
next
  case False
  have "\<exists>q. k = catch_all q"
    using assms(1,3) False plain_append_slash[of p] by (auto simp: prefix_patterns_def prefix_key_def split: if_splits)
  then obtain q where q: "k = catch_all q" by blast
  have pl: "plain p" "plain p'" using assms(1,2) by (simp_all add: prefix_key_def)
  then show ?thesis
    using assms(3,4) plainD[OF pl(1)] plainD[OF pl(2)] unfolding q
    by (auto simp: catch_all_in_patterns split: if_splits)
qed

section \<open>The compiled table\<close>

definition keys_ok :: "(string \<Rightarrow> 'v option) \<Rightarrow> bool" where
  "keys_ok t \<longleftrightarrow> (\<forall>k. t k \<noteq> None \<longrightarrow> pattern_ok k)"

definition overlay :: "(string \<Rightarrow> 'v option) \<Rightarrow> (string \<times> 'v) list \<Rightarrow> string \<Rightarrow> 'v option" where
  "overlay t l k = (case t k of Some v \<Rightarrow> Some v | None \<Rightarrow> map_of l k)"

lemma overlay_Nil [simp]: "overlay t [] = t"
  by (rule ext) (simp add: overlay_def split: option.split)

lemma overlay_empty: "overlay (\<lambda>_. None) l = map_of l"
  by (rule ext) (simp add: overlay_def)

lemma overlay_overlay: "overlay (overlay t l) l' = overlay t (l @ l')"
  by (rule ext) (auto simp: overlay_def map_of_append map_add_def split: option.split)

lemma keys_ok_overlay: "keys_ok t \<Longrightarrow> \<forall>k\<in>fst ` set l. pattern_ok k \<Longrightarrow> keys_ok (overlay t l)"
  by (auto simp: keys_ok_def overlay_def split: option.splits dest!: map_of_SomeD)

lemma insert_law:
  assumes "matchit_laws mt tbl" "keys_ok (tbl r)" "pattern_ok p"
  shows "tbl (fst (mt_insert mt r p v)) = overlay (tbl r) [(p, v)]"
    and "snd (mt_insert mt r p v) = (tbl r p = None)"
proof -
  have "snd (mt_insert mt r p v) = (tbl r p = None) \<and>
      tbl (fst (mt_insert mt r p v)) = (if tbl r p = None then (tbl r)(p := Some v) else tbl r)"
    using assms unfolding matchit_laws_def keys_ok_def by blast
  then show "tbl (fst (mt_insert mt r p v)) = overlay (tbl r) [(p, v)]"
    "snd (mt_insert mt r p v) = (tbl r p = None)"
    by (auto simp: overlay_def fun_eq_iff split: option.split)
qed

lemma insert_each_table:
  assumes "matchit_laws mt tbl" "keys_ok (tbl r)" "\<forall>p\<in>set ps. pattern_ok p"
  shows "tbl (insert_each mt ps v r) = overlay (tbl r) (map (\<lambda>p. (p, v)) ps)"
  using assms(2,3)
proof (induction ps arbitrary: r)
  case (Cons p ps)
  note ins = insert_law(1)[OF assms(1) Cons.prems(1), of p v]
  have "keys_ok (overlay (tbl r) [(p, v)])" using Cons.prems by (intro keys_ok_overlay) auto
  then show ?case using Cons ins by (simp add: overlay_overlay)
qed simp

definition group_patterns :: "('b, 'net) route_entry path_groups \<Rightarrow> (string \<times> ('b, 'net) route_entry list) list" where
  "group_patterns gs =
     concat (map (\<lambda>(p, es). map (\<lambda>k. (k, sort_and_freeze es)) (prefix_patterns p)) gs)"

lemma build_prefix_table:
  assumes "matchit_laws mt tbl" "keys_ok (tbl (bs_router s))" "\<forall>g\<in>set gs. plain (fst g)"
  shows "tbl (bs_router (build_prefix mt gs s)) = overlay (tbl (bs_router s)) (group_patterns gs)"
  using assms(2,3)
proof (induction gs arbitrary: s)
  case (Cons g gs)
  obtain p es where g: "g = (p, es)" by force
  have ok: "\<forall>k\<in>set (prefix_patterns p). pattern_ok k"
    using Cons.prems(2) prefix_patterns_ok[of p] by (simp add: g)
  note ins = insert_each_table[OF assms(1) Cons.prems(1) ok, of "sort_and_freeze es"]
  have "keys_ok (overlay (tbl (bs_router s)) (map (\<lambda>k. (k, sort_and_freeze es)) (prefix_patterns p)))"
    using Cons.prems(1) ok by (intro keys_ok_overlay) auto
  then show ?case
    using Cons ins by (simp add: g Let_def note_group_def group_patterns_def overlay_overlay)
qed (simp add: group_patterns_def)

definition group_exact :: "('b, 'net) route_entry path_groups \<Rightarrow> (string \<times> ('b, 'net) route_entry list) list" where
  "group_exact gs = map (\<lambda>(p, es). (p, sort_and_freeze es)) gs"

lemma build_exact_table:
  assumes "matchit_laws mt tbl" "keys_ok (tbl (bs_router s))" "\<forall>g\<in>set gs. plain (fst g)"
    and "alist_wf gs" "\<forall>g\<in>set gs. tbl (bs_router s) (fst g) = None"
  shows "\<exists>s'. build_exact mt gs s = Inr s' \<and>
           tbl (bs_router s') = overlay (tbl (bs_router s)) (group_exact gs)"
  using assms(2-5)
proof (induction gs arbitrary: s)
  case (Cons g gs)
  obtain p es where g: "g = (p, es)" by force
  have ok: "pattern_ok p" "tbl (bs_router s) p = None" using Cons.prems by (simp_all add: g pattern_ok_def)
  note ins = insert_law[OF assms(1) Cons.prems(1) ok(1), of "sort_and_freeze es"]
  obtain r where r: "mt_insert mt (bs_router s) p (sort_and_freeze es) = (r, True)"
    using ins(2) ok(2) by (metis (full_types) prod.collapse)
  let ?s = "(note_group ExactKind p es s)\<lparr>bs_conflicts := bs_conflicts (note_group ExactKind p es s) @
      dup_conflicts p ExactKind (sort_and_freeze es), bs_router := r\<rparr>"
  have t: "tbl r = overlay (tbl (bs_router s)) [(p, sort_and_freeze es)]" using ins(1) r by simp
  have "\<exists>s'. build_exact mt gs ?s = Inr s' \<and> tbl (bs_router s') = overlay (tbl (bs_router ?s)) (group_exact gs)"
  proof (rule Cons.IH)
    show "keys_ok (tbl (bs_router ?s))" using t Cons.prems(1) ok by (simp add: keys_ok_overlay)
    show "\<forall>g\<in>set gs. plain (fst g)" "alist_wf gs" using Cons.prems by (simp_all add: alist_wf_def)
    show "\<forall>g\<in>set gs. tbl (bs_router ?s) (fst g) = None"
      using Cons.prems t by (auto simp: overlay_def alist_wf_def g split: option.split)
  qed
  then show ?case using r t by (simp add: g Let_def note_group_def group_exact_def overlay_overlay)
qed (simp add: group_exact_def)


lemma build_regex_ok:
  assumes "\<forall>g\<in>set gs. regex_ok (fst g)"
  shows "\<exists>s'. build_regex regex_ok gs s = Inr s' \<and> bs_router s' = bs_router s \<and>
           bs_regex s' = bs_regex s @ map (\<lambda>(p, es). (p, sort_and_freeze es)) gs"
  using assms
proof (induction gs arbitrary: s)
  case (Cons g gs)
  obtain p es where g: "g = (p, es)" by force
  let ?s = "(note_group RegexKind p es s)\<lparr>bs_regex := bs_regex (note_group RegexKind p es s) @ [(p, sort_and_freeze es)]\<rparr>"
  show ?case using Cons.IH[of ?s] Cons.prems by (auto simp: g Let_def note_group_def)
qed simp

definition exact_groups :: "('b, 'net) host_router_builder \<Rightarrow> ('b, 'net) route_entry path_groups" where
  "exact_groups b = group_by_path (hb_exact_routes b)"

definition prefix_groups :: "('b, 'net) host_router_builder \<Rightarrow> ('b, 'net) route_entry path_groups" where
  "prefix_groups b = group_by_path (map (\<lambda>(p, e). (normalize_prefix p, e)) (hb_prefix_routes b))"

text \<open>The registered paths a host router is built from: absolute, without parameters, and regular expressions that compile.\<close>

definition paths_ok :: "(string \<Rightarrow> bool) \<Rightarrow> ('b, 'net) host_router_builder \<Rightarrow> bool" where
  "paths_ok regex_ok b \<longleftrightarrow>
     (\<forall>r\<in>set (hb_exact_routes b). plain (fst r)) \<and> (\<forall>r\<in>set (hb_prefix_routes b). plain (fst r)) \<and>
     (\<forall>r\<in>set (hb_regex_routes b). regex_ok (fst r))"

lemma group_key_in: "g \<in> set (group_by_path rs) \<Longrightarrow> \<exists>r\<in>set rs. fst r = fst g"
  using group_keys[of rs] by (metis (no_types, lifting) image_iff)

lemma exact_groups_keys:
  assumes "paths_ok regex_ok b" "g \<in> set (exact_groups b)"
  shows "plain (fst g)"
  using group_key_in[OF assms(2)[unfolded exact_groups_def]] assms(1) by (auto simp: paths_ok_def)

lemma prefix_groups_keys:
  assumes "paths_ok regex_ok b" "g \<in> set (prefix_groups b)"
  shows "prefix_key (fst g)"
proof -
  obtain r where "r \<in> set (hb_prefix_routes b)" "fst g = normalize_prefix (fst r)"
    using group_key_in[OF assms(2)[unfolded prefix_groups_def]] by auto
  then show ?thesis using assms(1) normalize_prefix_key[of "fst r"] by (simp add: paths_ok_def)
qed

lemma build_exact_regex: "build_exact mt gs s = Inr s' \<Longrightarrow> bs_regex s' = bs_regex s"
proof (induction gs arbitrary: s)
  case (Cons g gs)
  then show ?case by (cases g) (auto simp: Let_def note_group_def split: prod.splits if_splits)
qed simp

lemma build_prefix_regex: "bs_regex (build_prefix mt gs s) = bs_regex s"
proof (induction gs arbitrary: s)
  case (Cons g gs)
  then show ?case by (cases g) (simp add: Let_def note_group_def)
qed simp

lemma build_ok:
  assumes laws: "matchit_laws mt tbl" and ok: "paths_ok regex_ok b"
  shows "\<exists>h cs. host_router_build mt regex_ok b = Inr (h, cs) \<and>
           tbl (hr_router h) = map_of (group_exact (exact_groups b) @ group_patterns (prefix_groups b)) \<and>
           hr_regex_routes h = map (\<lambda>(p, es). (p, sort_and_freeze es)) (group_by_path (hb_regex_routes b)) \<and>
           hr_normalize h = (case hb_normalize b of Some l \<Rightarrow> l | None \<Rightarrow> Base)"
proof -
  let ?s0 = "\<lparr>bs_router = mt_new mt, bs_route_info = [], bs_wire_table = [], bs_conflicts = [],
      bs_has_query = False, bs_regex = []\<rparr>"
  have empty: "tbl (mt_new mt) = (\<lambda>_. None)" using laws by (simp add: matchit_laws_def)
  have ex: "\<forall>g\<in>set (exact_groups b). plain (fst g)"
    using ok by (auto simp: paths_ok_def exact_groups_def dest!: group_key_in)
  obtain s1 where s1: "build_exact mt (exact_groups b) ?s0 = Inr s1"
    "tbl (bs_router s1) = overlay (\<lambda>_. None) (group_exact (exact_groups b))"
    using build_exact_table[OF laws, of ?s0 "exact_groups b"] ex empty group_by_path_wf
    by (auto simp: keys_ok_def exact_groups_def)
  have pf: "\<forall>g\<in>set (prefix_groups b). plain (fst g)"
    using prefix_groups_keys[OF ok] by (simp add: prefix_key_def)
  have k1: "keys_ok (tbl (bs_router s1))"
    unfolding s1(2) using ex by (intro keys_ok_overlay) (auto simp: keys_ok_def group_exact_def pattern_ok_def)
  let ?s2 = "build_prefix mt (prefix_groups b) s1"
  have s2: "tbl (bs_router ?s2) = overlay (\<lambda>_. None) (group_exact (exact_groups b) @ group_patterns (prefix_groups b))"
    using build_prefix_table[OF laws k1 pf] s1(2) by (simp add: overlay_overlay)
  have rx: "\<forall>g\<in>set (group_by_path (hb_regex_routes b)). regex_ok (fst g)"
    using ok by (auto simp: paths_ok_def dest!: group_key_in)
  obtain s3 where s3: "build_regex regex_ok (group_by_path (hb_regex_routes b)) ?s2 = Inr s3"
    "bs_router s3 = bs_router ?s2"
    "bs_regex s3 = map (\<lambda>(p, es). (p, sort_and_freeze es)) (group_by_path (hb_regex_routes b))"
    using build_regex_ok[OF rx, of ?s2] build_exact_regex[OF s1(1)]
    by (auto simp: build_prefix_regex)
  show ?thesis
    using s1(1) s2 s3 by (simp add: host_router_build_def Let_def exact_groups_def prefix_groups_def overlay_empty)
qed


section \<open>Longest prefix\<close>

definition covers :: "string \<Rightarrow> string \<Rightarrow> bool" where
  "covers p path \<longleftrightarrow>
     (if p = ''/'' then starts_with path ''/'' else path = p \<or> starts_with path (p @ ''/''))"

text \<open>
  The reference lookup: the routes registered for exactly this path, otherwise those of the
  longest registered prefix that covers it.
\<close>

definition best_group ::
  "('b, 'net) host_router_builder \<Rightarrow> string \<Rightarrow> (nat \<times> ('b, 'net) route_entry) list option" where
  "best_group b path =
     (case map_of (exact_groups b) path of
        Some es \<Rightarrow> Some es
      | None \<Rightarrow> map_option snd (max_by_key (\<lambda>(p, _). length p)
                  (filter (\<lambda>(p, _). covers p path) (prefix_groups b))))"

lemma map_of_const_pairs: "map_of (map (\<lambda>k. (k, v)) ks) k = (if k \<in> set ks then Some v else None)"
  by (induction ks) auto

lemma map_of_group_patterns:
  "map_of (group_patterns gs) k =
     map_option (\<lambda>(_, es). sort_and_freeze es) (List.find (\<lambda>(p, _). k \<in> set (prefix_patterns p)) gs)"
proof (induction gs)
  case (Cons g gs)
  obtain p es where g: "g = (p, es)" by force
  have "map_of (map (\<lambda>k. (k, sort_and_freeze es)) (prefix_patterns p)) k =
      (if k \<in> set (prefix_patterns p) then Some (sort_and_freeze es) else None)"
    by (rule map_of_const_pairs)
  then show ?case using Cons
    by (auto simp: group_patterns_def g map_of_append map_add_def split: option.split)
qed (simp add: group_patterns_def)

lemma find_unique:
  assumes "\<forall>g\<in>set gs. prefix_key (fst g)" "(p, es) \<in> set gs" "alist_wf gs" "k \<in> set (prefix_patterns p)"
  shows "List.find (\<lambda>(p, _). k \<in> set (prefix_patterns p)) gs = Some (p, es)"
proof -
  obtain p' es' where f: "List.find (\<lambda>(p, _). k \<in> set (prefix_patterns p)) gs = Some (p', es')"
    using assms(2,4) by (cases "List.find (\<lambda>(p, _). k \<in> set (prefix_patterns p)) gs") (auto simp: find_None_iff)
  have i: "(p', es') \<in> set gs" "k \<in> set (prefix_patterns p')" using find_SomeD[OF f] by auto
  have "p' = p" using assms(1,2,4) i patterns_unique[of p' p k] by force
  then have "es' = es" using i(1) assms(2,3) by (auto simp: alist_wf_def dest: eq_key_imp_eq_value)
  then show ?thesis using f \<open>p' = p\<close> by simp
qed


lemma catch_all_at_Some:
  assumes "n \<le> N" "n + 1 < length path" "path ! n = CHR ''/''" "t (catch_all (take n path)) = Some v"
    and "\<And>m. n < m \<Longrightarrow> m + 1 < length path \<Longrightarrow> path ! m = CHR ''/'' \<Longrightarrow> t (catch_all (take m path)) = None"
  shows "catch_all_at t path N = Some v"
  using assms(1)
proof (induction N)
  case 0
  then show ?case using assms(2-4) by simp
next
  case (Suc N)
  show ?case
  proof (cases "n = Suc N")
    case True
    then show ?thesis using assms(2-4) by simp
  next
    case False
    then show ?thesis using Suc assms(5)[of "Suc N"] by (auto split: option.split)
  qed
qed

lemma catch_all_at_None:
  assumes "\<And>m. m + 1 < length path \<Longrightarrow> path ! m = CHR ''/'' \<Longrightarrow> t (catch_all (take m path)) = None"
  shows "catch_all_at t path N = None"
proof (induction N)
  case 0
  then show ?case using assms[of 0] by simp
next
  case (Suc N)
  then show ?case using assms[of "Suc N"] by (auto split: option.split)
qed

lemma covers_prefix: "covers p path \<Longrightarrow> p = take (length p) path"
  by (auto simp: covers_def starts_with_iff split: if_splits)

text \<open>What a hit of the compiled table on a catch-all pattern means for the path.\<close>

lemma catch_all_hit:
  assumes "prefix_key p" "catch_all (take m path) \<in> set (prefix_patterns p)"
    and "m + 1 < length path" "path ! m = CHR ''/''"
  shows "covers p path" and "m = (if p = ''/'' then 0 else length p)"
proof -
  have pl: "plain p" using assms(1) by (simp add: prefix_key_def)
  have path: "path = take m path @ CHR ''/'' # drop (Suc m) path"
    using assms(3,4) by (metis Suc_eq_plus1 add_lessD1 id_take_nth_drop)
  have c: "if p = ''/'' then take m path = [] else take m path = p"
    using assms(2) by (simp only: catch_all_in_patterns[OF pl])
  show "covers p path"
  proof (cases "p = ''/''")
    case True
    then show ?thesis using c path by (auto simp: covers_def starts_with_iff)
  next
    case False
    then have "path = p @ CHR ''/'' # drop (Suc m) path" using c path by simp
    then show ?thesis using False unfolding covers_def starts_with_iff by auto
  qed
  show "m = (if p = ''/'' then 0 else length p)"
    using c assms(3) by (auto split: if_splits)
qed

lemma static_hit:
  assumes "plain path" "path \<in> set (prefix_patterns p)"
  shows "covers p path" and "length path \<le> (if p = ''/'' then 1 else length p + 1)"
  using assms by (auto simp: static_in_patterns covers_def starts_with_iff split: if_splits)


lemma uncovered_rest:
  assumes "prefix_key p" "covers p path" "\<not> (plain path \<and> path \<in> set (prefix_patterns p))"
  shows "\<exists>rest. path = (if p = ''/'' then [] else p) @ CHR ''/'' # rest \<and> rest \<noteq> []"
proof (cases "p = ''/''")
  case True
  then obtain t where "path = CHR ''/'' # t" using assms(2) by (auto simp: covers_def starts_with_iff)
  moreover have "t \<noteq> []" using calculation assms True by (auto simp: prefix_patterns_def prefix_key_def)
  ultimately show ?thesis using True by simp
next
  case False
  have pl: "plain p" "plain (p @ ''/'')" using assms(1) plain_append_slash by (auto simp: prefix_key_def)
  then have "path \<noteq> p" "path \<noteq> p @ ''/''" using assms(3) False by (auto simp: prefix_patterns_def)
  then show ?thesis using assms(2) False by (auto simp: covers_def starts_with_iff)
qed

lemma prefix_lookup:
  assumes keys: "\<forall>g\<in>set gs. prefix_key (fst g)" and wf: "alist_wf gs"
    and t: "\<And>k. (plain k \<longrightarrow> k = path) \<Longrightarrow> t k = map_of (group_patterns gs) k"
  shows "static_first_at t path =
           map_option (sort_and_freeze \<circ> snd)
             (max_by_key (\<lambda>(p, _). length p) (filter (\<lambda>(p, _). covers p path) gs))"
proof (cases "max_by_key (\<lambda>(p, _). length p) (filter (\<lambda>(p, _). covers p path) gs)")
  case None
  then have none: "\<not> covers p path" if "(p, es) \<in> set gs" for p es
    using that by (auto simp: filter_empty_conv)
  have "t k = None" if k: "plain k \<longrightarrow> k = path" "\<And>p es. (p, es) \<in> set gs \<Longrightarrow> k \<notin> set (prefix_patterns p)" for k
    using t[OF k(1)] k(2) by (auto simp: map_of_group_patterns find_None_iff)
  moreover have "path \<notin> set (prefix_patterns p)" if "(p, es) \<in> set gs" "plain path" for p es
    using none[OF that(1)] static_hit(1)[OF that(2)] by blast
  moreover have "catch_all (take m path) \<notin> set (prefix_patterns p)"
    if "(p, es) \<in> set gs" "m + 1 < length path" "path ! m = CHR ''/''" for p es m
    using none[OF that(1)] catch_all_hit(1)[of p m path] that keys by force
  ultimately show ?thesis
    using None by (auto simp: static_first_at_def intro!: catch_all_at_None)
next
  case (Some g)
  obtain p es where g: "g = (p, es)" by force
  have pin: "(p, es) \<in> set gs" "covers p path" using max_by_key_in[OF Some] by (auto simp: g)
  have pk: "prefix_key p" using keys pin(1) by force
  have longest: "length q \<le> length p" if q: "(q, fs) \<in> set gs" "covers q path" for q fs
    using max_by_key_ge[OF Some, of "(q, fs)"] q by (simp add: g)
  have hit: "t k = Some (sort_and_freeze es)" if "plain k \<longrightarrow> k = path" "k \<in> set (prefix_patterns p)" for k
    using t[OF that(1)] find_unique[OF keys pin(1) wf that(2)] by (simp add: map_of_group_patterns)
  have "static_first_at t path = Some (sort_and_freeze es)"
  proof (cases "plain path \<and> path \<in> set (prefix_patterns p)")
    case True
    then show ?thesis using hit[of path] by (simp add: static_first_at_def)
  next
    case False
    define q n where "q = (if p = ''/'' then [] else p)" and "n = length q"
    obtain rest where rest: "path = q @ CHR ''/'' # rest" "rest \<noteq> []"
      using uncovered_rest[OF pk pin(2) False] by (auto simp: q_def)
    then have n: "n + 1 < length path" "path ! n = CHR ''/''" "take n path = q"
      by (auto simp: n_def nth_append)
    have long: "2 \<le> length q'" if "prefix_key q'" "q' \<noteq> ''/''" for q'
      using that plainD[of q'] by (cases "tl q'") (auto simp: prefix_key_def)
    have static: "(if plain path then t path else None) = None"
    proof (cases "plain path")
      case True
      have "path \<notin> set (prefix_patterns p')" if p': "(p', es') \<in> set gs" for p' es'
      proof
        assume a: "path \<in> set (prefix_patterns p')"
        have "length p' \<le> length p" using longest[OF p'] static_hit(1)[OF True a] by blast
        moreover have "length path = length q + 1 + length rest" "0 < length rest"
          using arg_cong[OF rest(1), of length] rest(2) by simp_all
        moreover have "2 \<le> length p'" if "p' \<noteq> ''/''" using long[OF _ that] keys p' by force
        ultimately show False using static_hit(2)[OF True a] unfolding q_def
          by (cases "p' = ''/''"; cases "p = ''/''") simp_all
      qed
      then show ?thesis using t[of path] by (auto simp: map_of_group_patterns find_None_iff)
    qed simp
    have "catch_all_at t path (length path) = Some (sort_and_freeze es)"
    proof (rule catch_all_at_Some[of n])
      show "t (catch_all (take n path)) = Some (sort_and_freeze es)"
        using hit pk by (simp add: n(3) q_def catch_all_in_patterns prefix_key_def)
      fix m assume m: "n < m" "m + 1 < length path" "path ! m = CHR ''/''"
      have "catch_all (take m path) \<notin> set (prefix_patterns p')" if p': "(p', es') \<in> set gs" for p' es'
      proof
        assume a: "catch_all (take m path) \<in> set (prefix_patterns p')"
        have k: "prefix_key p'" using keys p' by force
        note h = catch_all_hit[OF k a m(2,3)]
        have "length p' \<le> length p" using longest[OF p' h(1)] .
        then show False using h(2) m(1) long[OF k] by (auto simp: n_def q_def split: if_splits)
      qed
      then show "t (catch_all (take m path)) = None"
        using t[of "catch_all (take m path)"] by (auto simp: map_of_group_patterns find_None_iff)
    qed (use n in auto)
    then show ?thesis using static by (simp add: static_first_at_def)
  qed
  then show ?thesis using Some g by simp
qed


lemma group_exact_lookup: "map_of (group_exact gs) k = map_option sort_and_freeze (map_of gs k)"
  by (simp add: group_exact_def map_of_map)

lemma table_lookup:
  assumes "paths_ok regex_ok b"
  shows "static_first_at (map_of (group_exact (exact_groups b) @ group_patterns (prefix_groups b))) path =
           map_option sort_and_freeze (best_group b path)"
proof (cases "map_of (exact_groups b) path")
  case (Some es)
  have "plain path"
    using exact_groups_keys[OF assms map_of_SomeD[OF Some]] by simp
  then show ?thesis
    using Some by (simp add: static_first_at_def best_group_def group_exact_lookup)
next
  case None
  have wf: "alist_wf (prefix_groups b)" by (simp add: prefix_groups_def group_by_path_wf)
  have "map_of (exact_groups b) k = None" if "\<not> plain k" for k
    using that exact_groups_keys[OF assms map_of_SomeD, of k]
    by (cases "map_of (exact_groups b) k") auto
  then have "map_of (group_exact (exact_groups b) @ group_patterns (prefix_groups b)) k =
      map_of (group_patterns (prefix_groups b)) k" if "plain k \<longrightarrow> k = path" for k
    using that None by (cases "plain k") (auto simp: group_exact_lookup map_add_def)
  from prefix_lookup[OF _ wf this, of path] show ?thesis
    using prefix_groups_keys[OF assms] None
    by (simp add: best_group_def option.map_comp)
qed

lemma built_router_lookup:
  assumes "matchit_laws mt tbl" and "paths_ok regex_ok b"
    and "host_router_build mt regex_ok b = Inr (h, cs)"
  shows "mt_at mt (hr_router h) path = map_option sort_and_freeze (best_group b path)"
proof -
  have t: "tbl (hr_router h) = map_of (group_exact (exact_groups b) @ group_patterns (prefix_groups b))"
    using build_ok[OF assms(1,2)] assms(3) by auto
  have "keys_ok (tbl (hr_router h))"
    unfolding t overlay_empty[symmetric]
  proof (rule keys_ok_overlay)
    have "pattern_ok k" if "(k, es) \<in> set (group_exact (exact_groups b))" for k es
      using that exact_groups_keys[OF assms(2)] by (force simp: group_exact_def pattern_ok_def)
    moreover have "pattern_ok k" if "(k, es) \<in> set (group_patterns (prefix_groups b))" for k es
    proof -
      obtain p fs where "(p, fs) \<in> set (prefix_groups b)" "k \<in> set (prefix_patterns p)"
        using \<open>(k, es) \<in> set (group_patterns (prefix_groups b))\<close> by (auto simp: group_patterns_def)
      then show ?thesis using prefix_groups_keys[OF assms(2)] prefix_patterns_ok[of p k]
        by (force simp: prefix_key_def)
    qed
    ultimately show "\<forall>k\<in>fst ` set (group_exact (exact_groups b) @ group_patterns (prefix_groups b)). pattern_ok k"
      by auto
  qed (simp add: keys_ok_def)
  then have "mt_at mt (hr_router h) path = static_first_at (tbl (hr_router h)) path"
    using assms(1) unfolding matchit_laws_def keys_ok_def by blast
  then show ?thesis using table_lookup[OF assms(2)] by (simp only: t)
qed

section \<open>Specificity\<close>

lemma first_match_find:
  "first_match env ctx es = map_option from_entry (List.find (\<lambda>e. predicates_match env (rt_predicates e) ctx) es)"
  by (induction es) auto

lemma find_map: "List.find P (map f xs) = map_option f (List.find (P \<circ> f) xs)"
  by (induction xs) auto

lemma first_match_most_specific:
  assumes "(j, e') \<in> set es" and "predicates_match env (rt_predicates e') ctx"
  shows "\<exists>(i, e)\<in>set es. first_match env ctx (sort_and_freeze es) = Some (from_entry e) \<and>
           predicates_match env (rt_predicates e) ctx \<and>
           (\<forall>(k, f)\<in>set es. predicates_match env (rt_predicates f) ctx \<longrightarrow>
              specificity_key e i \<le> specificity_key f k)"
proof -
  let ?key = "\<lambda>(idx, e). specificity_key e idx"
  let ?P = "(\<lambda>e. predicates_match env (rt_predicates e) ctx) \<circ> snd"
  let ?xs = "sort_key ?key es"
  obtain i e where f: "List.find ?P ?xs = Some (i, e)"
    using assms by (cases "List.find ?P ?xs") (auto simp: find_None_iff)
  have "(i, e) \<in> set es" "predicates_match env (rt_predicates e) ctx" using find_SomeD[OF f] by auto
  moreover have "first_match env ctx (sort_and_freeze es) = Some (from_entry e)"
    using f by (simp add: first_match_find sort_and_freeze_def find_map)
  moreover have "specificity_key e i \<le> specificity_key g k"
    if "(k, g) \<in> set es" "predicates_match env (rt_predicates g) ctx" for k g
    using sorted_find_least[OF sorted_sort_key[of ?key es] f, of "(k, g)"] that by simp
  ultimately show ?thesis by (auto intro!: bexI[of _ "(i, e)"])
qed

section \<open>Conflicts\<close>

abbreviation entry_sig :: "('b, 'net) route_entry \<Rightarrow> string" where
  "entry_sig e \<equiv> predicate_signature (rt_predicates e)"

definition sig_owner :: "(string \<times> string) list \<Rightarrow> ('b, 'net) route_entry list \<Rightarrow> string \<Rightarrow> string option" where
  "sig_owner w es s =
     (case map_of w s of
        Some x \<Rightarrow> Some x
      | None \<Rightarrow> map_option rt_route_id (List.find (\<lambda>e. entry_sig e = s) es))"

lemma dup_loop_spec:
  "distinct (map rcf_rejected_route_id (dup_loop path kind w em es)) \<and>
   rcf_rejected_route_id ` set (dup_loop path kind w em es) =
     {rt_route_id e | e. e \<in> set es \<and> sig_owner w es (entry_sig e) \<noteq> Some (rt_route_id e)} - set em"
proof (induction es arbitrary: w em)
  case (Cons a as)
  show ?case
  proof (cases "map_of w (entry_sig a)")
    case None
    have "sig_owner (alist_insert (entry_sig a) (rt_route_id a) w) as s = sig_owner w (a # as) s" for s
      using None by (auto simp: sig_owner_def map_of_alist_insert split: option.split)
    moreover have "sig_owner w (a # as) (entry_sig a) = Some (rt_route_id a)"
      using None by (simp add: sig_owner_def)
    ultimately show ?thesis using None Cons.IH by (auto simp: Let_def)
  next
    case (Some win)
    have same: "sig_owner w as s = sig_owner w (a # as) s" for s
      using Some by (auto simp: sig_owner_def split: option.split)
    have own: "sig_owner w (a # as) (entry_sig a) = Some win" using Some by (simp add: sig_owner_def)
    show ?thesis
    proof (cases "win \<noteq> rt_route_id a \<and> rt_route_id a \<notin> set em")
      case True
      then show ?thesis
        using Some Cons.IH[of w "rt_route_id a # em"] own by (auto simp: Let_def same)
    next
      case False
      then show ?thesis using Some Cons.IH[of w em] own by (auto simp: Let_def same)
    qed
  qed
qed simp

section \<open>Wildcard hosts\<close>

lemma wildcard_matches_iff:
  "wildcard_matches host suffix kind \<longleftrightarrow>
     (\<exists>prefix. host = prefix @ ''.'' @ suffix \<and> prefix \<noteq> [] \<and>
        (kind = SingleLabel \<longrightarrow> CHR ''.'' \<notin> set prefix))"
  by (auto simp: wildcard_matches_def strip_suffix_eq_Some strip_suffix_eq_None ends_with_iff split: option.splits wildcard_kind.splits)

section \<open>A reference radix router\<close>

text \<open>The documented behaviour can hold: an association list with the documented lookup.\<close>

definition alist_matchit :: "((string \<times> 'v) list, 'v) matchit" where
  "alist_matchit =
     \<lparr>mt_new = [],
      mt_insert = (\<lambda>r p v. if map_of r p = None then ((p, v) # r, True) else (r, False)),
      mt_at = (\<lambda>r path. static_first_at (map_of r) path)\<rparr>"

lemma alist_matchit_laws: "matchit_laws alist_matchit map_of"
  by (auto simp: matchit_laws_def alist_matchit_def)

definition sample_entry :: "string \<Rightarrow> string option \<Rightarrow> (unit, unit) route_entry" where
  "sample_entry rid meth =
     route_entry_new (empty_with_spec rid []) \<lparr>mp_method = meth, mp_headers = [], mp_query = []\<rparr> rid None"

definition sample_builder :: "(unit, unit) host_router_builder" where
  "sample_builder =
     add_prefix_route ''/api/'' (sample_entry ''ns/get'' (Some ''GET''))
      (add_prefix_route ''/api'' (sample_entry ''ns/any'' None)
       (add_prefix_route ''/'' (sample_entry ''ns/root'' None)
        (add_exact_route ''/health'' (sample_entry ''ns/health'' None) host_router_builder_default)))"

definition sample_router :: "((string \<times> (unit, unit) route_entry list) list, unit, unit) host_router" where
  "sample_router = fst (projr (host_router_build alist_matchit (\<lambda>_. True) sample_builder))"

definition sample_env :: match_env where
  "sample_env = \<lparr>regex_is_match = (\<lambda>_ _. False), header_to_str = Some, query_parse = (\<lambda>_. [])\<rparr>"

lemma sample_paths_ok: "paths_ok (\<lambda>_. True) sample_builder"
  by (simp add: paths_ok_def sample_builder_def add_prefix_route_def add_exact_route_def
      host_router_builder_default_def plain_def starts_with_iff)

lemma sample_built:
  "\<exists>cs. host_router_build alist_matchit (\<lambda>_. True) sample_builder = Inr (sample_router, cs)"
  using build_ok[OF alist_matchit_laws sample_paths_ok] by (auto simp: sample_router_def)

lemma sample_best:
  "best_group sample_builder ''/api/x'' = Some [(1, sample_entry ''ns/any'' None), (2, sample_entry ''ns/get'' (Some ''GET''))]"
  by (simp add: best_group_def exact_groups_def prefix_groups_def sample_builder_def add_prefix_route_def
      add_exact_route_def host_router_builder_default_def group_by_path_def normalize_prefix_def
      trim_end_matches_def covers_def starts_with_iff)


section \<open>Properties\<close>

text \<open>
  C5: a builder whose paths are absolute and free of parameters always compiles, and the
  compiled router resolves every request path to the routes registered for exactly that path,
  otherwise to those of the longest registered prefix that covers it: a prefix covers itself,
  itself with a trailing slash, and every path below it, and a trailing slash in its
  registration makes no difference.
\<close>

theorem path_lookup_longest_prefix:
  assumes "matchit_laws mt tbl" and "paths_ok regex_ok b"
  shows "\<exists>h cs. host_router_build mt regex_ok b = Inr (h, cs) \<and>
           (\<forall>path. mt_at mt (hr_router h) path = map_option sort_and_freeze (best_group b path))"
  using build_ok[OF assms] built_router_lookup[OF assms] by blast

theorem path_lookup_longest_prefix_witness:
  "\<exists>h cs. host_router_build alist_matchit (\<lambda>_. True) sample_builder = Inr (h, cs) \<and>
     mt_at alist_matchit (hr_router h) ''/api/x'' =
       Some (sort_and_freeze [(1, sample_entry ''ns/any'' None), (2, sample_entry ''ns/get'' (Some ''GET''))])"
  using path_lookup_longest_prefix[OF alist_matchit_laws sample_paths_ok] sample_best by force

text \<open>
  C31: when some route of the best slot matches the request, the router answers with a route of
  that slot that matches and that no other matching route of the slot precedes: a method match
  first, then more header matches, more query matches, the older route, the route identifier
  and the registration order.
\<close>

theorem host_route_most_specific:
  assumes "matchit_laws mt tbl" and "paths_ok regex_ok b"
    and "host_router_build mt regex_ok b = Inr (h, cs)"
    and "best_group b path = Some es" and "(j, e') \<in> set es"
    and "predicates_match env (rt_predicates e') ctx"
  shows "\<exists>(i, e)\<in>set es. host_route mt env h path ctx = Some (from_entry e) \<and>
           predicates_match env (rt_predicates e) ctx \<and>
           (\<forall>(k, f)\<in>set es. predicates_match env (rt_predicates f) ctx \<longrightarrow>
              specificity_key e i \<le> specificity_key f k)"
proof -
  have at: "mt_at mt (hr_router h) path = Some (sort_and_freeze es)"
    using built_router_lookup[OF assms(1-3)] assms(4) by simp
  show ?thesis
    using first_match_most_specific[OF assms(5,6)] at by (fastforce simp: host_route_def)
qed

theorem host_route_most_specific_witness:
  "host_route alist_matchit sample_env sample_router ''/api/x'' request_context_default =
     Some (from_entry (sample_entry ''ns/get'' (Some ''GET'')))"
proof -
  have m: "predicates_match sample_env (rt_predicates (sample_entry r meth)) request_context_default"
    if "meth = None \<or> meth = Some ''GET''" for r meth
    using that by (auto simp: predicates_match_def sample_entry_def route_entry_new_def with_filters_def
        request_context_default_def)
  obtain cs where "host_router_build alist_matchit (\<lambda>_. True) sample_builder = Inr (sample_router, cs)"
    using sample_built by blast
  from host_route_most_specific[OF alist_matchit_laws sample_paths_ok this sample_best _ m, of 1 "''ns/any''" None]
  show ?thesis using m[of None] m[of "Some ''GET''"]
    by (auto simp: specificity_key_def sample_entry_def route_entry_new_def with_filters_def)
qed

text \<open>
  the conflict report of a path names, once each, exactly the routes whose predicate
  signature already belongs to a preceding route with another identifier.
\<close>

theorem conflicts_name_shadowed_routes:
  "distinct (map rcf_rejected_route_id (dup_conflicts path kind es)) \<and>
   rcf_rejected_route_id ` set (dup_conflicts path kind es) =
     {rt_route_id e | e. e \<in> set es \<and>
        map_option rt_route_id
          (List.find (\<lambda>f. predicate_signature (rt_predicates f) = predicate_signature (rt_predicates e)) es)
        \<noteq> Some (rt_route_id e)}"
  using dup_loop_spec[of path kind "[]" "[]" es] by (simp add: dup_conflicts_def sig_owner_def)

text \<open>
  the predicate signature is ambiguous: two different predicate sets share one, because
  header names and values are joined without escaping, so two routes that no request matches
  alike are reported as a conflict.
\<close>

theorem predicate_signature_collision:
  "let hdr = (\<lambda>n v. \<lparr>hp_name = n, hp_matcher = ExactValue v\<rparr>);
       p = \<lparr>mp_method = None, mp_headers = [hdr ''x-a'' ''1,x-b=e:2''], mp_query = []\<rparr>;
       q = \<lparr>mp_method = None, mp_headers = [hdr ''x-a'' ''1'', hdr ''x-b'' ''2''], mp_query = []\<rparr>
   in predicate_signature p = predicate_signature q \<and>
      predicates_match sample_env p \<lparr>rc_method = ''GET'', rc_headers = [(''x-a'', ''1,x-b=e:2'')], rc_query = None\<rparr> \<and>
      \<not> predicates_match sample_env q \<lparr>rc_method = ''GET'', rc_headers = [(''x-a'', ''1,x-b=e:2'')], rc_query = None\<rparr>"
  by (simp add: predicate_signature_def value_sig_def predicates_match_def get_all_def sample_env_def
      value_matches_def)

text \<open>
  a wildcard host pattern matches exactly the hosts that put at least one label in front of
  its suffix; with Ingress semantics exactly one label.
\<close>

theorem wildcard_matches_spec:
  "wildcard_matches host suffix MultiLabel = (\<exists>prefix. prefix \<noteq> [] \<and> host = prefix @ ''.'' @ suffix) \<and>
   wildcard_matches host suffix SingleLabel =
     (\<exists>label. label \<noteq> [] \<and> CHR ''.'' \<notin> set label \<and> host = label @ ''.'' @ suffix)"
  by (auto simp: wildcard_matches_iff)

end
