(* ===== verification/Port_Table.thy ===== *)
theory Port_Table
  imports Host_Routing
begin

text \<open>
  The per-port host table and the top-level routing table
  (\<open>crates/coxswain-core/src/routing/common/port.rs\<close> and \<open>table.rs\<close>).  Hash maps are
  association lists, so their iteration order is any list order.  A method that hands out a
  mutable builder is a function that applies an update to it.
\<close>

section \<open>The compiled tables\<close>

record ('r, 'b, 'net) port_routing_table =
  pt_exact_hosts :: "(string \<times> ('r, 'b, 'net) host_router) list"
  pt_wildcard_hosts :: "(string \<times> wildcard_kind \<times> ('r, 'b, 'net) host_router) list"
  pt_catchall :: "('r, 'b, 'net) host_router option"

datatype host_pattern = ExactPattern string | WildcardPattern string wildcard_kind | Catchall

datatype ('b, 'net) route_outcome =
    Found "('b, 'net) route_match"
  | ErrorOutcome u16
  | NoHost
  | NoPath

definition resolve_host ::
  "('r, 'b, 'net) port_routing_table \<Rightarrow> string \<Rightarrow> ('r, 'b, 'net) host_router option" where
  "resolve_host pt host =
     (case map_of (pt_exact_hosts pt) host of
        Some r \<Rightarrow> Some r
      | None \<Rightarrow>
          (case List.find (\<lambda>(s, k, _). wildcard_matches host s k) (pt_wildcard_hosts pt) of
             Some (_, _, r) \<Rightarrow> Some r
           | None \<Rightarrow> pt_catchall pt))"

definition port_find ::
  "('r, ('b, 'net) route_entry list) matchit \<Rightarrow> match_env \<Rightarrow> ('r, 'b, 'net) port_routing_table
     \<Rightarrow> string \<Rightarrow> string \<Rightarrow> request_context \<Rightarrow> ('b, 'net) route_outcome" where
  "port_find mt env pt host path ctx =
     (case resolve_host pt host of
        None \<Rightarrow> NoHost
      | Some router \<Rightarrow>
          (let normalized = normalize_apply (hr_normalize router) path in
           case host_route mt env router (cow_str normalized) ctx of
             Some m \<Rightarrow>
               (let m = (case normalized of
                           Owned s \<Rightarrow> m\<lparr>rm_normalized_path := Some s\<rparr> | Borrowed _ \<Rightarrow> m)
                in case rm_error_status m of
                     Some status \<Rightarrow> ErrorOutcome status
                   | None \<Rightarrow> Found m)
           | None \<Rightarrow> NoPath))"

definition port_route ::
  "('r, ('b, 'net) route_entry list) matchit \<Rightarrow> match_env \<Rightarrow> ('r, 'b, 'net) port_routing_table
     \<Rightarrow> string \<Rightarrow> string \<Rightarrow> request_context \<Rightarrow> 'b filter_action backend_group option" where
  "port_route mt env pt host path ctx =
     (let router = (case map_of (pt_exact_hosts pt) host of
                      Some r \<Rightarrow> Some r
                    | None \<Rightarrow> map_option (\<lambda>(_, _, r). r)
                        (List.find (\<lambda>(s, k, _). wildcard_matches host s k) (pt_wildcard_hosts pt)));
          hit = (case router of Some r \<Rightarrow> host_route mt env r path ctx | None \<Rightarrow> None)
      in case hit of
           Some m \<Rightarrow> Some (rm_backend_group m)
         | None \<Rightarrow>
             (case pt_catchall pt of
                None \<Rightarrow> None
              | Some r \<Rightarrow> map_option rm_backend_group (host_route mt env r path ctx)))"

fun trim_start_star :: "string \<Rightarrow> string" where
  "trim_start_star (a # b # s) =
     (if a = CHR ''*'' \<and> b = CHR ''.'' then trim_start_star s else a # b # s)"
| "trim_start_star s = s"

definition port_host_routes ::
  "('r, 'b, 'net) port_routing_table \<Rightarrow> (string \<times> ('r, 'b, 'net) host_router) list" where
  "port_host_routes pt =
     pt_exact_hosts pt @ map (\<lambda>(suffix, _, r). (''*.'' @ suffix, r)) (pt_wildcard_hosts pt) @
     (case pt_catchall pt of Some r \<Rightarrow> [(''*'', r)] | None \<Rightarrow> [])"

definition host_views ::
  "('r, 'b, 'net) port_routing_table \<Rightarrow> (host_pattern \<times> ('r, 'b, 'net) host_router) list" where
  "host_views pt =
     map (\<lambda>(h, r). (ExactPattern h, r)) (pt_exact_hosts pt) @
     map (\<lambda>(suffix, k, r). (WildcardPattern suffix k, r)) (pt_wildcard_hosts pt) @
     (case pt_catchall pt of Some r \<Rightarrow> [(Catchall, r)] | None \<Rightarrow> [])"

definition port_get_compiled ::
  "('r, 'b, 'net) port_routing_table \<Rightarrow> string option \<Rightarrow> wildcard_kind
     \<Rightarrow> ('r, 'b, 'net) host_router option" where
  "port_get_compiled pt hostname_opt kind =
     (case hostname_opt of
        None \<Rightarrow> pt_catchall pt
      | Some h \<Rightarrow>
          if starts_with h ''*.'' then
            (let suffix = trim_start_star h in
             map_option (\<lambda>(_, _, r). r)
               (List.find (\<lambda>(s, k, _). s = suffix \<and> k = kind) (pt_wildcard_hosts pt)))
          else map_of (pt_exact_hosts pt) h)"

section \<open>The port builder\<close>

record ('r, 'b, 'net) port_table_builder =
  pb_exact_hosts :: "(string \<times> ('b, 'net) host_router_builder) list"
  pb_wildcard_hosts :: "((string \<times> wildcard_kind) \<times> ('b, 'net) host_router_builder) list"
  pb_catchall :: "('b, 'net) host_router_builder option"
  pb_compiled_exact_hosts :: "(string \<times> ('r, 'b, 'net) host_router) list"
  pb_compiled_wildcard_hosts :: "(string \<times> wildcard_kind \<times> ('r, 'b, 'net) host_router) list"
  pb_compiled_catchall :: "('r, 'b, 'net) host_router option"

type_synonym ('b, 'net) host_update = "('b, 'net) host_router_builder \<Rightarrow> ('b, 'net) host_router_builder"

definition port_table_builder_default :: "('r, 'b, 'net) port_table_builder" where
  "port_table_builder_default =
     \<lparr>pb_exact_hosts = [], pb_wildcard_hosts = [], pb_catchall = None, pb_compiled_exact_hosts = [],
      pb_compiled_wildcard_hosts = [], pb_compiled_catchall = None\<rparr>"

definition exact_host ::
  "string \<Rightarrow> ('b, 'net) host_update \<Rightarrow> ('r, 'b, 'net) port_table_builder \<Rightarrow> ('r, 'b, 'net) port_table_builder" where
  "exact_host hostname f b =
     b\<lparr>pb_exact_hosts := alist_upsert hostname host_router_builder_default f (pb_exact_hosts b)\<rparr>"

definition wildcard_host ::
  "string \<Rightarrow> wildcard_kind \<Rightarrow> ('b, 'net) host_update \<Rightarrow> ('r, 'b, 'net) port_table_builder
     \<Rightarrow> ('r, 'b, 'net) port_table_builder" where
  "wildcard_host pat kind f b =
     b\<lparr>pb_wildcard_hosts :=
         alist_upsert (trim_start_star pat, kind) host_router_builder_default f (pb_wildcard_hosts b)\<rparr>"

definition catchall_host ::
  "('b, 'net) host_update \<Rightarrow> ('r, 'b, 'net) port_table_builder \<Rightarrow> ('r, 'b, 'net) port_table_builder" where
  "catchall_host f b =
     b\<lparr>pb_catchall := Some (f (case pb_catchall b of Some h \<Rightarrow> h | None \<Rightarrow> host_router_builder_default))\<rparr>"

definition insert_compiled_exact_host ::
  "string \<Rightarrow> ('r, 'b, 'net) host_router \<Rightarrow> ('r, 'b, 'net) port_table_builder \<Rightarrow> ('r, 'b, 'net) port_table_builder" where
  "insert_compiled_exact_host hostname r b =
     b\<lparr>pb_compiled_exact_hosts := alist_insert hostname r (pb_compiled_exact_hosts b)\<rparr>"

definition insert_compiled_wildcard_host ::
  "string \<Rightarrow> wildcard_kind \<Rightarrow> ('r, 'b, 'net) host_router \<Rightarrow> ('r, 'b, 'net) port_table_builder
     \<Rightarrow> ('r, 'b, 'net) port_table_builder" where
  "insert_compiled_wildcard_host pat kind r b =
     b\<lparr>pb_compiled_wildcard_hosts := pb_compiled_wildcard_hosts b @ [(trim_start_star pat, kind, r)]\<rparr>"

definition insert_compiled_catchall ::
  "('r, 'b, 'net) host_router \<Rightarrow> ('r, 'b, 'net) port_table_builder \<Rightarrow> ('r, 'b, 'net) port_table_builder" where
  "insert_compiled_catchall r b = b\<lparr>pb_compiled_catchall := Some r\<rparr>"

definition host_for ::
  "string option \<Rightarrow> wildcard_kind \<Rightarrow> ('b, 'net) host_update \<Rightarrow> ('r, 'b, 'net) port_table_builder
     \<Rightarrow> ('r, 'b, 'net) port_table_builder" where
  "host_for host kind f b =
     (case host of
        None \<Rightarrow> catchall_host f b
      | Some h \<Rightarrow> if starts_with h ''*.'' then wildcard_host h kind f b else exact_host h f b)"

definition stamp :: "u16 \<Rightarrow> string \<Rightarrow> route_conflict list \<Rightarrow> route_conflict list" where
  "stamp port host cs = map (\<lambda>c. c\<lparr>rcf_port := port, rcf_host := host\<rparr>) cs"

fun build_hosts ::
  "('r, ('b, 'net) route_entry list) matchit \<Rightarrow> (string \<Rightarrow> bool) \<Rightarrow> u16 \<Rightarrow> ('k \<Rightarrow> string)
     \<Rightarrow> ('k \<times> ('b, 'net) host_router_builder) list
     \<Rightarrow> router_error + ('k \<times> ('r, 'b, 'net) host_router) list \<times> route_conflict list" where
  "build_hosts mt regex_ok port show_host [] = Inr ([], [])"
| "build_hosts mt regex_ok port show_host ((k, b) # hs) =
     (case host_router_build mt regex_ok b of
        Inl e \<Rightarrow> Inl e
      | Inr (r, cs) \<Rightarrow>
          (case build_hosts mt regex_ok port show_host hs of
             Inl e \<Rightarrow> Inl e
           | Inr (rs, cs') \<Rightarrow> Inr ((k, r) # rs, stamp port (show_host k) cs @ cs')))"

definition wildcard_rank :: "string \<times> wildcard_kind \<times> 'h \<Rightarrow> int \<times> nat" where
  "wildcard_rank w = (case w of (s, k, _) \<Rightarrow> (- int (length s), if k = MultiLabel then 1 else 0))"

definition port_build ::
  "('r, ('b, 'net) route_entry list) matchit \<Rightarrow> (string \<Rightarrow> bool) \<Rightarrow> u16
     \<Rightarrow> ('r, 'b, 'net) port_table_builder
     \<Rightarrow> router_error + ('r, 'b, 'net) port_routing_table \<times> route_conflict list" where
  "port_build mt regex_ok port b =
     (case build_hosts mt regex_ok port (\<lambda>h. h) (pb_exact_hosts b) of
        Inl e \<Rightarrow> Inl e
      | Inr (exact, cs1) \<Rightarrow>
     (case build_hosts mt regex_ok port (\<lambda>(suffix, _). ''*.'' @ suffix) (pb_wildcard_hosts b) of
        Inl e \<Rightarrow> Inl e
      | Inr (wild, cs2) \<Rightarrow>
     (case (case pb_compiled_catchall b of
              Some compiled \<Rightarrow> Inr (Some compiled, [])
            | None \<Rightarrow>
                (case pb_catchall b of
                   None \<Rightarrow> Inr (None, [])
                 | Some hb \<Rightarrow>
                     (case host_router_build mt regex_ok hb of
                        Inl e \<Rightarrow> Inl e
                      | Inr (r, cs) \<Rightarrow> Inr (Some r, stamp port ''*'' cs)))) of
        Inl e \<Rightarrow> Inl e
      | Inr (cat, cs3) \<Rightarrow>
          Inr (\<lparr>pt_exact_hosts = foldl (\<lambda>m (h, r). alist_insert h r m) exact (pb_compiled_exact_hosts b),
                pt_wildcard_hosts = sort_key wildcard_rank
                  (map (\<lambda>((s, k), r). (s, k, r)) wild @ pb_compiled_wildcard_hosts b),
                pt_catchall = cat\<rparr>, cs1 @ cs2 @ cs3))))"

section \<open>The routing table\<close>

record ('r, 'b, 'net) routing_table =
  rtb_by_port :: "(u16 \<times> ('r, 'b, 'net) port_routing_table) list"
  rtb_conflicts :: "route_conflict list"

definition table_find ::
  "('r, ('b, 'net) route_entry list) matchit \<Rightarrow> match_env \<Rightarrow> ('r, 'b, 'net) routing_table \<Rightarrow> u16
     \<Rightarrow> string \<Rightarrow> string \<Rightarrow> request_context \<Rightarrow> ('b, 'net) route_outcome" where
  "table_find mt env t port host path ctx =
     (case map_of (rtb_by_port t) port of
        Some pt \<Rightarrow> port_find mt env pt host path ctx
      | None \<Rightarrow> NoHost)"

definition table_route ::
  "('r, ('b, 'net) route_entry list) matchit \<Rightarrow> match_env \<Rightarrow> ('r, 'b, 'net) routing_table \<Rightarrow> u16
     \<Rightarrow> string \<Rightarrow> string \<Rightarrow> request_context \<Rightarrow> 'b filter_action backend_group option" where
  "table_route mt env t port host path ctx =
     (case map_of (rtb_by_port t) port of
        Some pt \<Rightarrow> port_route mt env pt host path ctx
      | None \<Rightarrow> None)"

definition table_host_routes ::
  "('r, 'b, 'net) routing_table \<Rightarrow> (u16 \<times> string \<times> ('r, 'b, 'net) host_router) list" where
  "table_host_routes t =
     concat (map (\<lambda>(port, pt). map (\<lambda>(h, r). (port, h, r)) (port_host_routes pt)) (rtb_by_port t))"

definition host_names :: "('r, 'b, 'net) routing_table \<Rightarrow> string list" where
  "host_names t = concat (map (\<lambda>(_, pt). map fst (port_host_routes pt)) (rtb_by_port t))"

definition host_count :: "('r, 'b, 'net) routing_table \<Rightarrow> nat" where
  "host_count t =
     sum_list (map (\<lambda>(_, pt). length (pt_exact_hosts pt) + length (pt_wildcard_hosts pt)) (rtb_by_port t))"

definition table_get_compiled ::
  "('r, 'b, 'net) routing_table \<Rightarrow> u16 \<Rightarrow> string option \<Rightarrow> wildcard_kind
     \<Rightarrow> ('r, 'b, 'net) host_router option" where
  "table_get_compiled t port hostname_opt kind =
     (case map_of (rtb_by_port t) port of
        None \<Rightarrow> None | Some pt \<Rightarrow> port_get_compiled pt hostname_opt kind)"

record ('r, 'b, 'net) routing_table_builder =
  tb_by_port :: "(u16 \<times> ('r, 'b, 'net) port_table_builder) list"
  tb_extra_conflicts :: "route_conflict list"

definition routing_table_builder_new :: "('r, 'b, 'net) routing_table_builder" where
  "routing_table_builder_new = \<lparr>tb_by_port = [], tb_extra_conflicts = []\<rparr>"

definition for_port ::
  "u16 \<Rightarrow> (('r, 'b, 'net) port_table_builder \<Rightarrow> ('r, 'b, 'net) port_table_builder)
     \<Rightarrow> ('r, 'b, 'net) routing_table_builder \<Rightarrow> ('r, 'b, 'net) routing_table_builder" where
  "for_port port f b =
     b\<lparr>tb_by_port := alist_upsert port port_table_builder_default f (tb_by_port b)\<rparr>"

definition extend_conflicts ::
  "route_conflict list \<Rightarrow> ('r, 'b, 'net) routing_table_builder \<Rightarrow> ('r, 'b, 'net) routing_table_builder" where
  "extend_conflicts cs b = b\<lparr>tb_extra_conflicts := tb_extra_conflicts b @ cs\<rparr>"

fun build_ports ::
  "('r, ('b, 'net) route_entry list) matchit \<Rightarrow> (string \<Rightarrow> bool)
     \<Rightarrow> (u16 \<times> ('r, 'b, 'net) port_table_builder) list \<Rightarrow> ('r, 'b, 'net) routing_table
     \<Rightarrow> router_error + ('r, 'b, 'net) routing_table" where
  "build_ports mt regex_ok [] t = Inr t"
| "build_ports mt regex_ok ((port, pb) # ps) t =
     (case port_build mt regex_ok port pb of
        Inl e \<Rightarrow> Inl e
      | Inr (pt, cs) \<Rightarrow>
          build_ports mt regex_ok ps
            (t\<lparr>rtb_by_port := alist_insert port pt (rtb_by_port t), rtb_conflicts := rtb_conflicts t @ cs\<rparr>))"

definition table_build ::
  "('r, ('b, 'net) route_entry list) matchit \<Rightarrow> (string \<Rightarrow> bool) \<Rightarrow> ('r, 'b, 'net) routing_table_builder
     \<Rightarrow> router_error + ('r, 'b, 'net) routing_table" where
  "table_build mt regex_ok b =
     build_ports mt regex_ok (tb_by_port b) \<lparr>rtb_by_port = [], rtb_conflicts = tb_extra_conflicts b\<rparr>"

section \<open>Host resolution\<close>

lemma port_build_sorted:
  assumes "port_build mt regex_ok port b = Inr (pt, cs)"
  shows "sorted (map wildcard_rank (pt_wildcard_hosts pt))"
  using assms by (auto simp: port_build_def sorted_sort_key split: sum.splits option.splits)

lemma build_hosts_Inr:
  assumes "build_hosts mt regex_ok port sh hs = Inr (rs, cs)"
  shows "map_of rs k = (case map_of hs k of
           None \<Rightarrow> None
         | Some b \<Rightarrow> (case host_router_build mt regex_ok b of Inr (r, _) \<Rightarrow> Some r | Inl _ \<Rightarrow> None))"
  using assms
proof (induction hs arbitrary: rs cs)
  case (Cons h hs)
  then show ?case by (cases h) (auto split: sum.splits)
qed simp

lemma build_hosts_append:
  "build_hosts mt regex_ok port sh (hs @ hs') =
     (case build_hosts mt regex_ok port sh hs of
        Inl e \<Rightarrow> Inl e
      | Inr (rs, cs) \<Rightarrow>
          (case build_hosts mt regex_ok port sh hs' of
             Inl e \<Rightarrow> Inl e
           | Inr (rs', cs') \<Rightarrow> Inr (rs @ rs', cs @ cs')))"
proof (induction hs)
  case (Cons h hs)
  then show ?case by (cases h) (auto split: sum.splits)
qed (auto split: sum.splits)

lemma map_of_foldl_insert:
  "map_of (foldl (\<lambda>m (h, r). alist_insert h r m) m0 l) k =
     (case map_of (rev l) k of Some r \<Rightarrow> Some r | None \<Rightarrow> map_of m0 k)"
  by (induction l arbitrary: m0) (auto simp: map_of_alist_insert map_add_def split: option.splits)

lemma wildcard_rank_le:
  "wildcard_rank (s', k', r') \<le> wildcard_rank (s, k, r) \<longleftrightarrow>
     length s < length s' \<or> length s = length s' \<and> (k' = SingleLabel \<or> k = MultiLabel)"
  by (cases k; cases k') (auto simp: wildcard_rank_def less_eq_prod_def)

lemma resolve_host_wildcard:
  assumes "port_build mt regex_ok port b = Inr (pt, cs)"
    and "map_of (pt_exact_hosts pt) host = None"
    and "(s, k, r) \<in> set (pt_wildcard_hosts pt)" and "wildcard_matches host s k"
  shows "\<exists>(s', k', r')\<in>set (pt_wildcard_hosts pt). resolve_host pt host = Some r' \<and>
           wildcard_matches host s' k' \<and>
           (length s < length s' \<or> length s = length s' \<and> (k' = SingleLabel \<or> k = MultiLabel))"
proof -
  let ?P = "\<lambda>(s, k, _). wildcard_matches host s k"
  obtain w where f: "List.find ?P (pt_wildcard_hosts pt) = Some w"
    using assms(3,4) by (cases "List.find ?P (pt_wildcard_hosts pt)") (auto simp: find_None_iff)
  have "wildcard_rank w \<le> wildcard_rank (s, k, r)"
    using sorted_find_least[OF port_build_sorted[OF assms(1)] f assms(3)] assms(4) by simp
  then show ?thesis using f find_SomeD[OF f] assms(2)
    by (cases w) (auto simp: resolve_host_def wildcard_rank_le intro!: bexI[of _ w])
qed

section \<open>Reuse of compiled hosts\<close>

lemma alist_upsert_fresh: "k \<notin> fst ` set m \<Longrightarrow> alist_upsert k d f m = m @ [(k, f d)]"
  by (induction m) auto

lemma port_build_reuse:
  assumes fresh: "h \<notin> fst ` set (pb_exact_hosts b)" "h \<notin> fst ` set (pb_compiled_exact_hosts b)"
    and r: "host_router_build mt regex_ok (f host_router_builder_default) = Inr (r, cs0)"
    and full: "port_build mt regex_ok port (exact_host h f b) = Inr (pt, cs)"
  shows "\<exists>pt' cs'. port_build mt regex_ok port (insert_compiled_exact_host h r b) = Inr (pt', cs') \<and>
           (\<forall>x. map_of (pt_exact_hosts pt') x = map_of (pt_exact_hosts pt) x) \<and>
           pt_wildcard_hosts pt' = pt_wildcard_hosts pt \<and> pt_catchall pt' = pt_catchall pt"
proof -
  have e: "pb_exact_hosts (exact_host h f b) = pb_exact_hosts b @ [(h, f host_router_builder_default)]"
    using fresh(1) by (simp add: exact_host_def alist_upsert_fresh)
  have c: "pb_compiled_exact_hosts (insert_compiled_exact_host h r b) = pb_compiled_exact_hosts b @ [(h, r)]"
    using fresh(2) by (simp add: insert_compiled_exact_host_def alist_insert_fresh)
  obtain ex cs1 where ex: "build_hosts mt regex_ok port (\<lambda>h. h) (pb_exact_hosts b) = Inr (ex, cs1)"
    using full unfolding port_build_def e build_hosts_append by (auto split: sum.splits)
  have "map_of (pb_exact_hosts b) h = None" using fresh(1) by (simp add: map_of_eq_None_iff)
  then have none: "map_of ex h = None" by (simp add: build_hosts_Inr[OF ex])
  have crev: "map_of (rev (pb_compiled_exact_hosts b)) h = None"
    using fresh(2) by (simp add: map_of_eq_None_iff)
  have exact: "build_hosts mt regex_ok port (\<lambda>h. h) (pb_exact_hosts b @ [(h, f host_router_builder_default)]) =
      Inr (ex @ [(h, r)], cs1 @ stamp port h cs0)"
    using ex r by (simp add: build_hosts_append)
  let ?fold = "foldl (\<lambda>m (h, r). alist_insert h r m)"
  have same: "map_of (?fold ex (pb_compiled_exact_hosts b @ [(h, r)])) x =
      map_of (?fold (ex @ [(h, r)]) (pb_compiled_exact_hosts b)) x" for x
    using none crev unfolding map_of_foldl_insert by (auto simp: map_add_def split: option.split)
  have rest: "pb_wildcard_hosts (exact_host h f b) = pb_wildcard_hosts b"
    "pb_compiled_wildcard_hosts (exact_host h f b) = pb_compiled_wildcard_hosts b"
    "pb_compiled_exact_hosts (exact_host h f b) = pb_compiled_exact_hosts b"
    "pb_catchall (exact_host h f b) = pb_catchall b"
    "pb_compiled_catchall (exact_host h f b) = pb_compiled_catchall b"
    "pb_exact_hosts (insert_compiled_exact_host h r b) = pb_exact_hosts b"
    "pb_wildcard_hosts (insert_compiled_exact_host h r b) = pb_wildcard_hosts b"
    "pb_compiled_wildcard_hosts (insert_compiled_exact_host h r b) = pb_compiled_wildcard_hosts b"
    "pb_catchall (insert_compiled_exact_host h r b) = pb_catchall b"
    "pb_compiled_catchall (insert_compiled_exact_host h r b) = pb_compiled_catchall b"
    by (simp_all add: exact_host_def insert_compiled_exact_host_def)
  show ?thesis
    using full same unfolding port_build_def rest e c exact ex
    by (auto split: sum.splits option.splits)
qed

section \<open>Builds succeed\<close>

definition port_paths_ok :: "(string \<Rightarrow> bool) \<Rightarrow> ('r, 'b, 'net) port_table_builder \<Rightarrow> bool" where
  "port_paths_ok regex_ok b \<longleftrightarrow>
     (\<forall>h\<in>set (pb_exact_hosts b). paths_ok regex_ok (snd h)) \<and>
     (\<forall>h\<in>set (pb_wildcard_hosts b). paths_ok regex_ok (snd h)) \<and>
     (\<forall>h. pb_catchall b = Some h \<longrightarrow> paths_ok regex_ok h)"

lemma build_hosts_total:
  assumes "matchit_laws mt tbl" "\<forall>h\<in>set hs. paths_ok regex_ok (snd h)"
  shows "\<exists>rs cs. build_hosts mt regex_ok port sh hs = Inr (rs, cs)"
  using assms(2)
proof (induction hs)
  case (Cons h hs)
  obtain k b where h: "h = (k, b)" by force
  have "paths_ok regex_ok b" using Cons.prems by (simp add: h)
  from build_ok[OF assms(1) this] show ?case using Cons by (auto simp: h)
qed simp

lemma port_build_total:
  assumes "matchit_laws mt tbl" "port_paths_ok regex_ok b"
  shows "\<exists>pt cs. port_build mt regex_ok port b = Inr (pt, cs)"
proof -
  have ok: "\<forall>h\<in>set (pb_exact_hosts b). paths_ok regex_ok (snd h)"
    "\<forall>h\<in>set (pb_wildcard_hosts b). paths_ok regex_ok (snd h)"
    "\<And>h. pb_catchall b = Some h \<Longrightarrow> paths_ok regex_ok h"
    using assms(2) by (auto simp: port_paths_ok_def)
  obtain ex cs1 where ex: "build_hosts mt regex_ok port (\<lambda>h. h) (pb_exact_hosts b) = Inr (ex, cs1)"
    using build_hosts_total[OF assms(1) ok(1)] by blast
  obtain wi cs2 where wi: "build_hosts mt regex_ok port (\<lambda>(suffix, _). ''*.'' @ suffix) (pb_wildcard_hosts b) = Inr (wi, cs2)"
    using build_hosts_total[OF assms(1) ok(2)] by blast
  have ca: "\<exists>h cs. host_router_build mt regex_ok hb = Inr (h, cs)" if "pb_catchall b = Some hb" for hb
    using build_ok[OF assms(1) ok(3)[OF that]] by blast
  show ?thesis using ca unfolding port_build_def ex wi
    by (cases "pb_compiled_catchall b"; cases "pb_catchall b") fastforce+
qed

lemma build_ports_total:
  assumes "matchit_laws mt tbl" "\<forall>p\<in>set ps. port_paths_ok regex_ok (snd p)"
  shows "\<exists>t'. build_ports mt regex_ok ps t = Inr t'"
  using assms(2)
proof (induction ps arbitrary: t)
  case (Cons p ps)
  obtain port b where p: "p = (port, b)" by force
  obtain pt cs where "port_build mt regex_ok port b = Inr (pt, cs)"
    using port_build_total[OF assms(1), of regex_ok b port] Cons.prems by (auto simp: p)
  then show ?case using Cons by (simp add: p)
qed simp

section \<open>Lookup\<close>

lemma first_match_raw: "first_match env ctx es = Some m \<Longrightarrow> rm_normalized_path m = None"
  by (induction es) (auto simp: from_entry_def split: if_splits)

lemma regex_fallback_raw: "regex_fallback env ctx path rs = Some m \<Longrightarrow> rm_normalized_path m = None"
  by (induction env ctx path rs rule: regex_fallback.induct)
     (auto split: if_splits option.splits dest: first_match_raw)

lemma host_route_raw: "host_route mt env h path ctx = Some m \<Longrightarrow> rm_normalized_path m = None"
  by (auto simp: host_route_def split: option.splits dest: first_match_raw regex_fallback_raw)

lemma apply_cases:
  obtains "normalize_apply level path = Borrowed path"
  | s where "normalize_apply level path = Owned s" "s \<noteq> path"
proof (cases "normalize_apply level path")
  case (Borrowed s)
  then have "s = path" by (auto simp: normalize_apply_def Let_def split: if_splits)
  then show ?thesis using that(1) Borrowed by simp
next
  case (Owned s)
  then have "s \<noteq> path" by (auto simp: normalize_apply_def Let_def split: if_splits)
  then show ?thesis using that(2) Owned by blast
qed

lemma port_find_Found:
  assumes "port_find mt env pt host path ctx = Found m"
  obtains r p where "resolve_host pt host = Some r" "p = cow_str (normalize_apply (hr_normalize r) path)"
    "(case rm_normalized_path m of Some s \<Rightarrow> s | None \<Rightarrow> path) = p" "rm_error_status m = None"
    "host_route mt env r p ctx = Some (m\<lparr>rm_normalized_path := None\<rparr>)"
proof -
  obtain r where r: "resolve_host pt host = Some r"
    using assms by (cases "resolve_host pt host") (auto simp: port_find_def)
  let ?p = "cow_str (normalize_apply (hr_normalize r) path)"
  obtain m0 where m0: "host_route mt env r ?p ctx = Some m0"
    using assms r by (cases "host_route mt env r ?p ctx") (auto simp: port_find_def Let_def)
  have raw: "rm_normalized_path m0 = None" by (rule host_route_raw) (rule m0)
  then have m0': "m0\<lparr>rm_normalized_path := None\<rparr> = m0" by simp
  show ?thesis
  proof (cases rule: apply_cases[of "hr_normalize r" path])
    case 1
    then have "m = m0 \<and> rm_error_status m = None"
      using assms r m0 by (auto simp: port_find_def Let_def split: option.splits)
    then show ?thesis using that[OF r refl] m0 raw m0' 1 by auto
  next
    case (2 s)
    then have "m = m0\<lparr>rm_normalized_path := Some s\<rparr> \<and> rm_error_status m = None"
      using assms r m0 by (auto simp: port_find_def Let_def split: option.splits)
    then show ?thesis using that[OF r refl] m0 raw m0' 2 by auto
  qed
qed

section \<open>A concrete port\<close>

definition sample_port :: "((string \<times> (unit, unit) route_entry list) list, unit, unit) port_table_builder" where
  "sample_port =
     host_for (Some ''*.example.com'') MultiLabel (add_prefix_route ''/'' (sample_entry ''ns/wild'' None))
      (host_for (Some ''*.api.example.com'') SingleLabel (add_prefix_route ''/'' (sample_entry ''ns/api'' None))
       (host_for None MultiLabel (add_prefix_route ''/'' (sample_entry ''ns/any'' None))
        port_table_builder_default))"

lemma sample_port_hosts:
  "pb_exact_hosts sample_port = []"
  "pb_wildcard_hosts sample_port =
     [((''api.example.com'', SingleLabel), add_prefix_route ''/'' (sample_entry ''ns/api'' None) host_router_builder_default),
      ((''example.com'', MultiLabel), add_prefix_route ''/'' (sample_entry ''ns/wild'' None) host_router_builder_default)]"
  "pb_catchall sample_port = Some (add_prefix_route ''/'' (sample_entry ''ns/any'' None) host_router_builder_default)"
  "pb_compiled_exact_hosts sample_port = []" "pb_compiled_wildcard_hosts sample_port = []"
  "pb_compiled_catchall sample_port = None"
  by (simp_all add: sample_port_def host_for_def wildcard_host_def catchall_host_def
      port_table_builder_default_def starts_with_iff)

lemma sample_port_ok: "port_paths_ok (\<lambda>_. True) sample_port"
  by (simp add: port_paths_ok_def sample_port_hosts paths_ok_def add_prefix_route_def
      host_router_builder_default_def plain_def starts_with_iff)

definition sample_port_table :: "((string \<times> (unit, unit) route_entry list) list, unit, unit) port_routing_table" where
  "sample_port_table = fst (projr (port_build alist_matchit (\<lambda>_. True) 80 sample_port))"

lemma sample_port_built: "\<exists>cs. port_build alist_matchit (\<lambda>_. True) 80 sample_port = Inr (sample_port_table, cs)"
  using port_build_total[OF alist_matchit_laws sample_port_ok, of 80] by (auto simp: sample_port_table_def)

lemma sample_port_table_eq:
  "\<exists>r1 r2 r3. sample_port_table =
     \<lparr>pt_exact_hosts = [],
      pt_wildcard_hosts = [(''api.example.com'', SingleLabel, r1), (''example.com'', MultiLabel, r2)],
      pt_catchall = Some r3\<rparr>"
proof -
  have "\<exists>h cs. host_router_build alist_matchit (\<lambda>_. True)
      (add_prefix_route ''/'' (sample_entry i None) host_router_builder_default) = Inr (h, cs)" for i
  proof -
    have "paths_ok (\<lambda>_. True) (add_prefix_route ''/'' (sample_entry i None) host_router_builder_default)"
      by (simp add: paths_ok_def add_prefix_route_def host_router_builder_default_def plain_def starts_with_iff)
    from build_ok[OF alist_matchit_laws this] show ?thesis by blast
  qed
  then obtain r1 r2 r3 c1 c2 c3 where
    "host_router_build alist_matchit (\<lambda>_. True)
       (add_prefix_route ''/'' (sample_entry ''ns/api'' None) host_router_builder_default) = Inr (r1, c1)"
    "host_router_build alist_matchit (\<lambda>_. True)
       (add_prefix_route ''/'' (sample_entry ''ns/wild'' None) host_router_builder_default) = Inr (r2, c2)"
    "host_router_build alist_matchit (\<lambda>_. True)
       (add_prefix_route ''/'' (sample_entry ''ns/any'' None) host_router_builder_default) = Inr (r3, c3)"
    by meson
  then show ?thesis
    by (simp add: sample_port_table_def port_build_def sample_port_hosts wildcard_rank_le)
qed

lemma catch_all_at_raw: "\<forall>k. t (catch_all k) = None \<Longrightarrow> catch_all_at t path n = None"
  by (rule catch_all_at_None) simp

section \<open>Properties\<close>

text \<open>
  C30: the host decides the router in the documented order: an exact entry first, then the
  wildcard entry with the longest matching suffix (single-label semantics before multi-label
  on equal suffixes), and the catch-all only when neither matches.
\<close>

theorem host_resolution_order:
  assumes "port_build mt regex_ok port b = Inr (pt, cs)"
  shows "(\<forall>r. map_of (pt_exact_hosts pt) host = Some r \<longrightarrow> resolve_host pt host = Some r) \<and>
         (map_of (pt_exact_hosts pt) host = None \<longrightarrow>
            (\<forall>(s, k, r)\<in>set (pt_wildcard_hosts pt). wildcard_matches host s k \<longrightarrow>
               (\<exists>(s', k', r')\<in>set (pt_wildcard_hosts pt). resolve_host pt host = Some r' \<and>
                  wildcard_matches host s' k' \<and>
                  (length s < length s' \<or> length s = length s' \<and> (k' = SingleLabel \<or> k = MultiLabel)))) \<and>
            ((\<forall>(s, k, r)\<in>set (pt_wildcard_hosts pt). \<not> wildcard_matches host s k) \<longrightarrow>
               resolve_host pt host = pt_catchall pt))"
proof (intro conjI allI impI ballI)
  fix r assume "map_of (pt_exact_hosts pt) host = Some r"
  then show "resolve_host pt host = Some r" by (simp add: resolve_host_def)
next
  fix w assume n: "map_of (pt_exact_hosts pt) host = None" and w: "w \<in> set (pt_wildcard_hosts pt)"
  obtain s k r where skr: "w = (s, k, r)" by (cases w)
  have "\<exists>(s', k', r')\<in>set (pt_wildcard_hosts pt). resolve_host pt host = Some r' \<and>
      wildcard_matches host s' k' \<and>
      (length s < length s' \<or> length s = length s' \<and> (k' = SingleLabel \<or> k = MultiLabel))"
    if m: "wildcard_matches host s k"
    by (rule resolve_host_wildcard[OF assms n w[unfolded skr] m])
  then show "case w of (s, k, r) \<Rightarrow> wildcard_matches host s k \<longrightarrow>
      (\<exists>(s', k', r')\<in>set (pt_wildcard_hosts pt). resolve_host pt host = Some r' \<and>
         wildcard_matches host s' k' \<and>
         (length s < length s' \<or> length s = length s' \<and> (k' = SingleLabel \<or> k = MultiLabel)))"
    unfolding skr by simp
next
  assume "map_of (pt_exact_hosts pt) host = None"
    and "\<forall>(s, k, r)\<in>set (pt_wildcard_hosts pt). \<not> wildcard_matches host s k"
  then have "List.find (\<lambda>(s, k, _). wildcard_matches host s k) (pt_wildcard_hosts pt) = None"
    by (auto simp: find_None_iff)
  then show "resolve_host pt host = pt_catchall pt"
    using \<open>map_of (pt_exact_hosts pt) host = None\<close> by (simp add: resolve_host_def)
qed

theorem host_resolution_order_witness:
  "\<exists>r'. resolve_host sample_port_table ''v1.api.example.com'' = Some r' \<and>
     (''api.example.com'', SingleLabel, r') \<in> set (pt_wildcard_hosts sample_port_table)"
proof -
  obtain cs where b: "port_build alist_matchit (\<lambda>_. True) 80 sample_port = Inr (sample_port_table, cs)"
    using sample_port_built by blast
  obtain r1 r2 r3 where t: "sample_port_table =
      \<lparr>pt_exact_hosts = [],
       pt_wildcard_hosts = [(''api.example.com'', SingleLabel, r1), (''example.com'', MultiLabel, r2)],
       pt_catchall = Some r3\<rparr>"
    using sample_port_table_eq by blast
  have m: "wildcard_matches ''v1.api.example.com'' ''api.example.com'' SingleLabel"
    unfolding wildcard_matches_iff by (intro exI[of _ "''v1''"]) simp
  show ?thesis
    using host_resolution_order[OF b, of "''v1.api.example.com''"] m unfolding t by auto
qed

definition sample_catchall :: "((string \<times> (unit, unit) route_entry list) list, unit, unit) port_routing_table" where
  "sample_catchall = \<lparr>pt_exact_hosts = [], pt_wildcard_hosts = [], pt_catchall = Some sample_router\<rparr>"

lemma sample_catchall_found:
  "\<exists>m. port_find alist_matchit sample_env sample_catchall ''x'' ''/a/../health'' request_context_default = Found m \<and>
     rm_filters m = []"
proof -
  have n: "normalize_apply Base ''/a/../health'' = Owned ''/health''" by code_simp
  obtain cs where b: "host_router_build alist_matchit (\<lambda>_. True) sample_builder = Inr (sample_router, cs)"
    using sample_built by blast
  have l: "hr_normalize sample_router = Base"
    using build_ok[OF alist_matchit_laws sample_paths_ok] b
    by (auto simp: sample_builder_def add_prefix_route_def add_exact_route_def host_router_builder_default_def)
  have "mt_at alist_matchit (hr_router sample_router) ''/health'' = Some [sample_entry ''ns/health'' None]"
    using built_router_lookup[OF alist_matchit_laws sample_paths_ok b, of "''/health''"]
    by (simp add: best_group_def exact_groups_def sample_builder_def add_prefix_route_def
        add_exact_route_def host_router_builder_default_def group_by_path_def sort_and_freeze_def)
  then show ?thesis
    by (simp add: port_find_def sample_catchall_def resolve_host_def l n host_route_def sample_entry_def
        route_entry_new_def with_filters_def predicates_match_def from_entry_def)
qed

text \<open>
  the introspection lookup disagrees with the request lookup it is documented to mirror: for
  a registered host whose routes do not match, \<open>find\<close> reports that no path matched while
  \<open>route\<close> answers with a catch-all backend.
\<close>

theorem route_and_find_disagree:
  "let empty = sample_router\<lparr>hr_router := [], hr_regex_routes := []\<rparr>;
       pt = \<lparr>pt_exact_hosts = [(''a.com'', empty)], pt_wildcard_hosts = [],
             pt_catchall = Some (sample_router\<lparr>hr_router := [(''/y'', [sample_entry ''ns/any'' None])]\<rparr>)\<rparr>
   in port_find alist_matchit sample_env pt ''a.com'' ''/y'' request_context_default = NoPath \<and>
      port_route alist_matchit sample_env pt ''a.com'' ''/y'' request_context_default =
        Some (rt_backend_group (sample_entry ''ns/any'' None))"
proof -
  have n: "needs_slow_path ''/y'' l = False" for l by (cases l) (simp_all add: merges_def)
  show ?thesis
    by (simp add: port_find_def port_route_def resolve_host_def host_route_def alist_matchit_def
        static_first_at_def plain_def starts_with_iff normalize_apply_def n catch_all_at_raw
        sample_entry_def route_entry_new_def with_filters_def predicates_match_def from_entry_def)
qed

text \<open>
  C36: a rebuild that splices in an already compiled exact host resolves every host as the full
  rebuild of the same routes does.
\<close>

theorem compiled_host_reuse_equiv:
  assumes "h \<notin> fst ` set (pb_exact_hosts b)" and "h \<notin> fst ` set (pb_compiled_exact_hosts b)"
    and "host_router_build mt regex_ok (f host_router_builder_default) = Inr (r, cs0)"
    and "port_build mt regex_ok port (exact_host h f b) = Inr (pt, cs)"
  shows "\<exists>pt' cs'. port_build mt regex_ok port (insert_compiled_exact_host h r b) = Inr (pt', cs') \<and>
           (\<forall>host. resolve_host pt' host = resolve_host pt host)"
  using port_build_reuse[where f = f, OF assms] by (auto simp: resolve_host_def split: option.split)

theorem compiled_host_reuse_equiv_witness:
  "\<exists>r pt pt' cs cs'.
     port_build alist_matchit (\<lambda>_. True) 80
       (exact_host ''www.example.com'' (add_prefix_route ''/'' (sample_entry ''ns/www'' None)) sample_port) = Inr (pt, cs) \<and>
     port_build alist_matchit (\<lambda>_. True) 80
       (insert_compiled_exact_host ''www.example.com'' r sample_port) = Inr (pt', cs') \<and>
     resolve_host pt' ''www.example.com'' = resolve_host pt ''www.example.com''"
proof -
  let ?f = "add_prefix_route ''/'' (sample_entry ''ns/www'' None)"
  have ok: "paths_ok (\<lambda>_. True) (?f host_router_builder_default)"
    by (simp add: paths_ok_def add_prefix_route_def host_router_builder_default_def plain_def starts_with_iff)
  obtain r cs0 where r: "host_router_build alist_matchit (\<lambda>_. True) (?f host_router_builder_default) = Inr (r, cs0)"
    using build_ok[OF alist_matchit_laws ok] by blast
  have "port_paths_ok (\<lambda>_. True) (exact_host ''www.example.com'' ?f sample_port)"
    using sample_port_ok ok by (simp add: port_paths_ok_def exact_host_def sample_port_hosts)
  then obtain pt cs where pt: "port_build alist_matchit (\<lambda>_. True) 80 (exact_host ''www.example.com'' ?f sample_port) = Inr (pt, cs)"
    using port_build_total[OF alist_matchit_laws] by blast
  show ?thesis
    using compiled_host_reuse_equiv[where f = ?f, OF _ _ r pt] pt by (auto simp: sample_port_hosts)
qed

text \<open>
  a table whose registered paths are absolute, free of parameters and valid as regular
  expressions always builds.
\<close>

theorem table_build_total:
  assumes "matchit_laws mt tbl" and "\<forall>p\<in>set (tb_by_port b). port_paths_ok regex_ok (snd p)"
  shows "\<exists>t. table_build mt regex_ok b = Inr t"
  unfolding table_build_def using assms by (rule build_ports_total)


theorem table_build_total_witness:
  "\<exists>t. table_build alist_matchit (\<lambda>_. True) \<lparr>tb_by_port = [(80, sample_port)], tb_extra_conflicts = []\<rparr> = Inr t"
  using table_build_total[OF alist_matchit_laws, of "\<lparr>tb_by_port = [(80, sample_port)], tb_extra_conflicts = []\<rparr>" "\<lambda>_. True"]
    sample_port_ok by simp

end
