(* ===== verification/Workqueue.thy ===== *)
theory Workqueue
  imports Cox_Prelude "HOL-Library.Product_Lexorder" "HOL-Library.Multiset"
begin

text \<open>
  The controller's rate-limiting, de-duplicating work queue
  (\<open>crates/coxswain-core/src/workqueue.rs\<close>).  The mutex makes every method body one step on
  the inner state; durations and instants are nanoseconds, and the largest representable
  instant is a parameter.  The binary heap is the list of its elements with the least
  (deadline, sequence number) on top.  One iteration of the asynchronous \<open>get\<close> loop is one step
  that either hands out a key, ends, or parks the consumer.  The \<open>Notify\<close> permit is a flag, and
  because the methods call \<open>notify_one\<close> only after they released the mutex, the calls they still
  have to make are counted and delivered by steps of their own.  \<open>add_rate_limited\<close>, which takes the
  mutex twice, is one step, and the wake-up \<open>shutdown\<close> sends to all parked consumers is left out.
\<close>

section \<open>Backoff\<close>

record wq_config =
  wq_base :: nat
  wq_max :: nat

definition duration_max :: nat where
  "duration_max = (2 ^ 64 - 1) * 10 ^ 9 + 999999999"

definition duration_saturating_mul :: "nat \<Rightarrow> nat \<Rightarrow> nat" where
  "duration_saturating_mul d n = min (d * n) duration_max"

definition checked_shl_u32 :: "u32 \<Rightarrow> nat \<Rightarrow> u32 option" where
  "checked_shl_u32 w n = (if n < 32 then Some (push_bit n w) else None)"

definition delay_for :: "wq_config \<Rightarrow> u32 \<Rightarrow> nat" where
  "delay_for cfg attempts =
     (let factor = (case checked_shl_u32 1 (min (unat attempts) 20) of Some f \<Rightarrow> f | None \<Rightarrow> - 1)
      in min (duration_saturating_mul (wq_base cfg) (unat factor)) (wq_max cfg))"

definition wq_config_default :: wq_config where
  "wq_config_default = \<lparr>wq_base = 500 * 10 ^ 6, wq_max = 15 * 10 ^ 9\<rparr>"

section \<open>The queue\<close>

record 'k delayed =
  ready_at :: nat
  dseq :: u64
  dkey :: 'k

record 'k wq_inner =
  ready :: "'k list"
  queued :: "'k set"
  processing :: "'k set"
  dirty :: "'k set"
  delayed_heap :: "'k delayed list"
  wq_attempts :: "'k \<rightharpoonup> u32"
  wq_seq :: u64
  wq_shutdown :: bool

definition wq_inner_new :: "'k wq_inner" where
  "wq_inner_new =
     \<lparr>ready = [], queued = {}, processing = {}, dirty = {}, delayed_heap = [], wq_attempts = Map.empty,
      wq_seq = 0, wq_shutdown = False\<rparr>"

definition enqueue :: "'k \<Rightarrow> 'k wq_inner \<Rightarrow> 'k wq_inner \<times> bool" where
  "enqueue k q =
     (if wq_shutdown q then (q, False)
      else if k \<in> processing q then (q\<lparr>dirty := insert k (dirty q)\<rparr>, False)
      else if k \<in> queued q then (q, False)
      else (q\<lparr>queued := insert k (queued q), ready := ready q @ [k]\<rparr>, True))"

definition heap_peek :: "'k delayed list \<Rightarrow> 'k delayed option" where
  "heap_peek h = min_by_key (\<lambda>d. (ready_at d, dseq d)) h"

lemma heap_peek_in: "heap_peek h = Some d \<Longrightarrow> d \<in> set h"
  by (auto simp: heap_peek_def elim: min_by_key_decomp)

text \<open>The loop ends because every round pops one element.\<close>

function drain_due :: "nat \<Rightarrow> 'k wq_inner \<Rightarrow> 'k wq_inner \<times> bool" where
  "drain_due now q =
     (case heap_peek (delayed_heap q) of
        None \<Rightarrow> (q, False)
      | Some d \<Rightarrow>
          if ready_at d > now then (q, False)
          else
            let (q, woke) = enqueue (dkey d) (q\<lparr>delayed_heap := remove1 d (delayed_heap q)\<rparr>);
                (q, woke') = drain_due now q
            in (q, woke \<or> woke'))"
  by pat_completeness auto

lemma enqueue_heap [simp]: "delayed_heap (fst (enqueue k q)) = delayed_heap q"
  by (simp add: enqueue_def)

lemma heap_pop_length: "heap_peek h = Some d \<Longrightarrow> length (remove1 d h) < length h"
  by (metis heap_peek_in length_remove1 length_pos_if_in_set diff_less zero_less_one One_nat_def)

termination drain_due
proof (relation "measure (\<lambda>(now, q). length (delayed_heap q))", goal_cases)
  case (2 now q d r q' woke)
  then have "delayed_heap q' = remove1 d (delayed_heap q)"
    by (metis enqueue_heap fst_conv wq_inner.simps(5) wq_inner.update_convs(5) wq_inner.surjective)
  then show ?case using 2 heap_pop_length[of "delayed_heap q" d] by simp
qed simp

declare drain_due.simps [simp del]

definition next_deadline :: "'k wq_inner \<Rightarrow> nat option" where
  "next_deadline q = map_option ready_at (heap_peek (delayed_heap q))"

record 'k workqueue =
  wq_inner :: "'k wq_inner"
  wq_unsent :: nat
  wq_permit :: bool

definition workqueue_new :: "'k workqueue" where
  "workqueue_new = \<lparr>wq_inner = wq_inner_new, wq_unsent = 0, wq_permit = False\<rparr>"

definition notify_if :: "bool \<Rightarrow> 'k workqueue \<Rightarrow> 'k workqueue" where
  "notify_if woke w = (if woke then w\<lparr>wq_unsent := Suc (wq_unsent w)\<rparr> else w)"

definition wq_add :: "'k \<Rightarrow> 'k workqueue \<Rightarrow> 'k workqueue" where
  "wq_add k w = (let (q, woke) = enqueue k (wq_inner w) in notify_if woke (w\<lparr>wq_inner := q\<rparr>))"

definition add_after :: "nat \<Rightarrow> nat \<Rightarrow> 'k \<Rightarrow> nat \<Rightarrow> 'k workqueue \<Rightarrow> 'k workqueue" where
  "add_after instant_max now k delay w =
     (if delay = 0 then wq_add k w
      else
        let q = wq_inner w in
        if wq_shutdown q then w
        else
          let due = (if now + delay \<le> instant_max then now + delay else now)
          in notify_if True
               (w\<lparr>wq_inner := q\<lparr>wq_seq := wq_seq q + 1,
                                delayed_heap := delayed_heap q @
                                  [\<lparr>ready_at = due, dseq = wq_seq q, dkey = k\<rparr>]\<rparr>\<rparr>))"

definition add_rate_limited ::
  "wq_config \<Rightarrow> nat \<Rightarrow> nat \<Rightarrow> 'k \<Rightarrow> 'k workqueue \<Rightarrow> 'k workqueue" where
  "add_rate_limited cfg instant_max now k w =
     (let q = wq_inner w;
          attempts = (case wq_attempts q k of Some n \<Rightarrow> n | None \<Rightarrow> 0);
          w = w\<lparr>wq_inner := q\<lparr>wq_attempts := (wq_attempts q)(k \<mapsto> saturating_add attempts 1)\<rparr>\<rparr>
      in add_after instant_max now k (delay_for cfg attempts) w)"

text \<open>One iteration of the \<open>get\<close> loop.\<close>

datatype 'k get_result = Got 'k | Ended | Park "nat option"

definition get_iteration :: "nat \<Rightarrow> 'k workqueue \<Rightarrow> 'k workqueue \<times> 'k get_result" where
  "get_iteration now w =
     (let q = fst (drain_due now (wq_inner w)) in
      case ready q of
        k # ks \<Rightarrow>
          (w\<lparr>wq_inner := q\<lparr>ready := ks, queued := queued q - {k}, processing := insert k (processing q)\<rparr>\<rparr>,
           Got k)
      | [] \<Rightarrow>
          (w\<lparr>wq_inner := q\<rparr>, if wq_shutdown q then Ended else Park (next_deadline q)))"

definition wq_done :: "'k \<Rightarrow> 'k workqueue \<Rightarrow> 'k workqueue" where
  "wq_done k w =
     (let q = (wq_inner w)\<lparr>processing := processing (wq_inner w) - {k}\<rparr> in
      if k \<in> dirty q then
        (let (q, woke) = enqueue k (q\<lparr>dirty := dirty q - {k}\<rparr>) in notify_if woke (w\<lparr>wq_inner := q\<rparr>))
      else w\<lparr>wq_inner := q\<rparr>)"

definition forget :: "'k \<Rightarrow> 'k workqueue \<Rightarrow> 'k workqueue" where
  "forget k w = w\<lparr>wq_inner := (wq_inner w)\<lparr>wq_attempts := (wq_attempts (wq_inner w))(k := None)\<rparr>\<rparr>"

definition wq_len :: "'k workqueue \<Rightarrow> nat" where
  "wq_len w = length (ready (wq_inner w))"

definition shutdown :: "'k workqueue \<Rightarrow> 'k workqueue" where
  "shutdown w = notify_if True (w\<lparr>wq_inner := (wq_inner w)\<lparr>wq_shutdown := True\<rparr>\<rparr>)"

section \<open>Producers, handlers and the single consumer interleaved\<close>

text \<open>The consumer is running, or parked until an optional deadline.\<close>

record 'k wq_system =
  sys_queue :: "'k workqueue"
  sys_parked :: "nat option option"

definition wq_system_new :: "'k wq_system" where
  "wq_system_new = \<lparr>sys_queue = workqueue_new, sys_parked = None\<rparr>"

definition park_result :: "'k get_result \<Rightarrow> nat option option" where
  "park_result r = (case r of Park dl \<Rightarrow> Some dl | _ \<Rightarrow> None)"

inductive wq_step :: "wq_config \<Rightarrow> nat \<Rightarrow> 'k wq_system \<Rightarrow> 'k wq_system \<Rightarrow> bool"
  for cfg :: wq_config and instant_max :: nat where
  step_add: "wq_step cfg instant_max s (s\<lparr>sys_queue := wq_add k (sys_queue s)\<rparr>)"
| step_add_after: "wq_step cfg instant_max s (s\<lparr>sys_queue := add_after instant_max now k delay (sys_queue s)\<rparr>)"
| step_add_rate_limited:
    "wq_step cfg instant_max s (s\<lparr>sys_queue := add_rate_limited cfg instant_max now k (sys_queue s)\<rparr>)"
| step_done: "wq_step cfg instant_max s (s\<lparr>sys_queue := wq_done k (sys_queue s)\<rparr>)"
| step_forget: "wq_step cfg instant_max s (s\<lparr>sys_queue := forget k (sys_queue s)\<rparr>)"
| step_shutdown: "wq_step cfg instant_max s (s\<lparr>sys_queue := shutdown (sys_queue s)\<rparr>)"
| step_deliver:
    "wq_unsent (sys_queue s) = Suc n \<Longrightarrow>
     wq_step cfg instant_max s (s\<lparr>sys_queue := (sys_queue s)\<lparr>wq_unsent := n, wq_permit := True\<rparr>\<rparr>)"
| step_get:
    "sys_parked s = None \<Longrightarrow> get_iteration now (sys_queue s) = (w, r) \<Longrightarrow>
     wq_step cfg instant_max s \<lparr>sys_queue = w, sys_parked = park_result r\<rparr>"
| step_wake:
    "sys_parked s = Some dl \<Longrightarrow> wq_permit (sys_queue s) \<Longrightarrow>
     wq_step cfg instant_max s \<lparr>sys_queue = (sys_queue s)\<lparr>wq_permit := False\<rparr>, sys_parked = None\<rparr>"
| step_timeout:
    "sys_parked s = Some (Some dl) \<Longrightarrow> wq_step cfg instant_max s (s\<lparr>sys_parked := None\<rparr>)"

inductive wq_reachable :: "wq_config \<Rightarrow> nat \<Rightarrow> 'k wq_system \<Rightarrow> bool"
  for cfg :: wq_config and instant_max :: nat where
  wq_start: "wq_reachable cfg instant_max wq_system_new"
| wq_next: "wq_reachable cfg instant_max s \<Longrightarrow> wq_step cfg instant_max s t \<Longrightarrow> wq_reachable cfg instant_max t"

section \<open>Invariant of the inner state\<close>

definition inner_inv :: "'k wq_inner \<Rightarrow> bool" where
  "inner_inv q \<longleftrightarrow>
     distinct (ready q) \<and> queued q = set (ready q) \<and> processing q \<inter> queued q = {} \<and> dirty q \<subseteq> processing q"

lemma inner_inv_new: "inner_inv wq_inner_new"
  by (simp add: inner_inv_def wq_inner_new_def)

lemma inner_inv_frame [simp]:
  "inner_inv (q\<lparr>delayed_heap := h\<rparr>) = inner_inv q"
  "inner_inv (q\<lparr>wq_seq := n\<rparr>) = inner_inv q"
  "inner_inv (q\<lparr>wq_attempts := m\<rparr>) = inner_inv q"
  "inner_inv (q\<lparr>wq_shutdown := b\<rparr>) = inner_inv q"
  by (simp_all add: inner_inv_def)

lemma enqueue_inv: "inner_inv q \<Longrightarrow> inner_inv (fst (enqueue k q))"
  by (auto simp: inner_inv_def enqueue_def)

lemma enqueue_frame [simp]:
  "processing (fst (enqueue k q)) = processing q"
  "wq_shutdown (fst (enqueue k q)) = wq_shutdown q"
  "wq_attempts (fst (enqueue k q)) = wq_attempts q"
  by (simp_all add: enqueue_def)

lemma enqueue_quiet: "\<not> snd (enqueue k q) \<Longrightarrow> ready (fst (enqueue k q)) = ready q"
  by (auto simp: enqueue_def split: if_splits)

abbreviation pop_due :: "'k delayed \<Rightarrow> 'k wq_inner \<Rightarrow> 'k wq_inner" where
  "pop_due d q \<equiv> fst (enqueue (dkey d) (q\<lparr>delayed_heap := remove1 d (delayed_heap q)\<rparr>))"

lemma fst_drain_due:
  "fst (drain_due now q) =
     (case heap_peek (delayed_heap q) of
        None \<Rightarrow> q
      | Some d \<Rightarrow> if now < ready_at d then q else fst (drain_due now (pop_due d q)))"
  by (subst drain_due.simps) (auto split: option.split prod.split)

lemma drain_due_rule:
  assumes stop: "\<And>q. (\<And>d. heap_peek (delayed_heap q) = Some d \<Longrightarrow> now < ready_at d) \<Longrightarrow> P q q"
    and pop: "\<And>q d q'. heap_peek (delayed_heap q) = Some d \<Longrightarrow> ready_at d \<le> now \<Longrightarrow>
                P (pop_due d q) q' \<Longrightarrow> P q q'"
  shows "P q (fst (drain_due now q))"
proof (induction "length (delayed_heap q)" arbitrary: q rule: less_induct)
  case less
  show ?case
  proof (cases "\<exists>d. heap_peek (delayed_heap q) = Some d \<and> ready_at d \<le> now")
    case True
    then obtain d where d: "heap_peek (delayed_heap q) = Some d" "ready_at d \<le> now" by blast
    then have "P (pop_due d q) (fst (drain_due now (pop_due d q)))"
      by (intro less) (simp add: heap_pop_length)
    moreover have "fst (drain_due now q) = fst (drain_due now (pop_due d q))"
      using d by (subst fst_drain_due) simp
    ultimately show ?thesis using pop[OF d] by simp
  next
    case False
    then have "fst (drain_due now q) = q" by (subst fst_drain_due) (auto split: option.split)
    then show ?thesis using stop[of q] False by (metis linorder_not_less)
  qed
qed

lemma heap_peek_least: "heap_peek h = Some d \<Longrightarrow> d' \<in> set h \<Longrightarrow> ready_at d \<le> ready_at d'"
  unfolding heap_peek_def by (erule min_by_key_decomp) (auto dest: less_imp_le)

lemma heap_due_peek:
  "d \<in> set h \<Longrightarrow> ready_at d \<le> now \<Longrightarrow> \<exists>e. heap_peek h = Some e \<and> ready_at e \<le> now"
  using heap_peek_least[of h _ d] by (cases "heap_peek h") (auto simp: heap_peek_def intro: order_trans)

lemma drain_due_inv: "inner_inv q \<Longrightarrow> inner_inv (fst (drain_due now q))"
  by (rule drain_due_rule[where P = "\<lambda>q q'. inner_inv q \<longrightarrow> inner_inv q'", THEN mp]) (auto intro: enqueue_inv)

lemma drain_due_frame [simp]:
  "processing (fst (drain_due now q)) = processing q"
  "wq_shutdown (fst (drain_due now q)) = wq_shutdown q"
proof -
  have "processing (fst (drain_due now q)) = processing q \<and> wq_shutdown (fst (drain_due now q)) = wq_shutdown q"
    by (rule drain_due_rule[where P = "\<lambda>q q'. processing q' = processing q \<and> wq_shutdown q' = wq_shutdown q"]) simp_all
  then show "processing (fst (drain_due now q)) = processing q"
    and "wq_shutdown (fst (drain_due now q)) = wq_shutdown q" by simp_all
qed

text \<open>Draining leaves exactly the deadlines that have not come.\<close>

lemma drain_due_heap: "mset (delayed_heap (fst (drain_due now q))) = filter_mset (\<lambda>d. now < ready_at d) (mset (delayed_heap q))"
proof (rule drain_due_rule[of now "\<lambda>q q'. mset (delayed_heap q') = filter_mset (\<lambda>d. now < ready_at d) (mset (delayed_heap q))"], goal_cases)
  case (1 q)
  have "now < ready_at d" if "d \<in> set (delayed_heap q)" for d
    using that 1 heap_due_peek[of d "delayed_heap q" now] by (meson linorder_not_less)
  then have "filter (\<lambda>d. now < ready_at d) (delayed_heap q) = delayed_heap q" by (simp add: filter_id_conv)
  then show ?case by (metis mset_filter)
next
  case (2 q d q')
  then show ?case by (simp add: heap_peek_in)
qed

section \<open>Accepted work\<close>

text \<open>A key is accepted when it is ready, or in flight with a re-run recorded.\<close>

definition wq_accepted :: "'k \<Rightarrow> 'k wq_inner \<Rightarrow> bool" where
  "wq_accepted k q \<longleftrightarrow> k \<in> set (ready q) \<or> k \<in> dirty q"

lemma enqueue_accepts:
  "inner_inv q \<Longrightarrow> \<not> wq_shutdown q \<Longrightarrow> wq_accepted k (fst (enqueue k q))"
  by (auto simp: enqueue_def wq_accepted_def inner_inv_def)

lemma enqueue_keeps_accepted: "wq_accepted k q \<Longrightarrow> wq_accepted k (fst (enqueue k' q))"
  by (auto simp: enqueue_def wq_accepted_def)

lemma wq_accepted_frame [simp]:
  "wq_accepted k (q\<lparr>delayed_heap := h\<rparr>) = wq_accepted k q"
  "wq_accepted k (q\<lparr>wq_seq := n\<rparr>) = wq_accepted k q"
  "wq_accepted k (q\<lparr>wq_attempts := m\<rparr>) = wq_accepted k q"
  "wq_accepted k (q\<lparr>wq_shutdown := b\<rparr>) = wq_accepted k q"
  by (simp_all add: wq_accepted_def)

lemma drain_due_keeps_accepted: "wq_accepted k q \<Longrightarrow> wq_accepted k (fst (drain_due now q))"
  by (rule drain_due_rule[where P = "\<lambda>q q'. wq_accepted k q \<longrightarrow> wq_accepted k q'", THEN mp])
    (auto intro: enqueue_keeps_accepted)

lemma drain_due_accepts:
  assumes "inner_inv q" "\<not> wq_shutdown q" "d \<in> set (delayed_heap q)" "ready_at d \<le> now"
  shows "wq_accepted (dkey d) (fst (drain_due now q))"
proof -
  define P where "P q q' \<longleftrightarrow> (\<forall>k. wq_accepted k q \<longrightarrow> wq_accepted k q') \<and>
    (inner_inv q \<longrightarrow> \<not> wq_shutdown q \<longrightarrow>
       (\<forall>d\<in>set (delayed_heap q). ready_at d \<le> now \<longrightarrow> wq_accepted (dkey d) q'))" for q q' :: "'a wq_inner"
  have "P q (fst (drain_due now q))"
  proof (rule drain_due_rule, goal_cases)
    case (1 q)
    then show ?case unfolding P_def by (auto dest: heap_due_peek)
  next
    case (2 q e q')
    have "wq_accepted (dkey d) q'"
      if d: "inner_inv q" "\<not> wq_shutdown q" "d \<in> set (delayed_heap q)" "ready_at d \<le> now" for d
    proof (cases "d \<in> set (remove1 e (delayed_heap q))")
      case True
      then show ?thesis using 2(3) d enqueue_inv[of "q\<lparr>delayed_heap := remove1 e (delayed_heap q)\<rparr>"]
        unfolding P_def by simp
    next
      case False
      then have "d = e" using d(3) by (metis in_set_remove1)
      then show ?thesis using 2(3) d enqueue_accepts[of "q\<lparr>delayed_heap := remove1 e (delayed_heap q)\<rparr>" "dkey e"]
        unfolding P_def by simp
    qed
    then show ?case using 2(3) unfolding P_def by (simp add: enqueue_keeps_accepted)
  qed
  with assms show ?thesis by (simp add: P_def)
qed

section \<open>The whole queue\<close>

definition wq_inv :: "'k wq_system \<Rightarrow> bool" where
  "wq_inv s \<longleftrightarrow>
     (let w = sys_queue s; q = wq_inner w in
      inner_inv q \<and>
      (wq_unsent w = 0 \<longrightarrow> \<not> wq_permit w \<longrightarrow>
         (\<forall>dl. sys_parked s = Some dl \<longrightarrow> ready q = [] \<and> \<not> wq_shutdown q \<and> dl = next_deadline q)))"

lemma notify_if_simps [simp]:
  "wq_inner (notify_if b w) = wq_inner w"
  "wq_permit (notify_if b w) = wq_permit w"
  "wq_unsent (notify_if b w) = 0 \<longleftrightarrow> wq_unsent w = 0 \<and> \<not> b"
  by (simp_all add: notify_if_def)

lemma next_deadline_frame [simp]:
  "next_deadline (fst (enqueue k q)) = next_deadline q"
  by (simp add: next_deadline_def)

lemma wq_add_inv: "wq_inv s \<Longrightarrow> wq_inv (s\<lparr>sys_queue := wq_add k (sys_queue s)\<rparr>)"
  by (auto simp: wq_inv_def wq_add_def Let_def split_def enqueue_inv enqueue_quiet)

lemma add_after_inv: "wq_inv s \<Longrightarrow> wq_inv (s\<lparr>sys_queue := add_after instant_max now k delay (sys_queue s)\<rparr>)"
proof -
  assume inv: "wq_inv s"
  consider "delay = 0" | "delay \<noteq> 0" "wq_shutdown (wq_inner (sys_queue s))"
    | "delay \<noteq> 0" "\<not> wq_shutdown (wq_inner (sys_queue s))" by blast
  then show ?thesis
  proof cases
    case 3
    then show ?thesis using inv by (simp add: add_after_def wq_inv_def Let_def)
  qed (use inv in \<open>simp_all add: add_after_def wq_add_inv\<close>)
qed

lemma wq_attempts_inv:
  "wq_inv s \<Longrightarrow> wq_inv (s\<lparr>sys_queue := (sys_queue s)\<lparr>wq_inner := (wq_inner (sys_queue s))\<lparr>wq_attempts := m\<rparr>\<rparr>\<rparr>)"
  by (simp add: wq_inv_def Let_def next_deadline_def)

lemma add_rate_limited_inv:
  "wq_inv s \<Longrightarrow> wq_inv (s\<lparr>sys_queue := add_rate_limited cfg instant_max now k (sys_queue s)\<rparr>)"
  using add_after_inv[OF wq_attempts_inv[of s], of instant_max now k] by (simp add: add_rate_limited_def Let_def)

lemma wq_done_inner_inv: "inner_inv q \<Longrightarrow> inner_inv (q\<lparr>processing := processing q - {k}, dirty := dirty q - {k}\<rparr>)"
  by (auto simp: inner_inv_def)

lemma wq_done_clean_inv: "inner_inv q \<Longrightarrow> k \<notin> dirty q \<Longrightarrow> inner_inv (q\<lparr>processing := processing q - {k}\<rparr>)"
  by (auto simp: inner_inv_def)

lemma wq_done_inv: "wq_inv s \<Longrightarrow> wq_inv (s\<lparr>sys_queue := wq_done k (sys_queue s)\<rparr>)"
proof -
  assume inv: "wq_inv s"
  let ?q = "wq_inner (sys_queue s)"
  let ?r = "?q\<lparr>processing := processing ?q - {k}, dirty := dirty ?q - {k}\<rparr>"
  have i: "inner_inv (?q\<lparr>processing := processing ?q - {k}, dirty := dirty ?q - {k}\<rparr>)"
    using inv by (intro wq_done_inner_inv) (simp add: wq_inv_def Let_def)
  show ?thesis
  proof (cases "k \<in> dirty ?q")
    case True
    with inv enqueue_inv[OF i, of k] enqueue_quiet[of k ?r] show ?thesis
      by (simp add: wq_inv_def wq_done_def Let_def split_def next_deadline_def)
  next
    case False
    with inv show ?thesis by (simp add: wq_inv_def wq_done_def Let_def next_deadline_def wq_done_clean_inv)
  qed
qed

lemma get_iteration_inv:
  assumes "wq_inv s" "get_iteration now (sys_queue s) = (w, r)"
  shows "wq_inv \<lparr>sys_queue = w, sys_parked = park_result r\<rparr>"
proof -
  let ?q = "fst (drain_due now (wq_inner (sys_queue s)))"
  have "inner_inv ?q" using assms(1) by (intro drain_due_inv) (simp add: wq_inv_def Let_def)
  with assms(2) show ?thesis
    by (auto simp: get_iteration_def Let_def wq_inv_def park_result_def inner_inv_def split: list.splits if_splits)
qed

lemma wq_step_inv: "wq_step cfg instant_max s t \<Longrightarrow> wq_inv s \<Longrightarrow> wq_inv t"
proof (induction rule: wq_step.induct)
  case (step_get s now w r)
  show ?case by (rule get_iteration_inv[OF step_get.prems step_get.hyps(2)])
next
  case (step_forget s k)
  then show ?case by (simp add: forget_def wq_attempts_inv)
next
  case (step_shutdown s)
  then show ?case by (simp add: wq_inv_def shutdown_def Let_def)
next
  case (step_deliver s n)
  then show ?case by (simp add: wq_inv_def Let_def)
next
  case (step_wake s dl)
  then show ?case by (simp add: wq_inv_def Let_def)
next
  case (step_timeout s dl)
  then show ?case by (simp add: wq_inv_def Let_def)
qed (simp_all add: wq_add_inv add_after_inv add_rate_limited_inv wq_done_inv)

lemma wq_reachable_inv: "wq_reachable cfg instant_max s \<Longrightarrow> wq_inv s"
proof (induction rule: wq_reachable.induct)
  case wq_start
  show ?case by (simp add: wq_inv_def wq_system_new_def workqueue_new_def inner_inv_new Let_def)
qed (rule wq_step_inv)

section \<open>Properties\<close>

text \<open>Work the queue owes for a key: ready, to be re-run, or waiting for its deadline.\<close>

definition wq_owed :: "'k \<Rightarrow> 'k wq_inner \<Rightarrow> bool" where
  "wq_owed k q \<longleftrightarrow> wq_accepted k q \<or> (\<exists>d\<in>set (delayed_heap q). dkey d = k)"

lemma enqueue_keeps_owed: "wq_owed k q \<Longrightarrow> wq_owed k (fst (enqueue k' q))"
  by (auto simp: wq_owed_def enqueue_keeps_accepted)

lemma wq_add_owed: "wq_owed k (wq_inner w) \<Longrightarrow> wq_owed k (wq_inner (wq_add k' w))"
  by (simp add: wq_add_def split_def Let_def enqueue_keeps_owed)

lemma wq_owed_attempts [simp]: "wq_owed k (q\<lparr>wq_attempts := m\<rparr>) = wq_owed k q"
  by (simp add: wq_owed_def)

lemma add_after_owed: "wq_owed k (wq_inner w) \<Longrightarrow> wq_owed k (wq_inner (add_after instant_max now k' delay w))"
  by (auto simp: add_after_def wq_add_owed Let_def) (auto simp: wq_owed_def)

lemma wq_done_owed:
  assumes "inner_inv (wq_inner w)" "\<not> wq_shutdown (wq_inner w)" "wq_owed k (wq_inner w)"
  shows "wq_owed k (wq_inner (wq_done k' w))"
proof (cases "k' \<in> dirty (wq_inner w)")
  case False
  with assms(3) show ?thesis by (auto simp: wq_done_def wq_owed_def wq_accepted_def)
next
  case True
  let ?q = "wq_inner w"
  let ?r = "?q\<lparr>processing := processing ?q - {k'}, dirty := dirty ?q - {k'}\<rparr>"
  have "wq_accepted k' (fst (enqueue k' ?r))"
    using assms by (intro enqueue_accepts wq_done_inner_inv) simp_all
  moreover have "wq_owed k (fst (enqueue k' ?r))" if "k \<noteq> k'"
    using that assms(3) by (intro enqueue_keeps_owed) (auto simp: wq_owed_def wq_accepted_def)
  ultimately show ?thesis using True
    by (cases "k = k'") (auto simp: wq_done_def Let_def split_def wq_owed_def)
qed

lemma drain_due_owed:
  assumes "inner_inv q" "\<not> wq_shutdown q" "wq_owed k q"
  shows "wq_owed k (fst (drain_due now q))"
proof -
  have heap: "d \<in> set (delayed_heap (fst (drain_due now q)))" if "d \<in> set (delayed_heap q)" "now < ready_at d" for d
    using that arg_cong[OF drain_due_heap[of now q], of set_mset] by simp
  from assms(3) consider "wq_accepted k q" | d where "d \<in> set (delayed_heap q)" "dkey d = k"
    unfolding wq_owed_def by blast
  then show ?thesis
  proof cases
    case 2
    then show ?thesis using heap[of d] drain_due_accepts[OF assms(1,2), of d now]
      by (cases "now < ready_at d") (auto simp: wq_owed_def)
  qed (simp add: wq_owed_def drain_due_keeps_accepted)
qed

lemma get_iteration_owed:
  assumes "inner_inv (wq_inner w)" "\<not> wq_shutdown (wq_inner w)" "wq_owed k (wq_inner w)"
    and "get_iteration now w = (w', r)"
  shows "r = Got k \<or> wq_owed k (wq_inner w')"
proof -
  have "wq_owed k (fst (drain_due now (wq_inner w)))" by (rule drain_due_owed[OF assms(1,2,3)])
  with assms(4) show ?thesis
    by (auto simp: get_iteration_def Let_def wq_owed_def wq_accepted_def split: list.splits)
qed

lemma get_iteration_Got:
  assumes "inner_inv (wq_inner w)" "get_iteration now w = (w', Got k)"
  shows "k \<notin> processing (wq_inner w)" "processing (wq_inner w') = insert k (processing (wq_inner w))"
    "k \<notin> set (ready (wq_inner w'))"
  using assms(2) drain_due_inv[OF assms(1), of now]
  by (auto simp: get_iteration_def Let_def inner_inv_def split: list.splits if_splits)

lemma wq_done_shutdown [simp]: "wq_shutdown (wq_inner (wq_done k w)) = wq_shutdown (wq_inner w)"
  by (simp add: wq_done_def Let_def split_def)

lemma get_iteration_shutdown: "get_iteration now w = (w', r) \<Longrightarrow> wq_shutdown (wq_inner w') = wq_shutdown (wq_inner w)"
  by (auto simp: get_iteration_def Let_def split: list.splits)

lemma wq_step_owed:
  assumes "wq_step cfg instant_max s t" "wq_inv s" "wq_owed k (wq_inner (sys_queue s))"
    and "\<not> wq_shutdown (wq_inner (sys_queue t))"
  shows "wq_owed k (wq_inner (sys_queue t)) \<or>
         (k \<notin> processing (wq_inner (sys_queue s)) \<and> k \<in> processing (wq_inner (sys_queue t)))"
  using assms
proof (cases rule: wq_step.cases)
  case (step_add_rate_limited now k')
  then show ?thesis using assms(3) by (simp add: add_rate_limited_def Let_def add_after_owed)
next
  case (step_done k')
  then show ?thesis using assms by (simp add: wq_done_owed wq_inv_def Let_def)
next
  case (step_get now w r)
  have inv: "inner_inv (wq_inner (sys_queue s))" using assms(2) by (simp add: wq_inv_def Let_def)
  have "\<not> wq_shutdown (wq_inner (sys_queue s))"
    using assms(4) step_get get_iteration_shutdown[OF step_get(3)] by simp
  from get_iteration_owed[OF inv this assms(3) step_get(3)] show ?thesis
    using get_iteration_Got[OF inv, of now w k] step_get by auto
qed (auto simp: wq_add_owed add_after_owed forget_def shutdown_def)

subsection \<open>A queue with work in every place\<close>

text \<open>Key 1 is in flight and marked for a re-run, key 2 is ready, key 3 waits until instant 5.\<close>

definition sample_wq_inner :: "nat wq_inner" where
  "sample_wq_inner =
     \<lparr>ready = [2], queued = {2}, processing = {1}, dirty = {1},
      delayed_heap = [\<lparr>ready_at = 5, dseq = 0, dkey = 3\<rparr>], wq_attempts = Map.empty, wq_seq = 1,
      wq_shutdown = False\<rparr>"

definition sample_wq :: "nat wq_system" where
  "sample_wq =
     \<lparr>sys_queue = \<lparr>wq_inner = sample_wq_inner, wq_unsent = 3, wq_permit = False\<rparr>, sys_parked = None\<rparr>"

lemmas wq_ops = wq_add_def add_after_def get_iteration_def wq_done_def enqueue_def notify_if_def
  fst_drain_due heap_peek_def

lemma sample_wq_reachable: "wq_reachable cfg 100 sample_wq"
proof -
  let ?r = "wq_reachable cfg 100"
  define s1 where "s1 = wq_system_new\<lparr>sys_queue := wq_add (1::nat) (sys_queue wq_system_new)\<rparr>"
  define s2 where "s2 = \<lparr>sys_queue = fst (get_iteration 0 (sys_queue s1)),
    sys_parked = park_result (snd (get_iteration 0 (sys_queue s1)))\<rparr>"
  define s3 where "s3 = s2\<lparr>sys_queue := wq_add 1 (sys_queue s2)\<rparr>"
  define s4 where "s4 = s3\<lparr>sys_queue := wq_add 2 (sys_queue s3)\<rparr>"
  have "?r s1" unfolding s1_def by (rule wq_next[OF wq_start step_add])
  moreover have "sys_parked s1 = None" by (simp add: s1_def wq_system_new_def)
  ultimately have "?r s2" unfolding s2_def by (intro wq_next[OF _ step_get]) auto
  then have "?r s3" unfolding s3_def by (rule wq_next[OF _ step_add])
  then have "?r s4" unfolding s4_def by (rule wq_next[OF _ step_add])
  then have "?r (s4\<lparr>sys_queue := add_after 100 1 3 4 (sys_queue s4)\<rparr>)" by (rule wq_next[OF _ step_add_after])
  moreover have "s4\<lparr>sys_queue := add_after 100 1 3 4 (sys_queue s4)\<rparr> = sample_wq"
    by (auto simp: s4_def s3_def s2_def s1_def wq_system_new_def workqueue_new_def wq_inner_new_def sample_wq_def
        sample_wq_inner_def wq_ops park_result_def Let_def)
  ultimately show ?thesis by simp
qed

lemma get_iteration_due:
  assumes "inner_inv (wq_inner w)" "\<not> wq_shutdown (wq_inner w)"
    and d: "d \<in> set (delayed_heap (wq_inner w))" "ready_at d \<le> now" "dkey d \<notin> processing (wq_inner w)"
  obtains w' k where "get_iteration now w = (w', Got k)" "k = dkey d \<or> dkey d \<in> set (ready (wq_inner w'))"
proof -
  let ?q = "fst (drain_due now (wq_inner w))"
  have "wq_accepted (dkey d) ?q" by (rule drain_due_accepts[OF assms(1,2) d(1,2)])
  moreover have "dkey d \<notin> dirty ?q" using drain_due_inv[OF assms(1), of now] d(3) by (auto simp: inner_inv_def)
  ultimately have "dkey d \<in> set (ready ?q)" by (simp add: wq_accepted_def)
  then obtain k ks where "ready ?q = k # ks" "dkey d \<in> set (k # ks)" by (cases "ready ?q") auto
  then show ?thesis using that[of _ k] by (auto simp: get_iteration_def Let_def)
qed

lemma shl_one: "n < 32 \<Longrightarrow> unat (push_bit n (1 :: u32)) = 2 ^ n"
proof -
  assume "n < 32"
  then have "(2::nat) ^ n < 2 ^ 32" by (intro power_strict_increasing) auto
  then have "unat (of_nat (2 ^ n) :: u32) = 2 ^ n" by (simp add: unat_of_nat take_bit_nat_eq_self del: of_nat_power)
  then show ?thesis by (simp add: push_bit_eq_mult)
qed

text \<open>
  C10: No work is lost.  In every interleaving of producers, handlers and the consumer, a key the
  queue owes (ready, recorded for a re-run while in flight, or waiting for its deadline) is still
  owed after any one step, unless that step is the consumer taking exactly this key while no
  handler runs it, or the queue has been shut down.
\<close>

theorem workqueue_never_loses_work:
  assumes "wq_reachable cfg instant_max s" and "wq_step cfg instant_max s t"
    and "wq_owed k (wq_inner (sys_queue s))" and "\<not> wq_shutdown (wq_inner (sys_queue t))"
  shows "wq_owed k (wq_inner (sys_queue t)) \<or>
         (k \<notin> processing (wq_inner (sys_queue s)) \<and> k \<in> processing (wq_inner (sys_queue t)))"
  using assms(2) wq_reachable_inv[OF assms(1)] assms(3,4) by (rule wq_step_owed)

theorem workqueue_never_loses_work_witness:
  "wq_owed 1 sample_wq_inner \<and> wq_owed 1 (wq_inner (wq_done 1 (sys_queue sample_wq))) \<and>
   1 \<notin> processing (wq_inner (wq_done 1 (sys_queue sample_wq)))"
proof -
  let ?t = "sample_wq\<lparr>sys_queue := wq_done 1 (sys_queue sample_wq)\<rparr>"
  have owed: "wq_owed 1 sample_wq_inner" by (simp add: wq_owed_def wq_accepted_def sample_wq_inner_def)
  have "1 \<notin> processing (wq_inner (wq_done 1 (sys_queue sample_wq)))"
    by (simp add: wq_done_def sample_wq_def sample_wq_inner_def Let_def split_def)
  moreover have "wq_owed 1 (wq_inner (sys_queue ?t)) \<or>
     (1 \<notin> processing (wq_inner (sys_queue sample_wq)) \<and> 1 \<in> processing (wq_inner (sys_queue ?t)))"
    using owed
    by (intro workqueue_never_loses_work[OF sample_wq_reachable[of wq_config_default] step_done])
      (simp_all add: sample_wq_def sample_wq_inner_def)
  ultimately show ?thesis using owed by simp
qed

text \<open>
  C37: A key has at most one handler.  When the consumer is handed a key, no handler was running
  for it, it is marked as in flight, and it is not left in the ready queue, so a second call
  cannot hand it out again before \<open>done\<close>.
\<close>

theorem workqueue_one_handler_per_key:
  assumes "wq_reachable cfg instant_max s" and "get_iteration now (sys_queue s) = (w, Got k)"
  shows "k \<notin> processing (wq_inner (sys_queue s)) \<and>
         processing (wq_inner w) = insert k (processing (wq_inner (sys_queue s))) \<and>
         k \<notin> set (ready (wq_inner w))"
proof -
  have "inner_inv (wq_inner (sys_queue s))" using wq_reachable_inv[OF assms(1)] by (simp add: wq_inv_def Let_def)
  from get_iteration_Got[OF this assms(2)] show ?thesis by simp
qed

theorem workqueue_one_handler_per_key_witness:
  "\<exists>w. get_iteration 0 (sys_queue sample_wq) = (w, Got 2) \<and> 2 \<notin> processing sample_wq_inner \<and>
       processing (wq_inner w) = {1, 2} \<and> 2 \<notin> set (ready (wq_inner w))"
proof -
  obtain w where w: "get_iteration 0 (sys_queue sample_wq) = (w, Got 2)"
    by (simp add: sample_wq_def sample_wq_inner_def wq_ops)
  from workqueue_one_handler_per_key[OF sample_wq_reachable w] show ?thesis
    using w by (auto simp: sample_wq_def sample_wq_inner_def)
qed

text \<open>
  C34: Wakeups are not lost.  Whenever the consumer is parked, no permit is stored and no
  producer still has its \<open>notify_one\<close> call ahead of it, the ready queue is empty, the queue is
  not shut down, and the consumer's timer is set to the earliest deadline of the delayed keys.
\<close>

theorem workqueue_no_lost_wakeup:
  assumes "wq_reachable cfg instant_max s" and "sys_parked s = Some dl"
    and "wq_unsent (sys_queue s) = 0" and "\<not> wq_permit (sys_queue s)"
  shows "ready (wq_inner (sys_queue s)) = [] \<and> \<not> wq_shutdown (wq_inner (sys_queue s)) \<and>
         dl = next_deadline (wq_inner (sys_queue s))"
  using wq_reachable_inv[OF assms(1)] assms(2,3,4) by (simp add: wq_inv_def Let_def)

theorem workqueue_no_lost_wakeup_witness:
  "\<exists>s :: nat wq_system. sys_parked s = Some None \<and> ready (wq_inner (sys_queue s)) = [] \<and>
     \<not> wq_shutdown (wq_inner (sys_queue s)) \<and> None = next_deadline (wq_inner (sys_queue s))"
proof -
  let ?s = "wq_system_new\<lparr>sys_parked := Some None\<rparr> :: nat wq_system"
  have "wq_step wq_config_default 100 (wq_system_new :: nat wq_system)
      \<lparr>sys_queue = workqueue_new, sys_parked = park_result (Park None :: nat get_result)\<rparr>"
    by (rule step_get[where now = 0])
      (simp_all add: wq_system_new_def workqueue_new_def wq_inner_new_def wq_ops next_deadline_def)
  from wq_next[OF wq_start this] have "wq_reachable wq_config_default 100 ?s" by (simp add: wq_system_new_def park_result_def)
  from workqueue_no_lost_wakeup[OF this, of None] show ?thesis
    by (intro exI[of _ ?s]) (simp add: wq_system_new_def workqueue_new_def)
qed

text \<open>
  C40: A due key is served.  If a delayed key's deadline has come and no handler runs it, the next
  iteration of \<open>get\<close> does not park: it hands out a key, and the due key is that key or is in the
  ready queue behind it.
\<close>

theorem workqueue_due_keys_served:
  assumes "wq_reachable cfg instant_max s" and "\<not> wq_shutdown (wq_inner (sys_queue s))"
    and "d \<in> set (delayed_heap (wq_inner (sys_queue s)))" and "ready_at d \<le> now"
    and "dkey d \<notin> processing (wq_inner (sys_queue s))"
  shows "\<exists>w k. get_iteration now (sys_queue s) = (w, Got k) \<and>
               (k = dkey d \<or> dkey d \<in> set (ready (wq_inner w)))"
proof -
  have "inner_inv (wq_inner (sys_queue s))" using wq_reachable_inv[OF assms(1)] by (simp add: wq_inv_def Let_def)
  then show ?thesis using assms(2-5) by (rule get_iteration_due) blast
qed

theorem workqueue_due_keys_served_witness:
  "\<exists>w k. get_iteration 5 (sys_queue sample_wq) = (w, Got k) \<and> (k = 3 \<or> 3 \<in> set (ready (wq_inner w)))"
  using workqueue_due_keys_served[OF sample_wq_reachable, of "\<lparr>ready_at = 5, dseq = 0, dkey = 3\<rparr>" 5]
  by (simp add: sample_wq_def sample_wq_inner_def)

text \<open>
  The backoff is the documented ramp.  The delay after \<open>n\<close> attempts is exactly
  \<open>base * 2 ^ min n 20\<close> capped at the maximum: the 32-bit shift never overflows, and the
  saturation of the duration product is never visible because the cap is itself a duration.
\<close>

theorem delay_for_exact_ramp:
  assumes "wq_max cfg \<le> duration_max"
  shows "delay_for cfg n = min (wq_base cfg * 2 ^ min (unat n) 20) (wq_max cfg)"
proof -
  have small: "min (unat n) 20 < 32" by simp
  then show ?thesis using assms shl_one[OF small]
    by (simp add: delay_for_def checked_shl_u32_def duration_saturating_mul_def del: min_less_iff_conj)
qed

theorem delay_for_exact_ramp_witness:
  "delay_for wq_config_default 3 = 4 * 10 ^ 9 \<and> delay_for wq_config_default 40 = 15 * 10 ^ 9"
  using delay_for_exact_ramp[of wq_config_default 3] delay_for_exact_ramp[of wq_config_default 40]
  by (simp add: wq_config_default_def duration_max_def)

text \<open>
  The field documentation of \<open>shutdown\<close> says that \<open>get\<close> returns \<open>None\<close> once the flag is set; a
  key that was ready before is still handed out.
\<close>

theorem shutdown_hands_out_ready_keys:
  "snd (get_iteration 0 (shutdown (wq_add k workqueue_new))) = Got k"
  by (simp add: shutdown_def workqueue_new_def wq_inner_new_def wq_ops)

end
