(* ===== verification/Net_Parse.thy ===== *)
theory Net_Parse
  imports Cox_Prelude
begin

text \<open>
  The textual address parsers of \<open>core::net\<close> the sources call through \<open>str::parse\<close>
  (\<open>IpAddr\<close>, \<open>SocketAddr\<close>), as recursive-descent parsers that return the value read and the
  remaining bytes, and \<open>IpAddr::to_canonical\<close>.
\<close>

type_synonym 'a reader = "string \<Rightarrow> ('a \<times> string) option"

definition to_digit :: "int \<Rightarrow> char \<Rightarrow> int option" where
  "to_digit radix c =
     (let b = of_char c :: int;
          d = (if 48 \<le> b \<and> b \<le> 57 then b - 48
               else if 97 \<le> b \<and> b \<le> 102 then b - 87
               else if 65 \<le> b \<and> b \<le> 70 then b - 55
               else 16)
      in if d < radix then Some d else None)"

fun read_digits :: "int \<Rightarrow> int \<Rightarrow> nat \<Rightarrow> string \<Rightarrow> int \<times> nat \<times> string" where
  "read_digits radix acc n [] = (acc, n, [])"
| "read_digits radix acc n (c # s) =
     (case to_digit radix c of
        Some d \<Rightarrow> read_digits radix (acc * radix + d) (Suc n) s
      | None \<Rightarrow> (acc, n, c # s))"

text \<open>
  \<open>read_number\<close>: the limit on the digits is optional, the value must fit the target type, and a
  number of more than one digit starts with zero only where that is allowed.  The checked
  arithmetic of the unlimited case fails exactly when the final value does not fit.
\<close>

definition read_number :: "int \<Rightarrow> nat option \<Rightarrow> bool \<Rightarrow> int \<Rightarrow> int reader" where
  "read_number radix max_digits allow_zero_prefix type_max s =
     (let (v, n, rest) = read_digits radix 0 0 s in
      if (case max_digits of Some m \<Rightarrow> n > m | None \<Rightarrow> False) \<or> n = 0 \<or>
         \<not> allow_zero_prefix \<and> starts_with s ''0'' \<and> n > 1 \<or> v > type_max
      then None else Some (v, rest))"

definition read_given_char :: "char \<Rightarrow> unit reader" where
  "read_given_char c s = (case s of x # rest \<Rightarrow> if x = c then Some ((), rest) else None | [] \<Rightarrow> None)"

definition read_separator :: "char \<Rightarrow> nat \<Rightarrow> 'a reader \<Rightarrow> 'a reader" where
  "read_separator sep index inner s =
     (if index = 0 then inner s
      else case read_given_char sep s of None \<Rightarrow> None | Some (_, s) \<Rightarrow> inner s)"

fun read_octets :: "nat \<Rightarrow> nat \<Rightarrow> int list reader" where
  "read_octets i 0 s = Some ([], s)"
| "read_octets i (Suc n) s =
     (case read_separator (CHR ''.'') i (read_number 10 (Some 3) False 255) s of
        None \<Rightarrow> None
      | Some (b, s) \<Rightarrow>
          (case read_octets (Suc i) n s of None \<Rightarrow> None | Some (bs, s) \<Rightarrow> Some (b # bs, s)))"

definition read_ipv4_addr :: "int list reader" where
  "read_ipv4_addr s = read_octets 0 4 s"

definition be_value :: "int \<Rightarrow> int list \<Rightarrow> int" where
  "be_value base ds = foldl (\<lambda>acc d. acc * base + d) 0 ds"

text \<open>
  \<open>read_groups\<close> of the IPv6 parser: up to \<open>limit\<close> groups, the last two of which may be an
  embedded IPv4 address; the flag says whether one was read.
\<close>

fun read_groups :: "nat \<Rightarrow> nat \<Rightarrow> string \<Rightarrow> int list \<times> bool \<times> string" where
  "read_groups i 0 s = ([], False, s)"
| "read_groups i (Suc n) s =
     (case (if n > 0 then read_separator (CHR '':'') i read_ipv4_addr s else None) of
        Some ([a, b, c, d], s') \<Rightarrow> ([a * 256 + b, c * 256 + d], True, s')
      | _ \<Rightarrow>
          (case read_separator (CHR '':'') i (read_number 16 (Some 4) True 65535) s of
             Some (g, s') \<Rightarrow> (let (gs, v4, s'') = read_groups (Suc i) n s' in (g # gs, v4, s''))
           | None \<Rightarrow> ([], False, s)))"

definition read_ipv6_addr :: "int list reader" where
  "read_ipv6_addr s =
     (let (head, head_ipv4, s1) = read_groups 0 8 s in
      if length head = 8 then Some (head, s1)
      else if head_ipv4 then None
      else case read_given_char (CHR '':'') s1 of
             None \<Rightarrow> None
           | Some (_, s2) \<Rightarrow>
               (case read_given_char (CHR '':'') s2 of
                  None \<Rightarrow> None
                | Some (_, s3) \<Rightarrow>
                    (let (tail, _, s4) = read_groups 0 (8 - (length head + 1)) s3
                     in Some (head @ replicate (8 - length head - length tail) 0 @ tail, s4))))"

definition ip_v4 :: "int list \<Rightarrow> ip_addr" where
  "ip_v4 os = V4 (of_int (be_value 256 os))"

definition ip_v6 :: "int list \<Rightarrow> ip_addr" where
  "ip_v6 gs = V6 (of_int (be_value 65536 gs))"

definition parse_with :: "'a reader \<Rightarrow> string \<Rightarrow> 'a option" where
  "parse_with inner s = (case inner s of Some (v, []) \<Rightarrow> Some v | _ \<Rightarrow> None)"

definition read_ip_addr :: "ip_addr reader" where
  "read_ip_addr s =
     (case read_ipv4_addr s of
        Some (os, rest) \<Rightarrow> Some (ip_v4 os, rest)
      | None \<Rightarrow> map_option (\<lambda>(gs, rest). (ip_v6 gs, rest)) (read_ipv6_addr s))"

definition parse_ip_addr :: "string \<Rightarrow> ip_addr option" where
  "parse_ip_addr s = parse_with read_ip_addr s"

definition read_port :: "int reader" where
  "read_port s =
     (case read_given_char (CHR '':'') s of
        None \<Rightarrow> None | Some (_, s) \<Rightarrow> read_number 10 None True 65535 s)"

definition read_scope_id :: "int reader" where
  "read_scope_id s =
     (case read_given_char (CHR 0x25) s of
        None \<Rightarrow> None | Some (_, s) \<Rightarrow> read_number 10 None True (2 ^ 32 - 1) s)"

definition read_socket_addr_v4 :: "socket_addr reader" where
  "read_socket_addr_v4 s =
     (case read_ipv4_addr s of
        None \<Rightarrow> None
      | Some (os, s) \<Rightarrow>
          map_option (\<lambda>(p, s). (SocketAddrV4 (of_int (be_value 256 os)) (of_int p), s)) (read_port s))"

definition read_socket_addr_v6 :: "socket_addr reader" where
  "read_socket_addr_v6 s =
     (case read_given_char (CHR 0x5B) s of
        None \<Rightarrow> None
      | Some (_, s) \<Rightarrow>
          (case read_ipv6_addr s of
             None \<Rightarrow> None
           | Some (gs, s) \<Rightarrow>
               (let (scope, s) = (case read_scope_id s of Some (v, s') \<Rightarrow> (v, s') | None \<Rightarrow> (0, s)) in
                case read_given_char (CHR 0x5D) s of
                  None \<Rightarrow> None
                | Some (_, s) \<Rightarrow>
                    map_option (\<lambda>(p, s).
                        (SocketAddrV6 (of_int (be_value 65536 gs)) (of_int p) 0 (of_int scope), s))
                      (read_port s))))"

definition parse_socket_addr :: "string \<Rightarrow> socket_addr option" where
  "parse_socket_addr s =
     parse_with (\<lambda>s. case read_socket_addr_v4 s of Some r \<Rightarrow> Some r | None \<Rightarrow> read_socket_addr_v6 s) s"

text \<open>An IPv4-mapped IPv6 address is read as its IPv4 address.\<close>

definition to_canonical :: "ip_addr \<Rightarrow> ip_addr" where
  "to_canonical ip =
     (case ip of
        V4 a \<Rightarrow> V4 a
      | V6 a \<Rightarrow> if drop_bit 32 a = 0xFFFF then V4 (ucast a) else V6 a)"

section \<open>Lemmas\<close>

lemma to_canonical_idem [simp]: "to_canonical (to_canonical ip) = to_canonical ip"
  by (simp add: to_canonical_def split: ip_addr.split)

end
