(* ===== verification/Access_Control.thy ===== *)
theory Access_Control
  imports Net_Parse Route_Entry
begin

text \<open>
  Source-address access control of the proxy
  (\<open>crates/coxswain-proxy/src/policy/access_control.rs\<close>): the effective client address behind
  trusted proxies and the deny and allow lists.  Networks belong to the \<open>ipnet\<close> crate: their
  type, their parser and the membership test are parameters.  Of the session the code reads the
  peer address and one header, given as the function from a header name to its readable value.
\<close>

section \<open>Definitions\<close>

definition PRIVATE_NETS :: "(string \<Rightarrow> 'net option) \<Rightarrow> 'net list option" where
  "PRIVATE_NETS parse_net =
     those (map parse_net
       [''10.0.0.0/8'', ''172.16.0.0/12'', ''192.168.0.0/16'', ''127.0.0.0/8'', ''169.254.0.0/16'',
        ''::1/128'', ''fe80::/10'', ''fc00::/7'', ''::/128''])"

text \<open>\<open>str::trim\<close> on the visible ASCII strings \<open>HeaderValue::to_str\<close> yields.\<close>

definition is_whitespace :: "char \<Rightarrow> bool" where
  "is_whitespace c \<longleftrightarrow> c \<in> set [CHR 0x09, CHR 0x0A, CHR 0x0B, CHR 0x0C, CHR 0x0D, CHR '' '']"

definition str_trim :: "string \<Rightarrow> string" where
  "str_trim s = rev (dropWhile is_whitespace (rev (dropWhile is_whitespace s)))"

definition in_nets :: "('net \<Rightarrow> ip_addr \<Rightarrow> bool) \<Rightarrow> 'net list \<Rightarrow> ip_addr \<Rightarrow> bool" where
  "in_nets contains nets ip = list_ex (\<lambda>n. contains n ip) nets"

definition header_addresses :: "string \<Rightarrow> ip_addr list" where
  "header_addresses value =
     map to_canonical
       (List.map_filter parse_ip_addr
         (filter (\<lambda>t. t \<noteq> []) (map str_trim (rev (split_on (CHR '','') value)))))"

definition rightmost_untrusted_ip ::
  "('net \<Rightarrow> ip_addr \<Rightarrow> bool) \<Rightarrow> 'net list \<Rightarrow> string \<Rightarrow> 'net list \<Rightarrow> ip_addr option" where
  "rightmost_untrusted_ip contains private value trusted =
     List.find (\<lambda>ip. \<not> in_nets contains trusted ip \<and> \<not> in_nets contains private ip)
       (header_addresses value)"

definition resolve_client_ip ::
  "('net \<Rightarrow> ip_addr \<Rightarrow> bool) \<Rightarrow> 'net list \<Rightarrow> socket_addr option \<Rightarrow> (string \<Rightarrow> string option)
     \<Rightarrow> socket_addr option \<Rightarrow> 'net forwarded_for_config option \<Rightarrow> ip_addr option" where
  "resolve_client_ip contains private session_peer header real_client_addr fwd =
     (let l4_ip = (case real_client_addr of
                     Some a \<Rightarrow> Some (sock_ip a) | None \<Rightarrow> map_option sock_ip session_peer)
      in case fwd of
           None \<Rightarrow> l4_ip
         | Some cfg \<Rightarrow>
             if \<not> (case l4_ip of Some ip \<Rightarrow> in_nets contains (ff_trusted_cidrs cfg) ip | None \<Rightarrow> False)
             then l4_ip
             else
               (case (case header (ff_header cfg) of
                        None \<Rightarrow> None
                      | Some hv \<Rightarrow>
                          rightmost_untrusted_ip contains private hv (ff_trusted_cidrs cfg)) of
                  Some ip \<Rightarrow> Some ip
                | None \<Rightarrow> l4_ip))"

definition ip_allowed :: "('net \<Rightarrow> ip_addr \<Rightarrow> bool) \<Rightarrow> ip_addr option \<Rightarrow> 'net list \<Rightarrow> bool" where
  "ip_allowed contains client_ip nets =
     (case client_ip of None \<Rightarrow> False | Some ip \<Rightarrow> in_nets contains nets (to_canonical ip))"

definition ip_denied :: "('net \<Rightarrow> ip_addr \<Rightarrow> bool) \<Rightarrow> ip_addr option \<Rightarrow> 'net list \<Rightarrow> bool" where
  "ip_denied contains client_ip nets =
     (case client_ip of None \<Rightarrow> False | Some ip \<Rightarrow> in_nets contains nets (to_canonical ip))"

text \<open>The list that wrote the \<open>403\<close>, or \<open>None\<close> when the request proceeds.\<close>

definition enforce_ip_access ::
  "('net \<Rightarrow> ip_addr \<Rightarrow> bool) \<Rightarrow> 'net list option \<Rightarrow> 'net list option \<Rightarrow> ip_addr option
     \<Rightarrow> string option" where
  "enforce_ip_access contains deny_nets allow_nets client_ip =
     (if (case deny_nets of Some nets \<Rightarrow> ip_denied contains client_ip nets | None \<Rightarrow> False)
      then Some ''deny-list''
      else if (case allow_nets of Some nets \<Rightarrow> \<not> ip_allowed contains client_ip nets | None \<Rightarrow> False)
      then Some ''allow-list''
      else None)"

section \<open>Lemmas\<close>

lemma split_on_append: "split_on c (s @ c # t) = split_on c s @ split_on c t"
proof (induction s)
  case (Cons x s)
  then show ?case by (cases "split_on c s") (auto split: list.splits)
qed simp

lemma header_addresses_append:
  "header_addresses (s @ CHR '','' # t) = header_addresses t @ header_addresses s"
  by (simp add: header_addresses_def split_on_append map_filter_def)

lemma find_append:
  "List.find P (xs @ ys) = (case List.find P xs of Some x \<Rightarrow> Some x | None \<Rightarrow> List.find P ys)"
  by (induction xs) auto

lemma rightmost_untrusted_append:
  "rightmost_untrusted_ip contains private v trusted = Some ip \<Longrightarrow>
   rightmost_untrusted_ip contains private (forged @ CHR '','' # v) trusted = Some ip"
  by (simp add: rightmost_untrusted_ip_def header_addresses_append find_append)

section \<open>Properties\<close>

text \<open>
  C22: With trusted networks configured, a client cannot forge its address, whether the connection's own
  address comes from the PROXY protocol or from the socket.  When that address is not in a trusted
  network, or is unknown, the header is ignored and the connection's address is used; when it is, the
  address attested by the part of the header the trusted proxies wrote is used, whatever the client put
  in front of that part.
\<close>

theorem forwarded_header_prefix_ignored:
  assumes "ff_trusted_cidrs cfg \<noteq> []"
    and "l4 = (case real_client_addr of Some a \<Rightarrow> Some (sock_ip a) | None \<Rightarrow> map_option sock_ip session_peer)"
    and "header (ff_header cfg) = Some (forged @ CHR '','' # v)"
  shows "((\<nexists>peer. l4 = Some peer \<and> in_nets contains (ff_trusted_cidrs cfg) peer) \<longrightarrow>
        resolve_client_ip contains private session_peer header real_client_addr (Some cfg) = l4) \<and>
     (\<forall>peer ip. l4 = Some peer \<and> in_nets contains (ff_trusted_cidrs cfg) peer \<and>
        rightmost_untrusted_ip contains private v (ff_trusted_cidrs cfg) = Some ip \<longrightarrow>
        resolve_client_ip contains private session_peer header real_client_addr (Some cfg) = Some ip)"
  using assms by (auto simp: resolve_client_ip_def rightmost_untrusted_append Let_def split: option.splits)

theorem forwarded_header_prefix_ignored_witness:
  "let contains = (\<lambda>n ip. n = ip);
       cfg = \<lparr>ff_header = ''x-forwarded-for'', ff_trusted_cidrs = [V4 7]\<rparr>;
       header = (\<lambda>_. Some (''1.2.3.4'' @ CHR '','' # ''203.0.113.9''))
   in resolve_client_ip contains [] (Some (SocketAddrV4 7 1)) header None (Some cfg) = Some (V4 0xCB007109) \<and>
      resolve_client_ip contains [] (Some (SocketAddrV4 7 1)) header (Some (SocketAddrV4 8 1)) (Some cfg) = Some (V4 8)"
proof -
  have v: "rightmost_untrusted_ip (\<lambda>n ip. n = ip) [] ''203.0.113.9'' [V4 7] = Some (V4 0xCB007109)"
    by code_simp
  show ?thesis
    using v forwarded_header_prefix_ignored[of "\<lparr>ff_header = ''x-forwarded-for'', ff_trusted_cidrs = [V4 7]\<rparr>" "Some (V4 7)"
        "Some (SocketAddrV4 7 1)" None "\<lambda>_. Some (''1.2.3.4'' @ CHR '','' # ''203.0.113.9'')" "''1.2.3.4''" "''203.0.113.9''" "\<lambda>n ip. n = ip" "[]"]
      forwarded_header_prefix_ignored[of "\<lparr>ff_header = ''x-forwarded-for'', ff_trusted_cidrs = [V4 7]\<rparr>" "Some (V4 8)"
        "Some (SocketAddrV4 7 1)" "Some (SocketAddrV4 8 1)" "\<lambda>_. Some (''1.2.3.4'' @ CHR '','' # ''203.0.113.9'')" "''1.2.3.4''" "''203.0.113.9''" "\<lambda>n ip. n = ip" "[]"]
    by (simp add: Let_def in_nets_def)
qed

text \<open>
  Exactly who is blocked.  A request is rejected by the deny list when its canonical address
  is in it, otherwise by the allow list when the address is unknown or in none of its networks;
  the deny list is consulted first, and presenting an IPv4 address in its IPv4-mapped IPv6 form
  changes nothing.
\<close>

theorem ip_access_decision:
  "enforce_ip_access contains deny allow (Some ip) =
     (if (\<exists>nets. deny = Some nets \<and> in_nets contains nets (to_canonical ip)) then Some ''deny-list''
      else if (\<exists>nets. allow = Some nets \<and> \<not> in_nets contains nets (to_canonical ip))
      then Some ''allow-list'' else None) \<and>
   enforce_ip_access contains deny allow (Some (to_canonical ip)) =
     enforce_ip_access contains deny allow (Some ip) \<and>
   enforce_ip_access contains deny allow None = (if allow = None then None else Some ''allow-list'')"
  by (auto simp: enforce_ip_access_def ip_denied_def ip_allowed_def split: option.splits)

end
