(* ===== verification/Ownership.thy ===== *)
theory Ownership
  imports Cox_Prelude
begin

text \<open>
  Object identity and Gateway ownership (\<open>crates/coxswain-core/src/ownership.rs\<close>), with the
  \<open>str::split_once\<close> and \<open>str::splitn\<close> of the standard library it and the wire keys use.  A set of
  owned Gateways is the list of its members.
\<close>

section \<open>Splitting\<close>

definition split_once :: "char \<Rightarrow> string \<Rightarrow> (string \<times> string) option" where
  "split_once c s =
     (case find_char c s of None \<Rightarrow> None | Some i \<Rightarrow> Some (take i s, drop (Suc i) s))"

fun splitn :: "nat \<Rightarrow> char \<Rightarrow> string \<Rightarrow> string list" where
  "splitn 0 c s = []"
| "splitn (Suc 0) c s = [s]"
| "splitn (Suc (Suc n)) c s =
     (case split_once c s of None \<Rightarrow> [s] | Some (a, b) \<Rightarrow> a # splitn (Suc n) c b)"

lemma split_once_append: "c \<notin> set a \<Longrightarrow> split_once c (a @ c # b) = Some (a, b)"
  by (simp add: split_once_def find_char_append)

lemma split_once_SomeD: "split_once c s = Some (a, b) \<Longrightarrow> s = a @ c # b \<and> c \<notin> set a"
proof (induction s arbitrary: a)
  case (Cons x s)
  then show ?case by (cases "x = c") (auto simp: split_once_def split: option.splits)
qed (simp add: split_once_def)

lemma split_once_None: "split_once c s = None \<longleftrightarrow> c \<notin> set s"
  by (cases "find_char c s") (auto simp: split_once_def find_char_None[symmetric])

section \<open>Object keys\<close>

record object_key =
  ok_ns :: string
  ok_name :: string

definition object_key_to_string :: "object_key \<Rightarrow> string" where
  "object_key_to_string k = ok_ns k @ ''/'' @ ok_name k"

definition object_key_from_str :: "string \<Rightarrow> object_key option" where
  "object_key_from_str s =
     (case split_once (CHR ''/'') s of
        None \<Rightarrow> None | Some (ns, name) \<Rightarrow> Some \<lparr>ok_ns = ns, ok_name = name\<rparr>)"

definition parent_ref_owned ::
  "string option \<Rightarrow> string option \<Rightarrow> string option \<Rightarrow> string \<Rightarrow> string \<Rightarrow> object_key list \<Rightarrow> bool" where
  "parent_ref_owned grp kind namespace name default_ns owned =
     (let grp = (case grp of Some g \<Rightarrow> g | None \<Rightarrow> ''gateway.networking.k8s.io'');
          kind = (case kind of Some k \<Rightarrow> k | None \<Rightarrow> ''Gateway'')
      in if grp \<noteq> ''gateway.networking.k8s.io'' \<or> kind \<noteq> ''Gateway'' then False
         else
           let ns = (case namespace of Some n \<Rightarrow> n | None \<Rightarrow> default_ns)
           in list_ex (\<lambda>k. ok_ns k = ns \<and> ok_name k = name) owned)"

section \<open>Lemmas\<close>

lemma object_key_round_trip:
  "CHR ''/'' \<notin> set (ok_ns k) \<Longrightarrow> object_key_from_str (object_key_to_string k) = Some k"
  by (simp add: object_key_from_str_def object_key_to_string_def split_once_append)

lemma object_key_print_parse:
  "object_key_from_str s = Some k \<Longrightarrow> object_key_to_string k = s"
  by (auto simp: object_key_from_str_def object_key_to_string_def dest!: split_once_SomeD split: option.splits)

lemma parent_ref_owned_iff:
  "parent_ref_owned None None namespace name default_ns owned \<longleftrightarrow>
     \<lparr>ok_ns = (case namespace of Some n \<Rightarrow> n | None \<Rightarrow> default_ns), ok_name = name\<rparr> \<in> set owned"
proof -
  have "ok_ns k = ns \<and> ok_name k = name \<longleftrightarrow> k = \<lparr>ok_ns = ns, ok_name = name\<rparr>" for k :: object_key and ns
    by (cases k) auto
  then show ?thesis by (auto simp: parent_ref_owned_def list_ex_iff Let_def)
qed

end
