(* ===== verification/Wire_Types.thy ===== *)
theory Wire_Types
  imports Cox_Prelude
begin

text \<open>
  The messages of \<open>proto/coxswain/discovery/v1/discovery.proto\<close> that carry the routing world, as
  the structures the protobuf compiler derives from them: a message field is an option, a
  \<open>oneof\<close> an optional datatype, an enum its number, a repeated field a list.  Backend groups and
  filters embed each other and are datatypes; the other messages are records.
\<close>

type_synonym enum_value = int

section \<open>Backends and filters\<close>

record p_endpoint_ref =
  pr_namespace :: string
  pr_service :: string
  pr_port :: u32

record p_weighted_backend =
  pwb_addrs :: "string list"
  pwb_weight :: u32
  pwb_endpoint_ref :: "p_endpoint_ref option"

record p_subject_alt_name =
  psan_kind :: enum_value
  psan_value :: string

datatype p_ca = PSystem bool | PBundle "u8 list"

record p_upstream_tls =
  ptls_sni :: string
  ptls_ca :: "p_ca option"
  ptls_group_key :: u64
  ptls_client_cert_pem :: "u8 list"
  ptls_client_cert_key :: "u8 list"
  ptls_client_cert_source :: string
  ptls_subject_alt_names :: "p_subject_alt_name list"

record p_retry_policy =
  prp_attempts :: u32
  prp_backoff_ms :: u32
  prp_http_codes :: "u32 list"
  prp_grpc_codes :: "u32 list"

datatype p_hash_source = PUri bool | PSourceIp bool | PHashHeader string | PHashCookie string

datatype p_lb_algorithm =
    PRoundRobin bool | PLeastConn bool | PEwma bool | PHash "p_hash_source option"

record p_load_balance =
  plb_algorithm :: "p_lb_algorithm option"

datatype p_affinity_mode = PCookieName string | PAffinityHeader string

record p_session_affinity =
  psa_mode :: "p_affinity_mode option"

record p_header_mod =
  phm_remove :: "string list"
  phm_add :: "(string \<times> string) list"
  phm_set :: "(string \<times> string) list"

datatype p_path_modifier_kind =
    PReplaceFullPath string
  | PReplacePrefix string string
  | PRegexReplace string string

record p_path_modifier =
  ppm_modifier :: "p_path_modifier_kind option"

record p_request_redirect =
  prd_status_code :: u32
  prd_path :: "p_path_modifier option"
  prd_scheme :: "string option"
  prd_hostname :: "string option"
  prd_port :: "u32 option"

record p_url_rewrite =
  puw_path :: "p_path_modifier option"
  puw_hostname :: "string option"

record p_mirror_fraction =
  pmf_numerator :: u32
  pmf_denominator :: u32

record p_cors_filter =
  pcf_allow_origins :: "string list"
  pcf_allow_all_origins :: bool
  pcf_allow_credentials :: bool
  pcf_allow_methods :: "string option"
  pcf_allow_headers :: "string option"
  pcf_expose_headers :: "string option"
  pcf_max_age :: int

text \<open>A \<open>PerBackendFiltersEntry\<close> is the pair of its index and its filters.\<close>

datatype p_backend_group =
  PBackendGroup
    (pbg_name: string)
    (pbg_protocol: enum_value)
    (pbg_tls: "p_upstream_tls option")
    (pbg_retry: "p_retry_policy option")
    (pbg_load_balance: "p_load_balance option")
    (pbg_session_affinity: "p_session_affinity option")
    (pbg_keepalive_millis: "u64 option")
    (pbg_connect_millis: "u64 option")
    (pbg_weighted: "p_weighted_backend list")
    (pbg_per_backend_filters: "(u32 \<times> p_filter_action list) list")
and p_filter_action =
  PFilterAction (pfa_action: "p_action option")
and p_action =
    PRequestHeaderModifier p_header_mod
  | PResponseHeaderModifier p_header_mod
  | PRequestRedirect p_request_redirect
  | PUrlRewrite p_url_rewrite
  | PMirror "p_backend_group option" "p_mirror_fraction option"
  | PCors p_cors_filter

section \<open>Routes\<close>

datatype p_value_kind = PExactValue string | PRegexValue string

record p_value_match =
  pvm_value :: "p_value_kind option"

record p_predicate =
  pp_name :: string
  pp_matcher :: "p_value_match option"

record p_match_predicates =
  pmp_method :: "string option"
  pmp_headers :: "p_predicate list"
  pmp_query :: "p_predicate list"

record p_duration =
  pd_secs :: u64
  pd_nanos :: u32

record p_route_timeouts =
  pto_request :: "p_duration option"
  pto_backend_request :: "p_duration option"
  pto_connect :: "p_duration option"
  pto_read :: "p_duration option"
  pto_send :: "p_duration option"

datatype p_rate_limit_dimension = PClientIp bool | PRateHeader string

record p_rate_limit_key =
  prk_dimension :: "p_rate_limit_dimension option"

record p_rate_limit_config =
  prl_requests_per_second :: u32
  prl_burst :: u32
  prl_key :: "p_rate_limit_key option"

record p_http_ext_auth_config =
  pha_always_set_cookie :: bool
  pha_response_headers :: "string list"
  pha_allowed_headers :: "string list"

record p_grpc_ext_auth_config =
  pga_response_headers :: "string list"
  pga_allowed_headers :: "string list"

record p_ext_auth_config =
  pea_timeout :: "p_duration option"
  pea_http :: "p_http_ext_auth_config option"
  pea_endpoints :: "string list"
  pea_fail_closed :: bool
  pea_grpc :: "p_grpc_ext_auth_config option"

record p_basic_cred =
  pbc_username :: string
  pbc_hash_kind :: enum_value
  pbc_hash :: string

record p_jwt_auth_config =
  pj_issuer :: string
  pj_audiences :: "string list"
  pj_jwks :: string
  pj_from_headers :: "(string \<times> string) list"
  pj_forward_payload_header :: "string option"
  pj_claim_to_headers :: "(string \<times> string) list"
  pj_forward_token :: bool

datatype p_auth_kind =
    PExternal p_ext_auth_config
  | PBasic "p_basic_cred list"
  | PUnavailable bool
  | PJwt p_jwt_auth_config

record p_ingress_auth_config =
  pia_auth :: "p_auth_kind option"

record p_compression_config =
  pcc_gzip :: bool
  pcc_brotli :: bool
  pcc_level :: u32
  pcc_min_size :: u64
  pcc_types :: "string list"

record p_forwarded_for_config =
  pff_header :: string
  pff_trusted_cidrs :: "string list"

record p_circuit_breaker_config =
  pcb_threshold_pct :: u32
  pcb_min_requests :: u32
  pcb_window :: "p_duration option"
  pcb_open_duration :: "p_duration option"
  pcb_max_open_duration :: "p_duration option"

record p_route_entry =
  pre_kind :: enum_value
  pre_path :: string
  pre_route_id :: string
  pre_metric_route_id :: string
  pre_path_pattern :: string
  pre_backend_group :: "p_backend_group option"
  pre_predicates :: "p_match_predicates option"
  pre_timeouts :: "p_route_timeouts option"
  pre_rate_limit :: "p_rate_limit_config option"
  pre_auth :: "p_ingress_auth_config list"
  pre_compression :: "p_compression_config option"
  pre_forwarded_for :: "p_forwarded_for_config option"
  pre_circuit_breaker :: "p_circuit_breaker_config option"
  pre_created_at_unix_millis :: "u64 option"
  pre_error_status :: "u32 option"
  pre_max_body_size :: "u64 option"
  pre_access_log_enabled :: "bool option"
  pre_filters :: "p_filter_action list"
  pre_allow_source_range :: "string list"
  pre_deny_source_range :: "string list"

datatype p_host_pattern =
    PExactHost string
  | PWildcardHost (pwh_suffix: string) (pwh_kind: enum_value)
  | PCatchall bool

record p_host_entry =
  phe_pattern :: "p_host_pattern option"
  phe_normalize_level :: enum_value
  phe_routes :: "p_route_entry list"

section \<open>Resources\<close>

record p_route_host_resource =
  prh_table :: enum_value
  prh_port :: u32
  prh_host :: "p_host_entry option"

record p_endpoint_resource =
  per_namespace :: string
  per_service :: string
  per_port :: u32
  per_app_protocol :: enum_value
  per_service_exists :: bool
  per_addrs :: "string list"

datatype p_sni_pattern = PExactSni string | PWildcardSuffix string | PCatchallSni bool

record p_tls_passthrough_entry =
  ppe_pattern :: "p_sni_pattern option"
  ppe_backend_group :: "p_backend_group option"

record p_tls_passthrough_port =
  ppt_port :: u32
  ppt_entries :: "p_tls_passthrough_entry list"

record p_l4_port =
  pl4_port :: u32
  pl4_backend_group :: "p_backend_group option"

record p_tls_cert =
  ptc_source :: string
  ptc_cert_pem :: "u8 list"
  ptc_key_pem :: "u8 list"
  ptc_not_after_unix_secs :: "u64 option"
  ptc_key_algorithm :: enum_value

record p_tls_cert_entry =
  pce_host_pattern :: string
  pce_certs :: "p_tls_cert list"

record p_tls_store =
  pts_default_certs :: "p_tls_cert list"
  pts_exact :: "p_tls_cert_entry list"
  pts_wildcard :: "p_tls_cert_entry list"

record p_port_tls_entry =
  ppt_tls_port :: u32
  ppt_store :: "p_tls_store option"

record p_client_cert_config =
  pcl_ca_pem :: "u8 list"
  pcl_verify_depth :: u32
  pcl_pass_to_upstream :: bool
  pcl_allow_insecure_fallback :: bool

datatype p_client_cert_kind = PClientCertConfig p_client_cert_config | PClientCertUnavailable bool

text \<open>The state message of a client-certificate entry holds one \<open>oneof\<close>.\<close>

record p_client_cert_entry =
  pcl_host_pattern :: string
  pcl_state :: "p_client_cert_kind option option"
  pcl_entry_port :: u32

record p_client_cert_port_resource =
  pcp_port :: u32
  pcp_entries :: "p_client_cert_entry list"

record p_proxy_protocol_config =
  ppp_enabled :: bool
  ppp_trusted_sources :: "string list"

record p_listener_info =
  pli_readiness :: enum_value
  pli_detail :: string
  pli_hostname :: string
  pli_allows_all_namespaces :: bool
  pli_attached_routes :: int
  pli_port :: u32
  pli_internal_port :: u32
  pli_conflicted :: bool
  pli_protocol_conflict :: bool
  pli_proxy_protocol :: "p_proxy_protocol_config option"

record p_listener_info_entry =
  ple_name :: string
  ple_info :: "p_listener_info option"
  ple_source :: string

text \<open>The status message of a Gateway holds the list of its listeners.\<close>

record p_gateway_status_entry =
  pgs_object_key :: string
  pgs_status :: "p_listener_info_entry list option"

record p_gateway_meta =
  pgm_publish_seq :: u64
  pgm_expected_proxy_sa :: string

datatype p_payload =
    PRouteHost p_route_host_resource
  | PTlsPort p_port_tls_entry
  | PClientCertPort p_client_cert_port_resource
  | PListenerStatus p_gateway_status_entry
  | PTlsPassthroughPort p_tls_passthrough_port
  | PTlsTerminatePort p_tls_passthrough_port
  | PTcpPort p_l4_port
  | PUdpPort p_l4_port
  | PEndpoints p_endpoint_resource
  | PGatewayMeta p_gateway_meta

record p_resource =
  prs_payload :: "p_payload option"
  prs_qualifier_namespace :: string
  prs_qualifier_name :: string

record p_snapshot =
  psn_version :: string
  psn_nonce :: "u8 list"
  psn_full :: bool
  psn_resources :: "p_resource list"
  psn_removed_resources :: "string list"
  psn_publish_seq :: u64

end
