(* ===== verification/Resource_Key.thy ===== *)
theory Resource_Key
  imports Net_Parse Ownership Wire_Types
begin

text \<open>
  The canonical key grammar of discovery resources
  (\<open>crates/coxswain-discovery/src/wire/resource.rs\<close>): the key a resource is addressed by on both
  ends of the stream, and the parser that resolves the tombstones of a delta.  Decimal printing
  and \<open>str::parse\<close> at \<open>u16\<close> are the standard library's.
\<close>

section \<open>Decimal numbers\<close>

definition digit_char :: "int \<Rightarrow> char" where
  "digit_char d = char_of (48 + d)"

function dec :: "int \<Rightarrow> string" where
  "dec n = (if n < 10 then [digit_char n] else dec (n div 10) @ [digit_char (n mod 10)])"
  by auto
termination by (relation "measure nat") auto

declare dec.simps [simp del]

fun parse_digits_u16 :: "int \<Rightarrow> string \<Rightarrow> int option" where
  "parse_digits_u16 acc [] = Some acc"
| "parse_digits_u16 acc (c # cs) =
     (case to_digit 10 c of
        None \<Rightarrow> None
      | Some d \<Rightarrow>
          if 65535 < acc * 10 + d then None else parse_digits_u16 (acc * 10 + d) cs)"

definition parse_u16 :: "string \<Rightarrow> u16 option" where
  "parse_u16 s =
     (let digits = (case s of c # cs \<Rightarrow> if c = CHR ''+'' then cs else s | [] \<Rightarrow> [])
      in if digits = [] then None else map_option word_of_int (parse_digits_u16 0 digits))"

section \<open>Keys\<close>

datatype resource_key_error =
    MissingPayload
  | MissingHost
  | MissingHostPattern
  | UnspecifiedTable
  | UnspecifiedWildcardKind
  | MalformedKey string
  | MissingQualifier

datatype parsed_host =
    ParsedExact string
  | ParsedWildcard string bool
  | ParsedCatchall

datatype parsed_key =
    ParsedRoute bool u16 parsed_host
  | ParsedTls u16
  | ParsedClientCert u16
  | ParsedListener string
  | ParsedTlsPassthrough u16
  | ParsedTlsTerminate u16
  | ParsedTcp u16
  | ParsedUdp u16
  | ParsedEndpoints string string u16
  | ParsedQualified string string parsed_key
  | ParsedGatewayMeta string string

definition route_host_key :: "p_route_host_resource \<Rightarrow> resource_key_error + string" where
  "route_host_key r =
     (case (if prh_table r = 1 then Some ''ingress'' else if prh_table r = 2 then Some ''gateway'' else None) of
        None \<Rightarrow> Inl UnspecifiedTable
      | Some table \<Rightarrow>
          case prh_host r of
            None \<Rightarrow> Inl MissingHost
          | Some host \<Rightarrow>
              let start = ''route|'' @ table @ ''|'' @ dec (uint (prh_port r)) in
              case phe_pattern host of
                None \<Rightarrow> Inl MissingHostPattern
              | Some (PExactHost h) \<Rightarrow> Inr (start @ ''|exact|'' @ h)
              | Some (PWildcardHost suffix kind) \<Rightarrow>
                  (if kind = 1 then Inr (start @ ''|wildcard-single|'' @ suffix)
                   else if kind = 2 then Inr (start @ ''|wildcard-multi|'' @ suffix)
                   else Inl UnspecifiedWildcardKind)
              | Some (PCatchall _) \<Rightarrow> Inr (start @ ''|catchall''))"

definition qualifier_of :: "p_resource \<Rightarrow> resource_key_error + (string \<times> string) option" where
  "qualifier_of r =
     (let ns = prs_qualifier_namespace r; name = prs_qualifier_name r
      in if ns = [] \<and> name = [] then Inr None
         else if ns \<noteq> [] \<and> name \<noteq> [] then Inr (Some (ns, name))
         else Inl MissingQualifier)"

definition payload_key :: "p_payload \<Rightarrow> resource_key_error + string" where
  "payload_key payload =
     (case payload of
        PRouteHost r \<Rightarrow> route_host_key r
      | PTlsPort e \<Rightarrow> Inr (''tls|'' @ dec (uint (ppt_tls_port e)))
      | PClientCertPort r \<Rightarrow> Inr (''clientcert|'' @ dec (uint (pcp_port r)))
      | PListenerStatus e \<Rightarrow> Inr (''listener|'' @ pgs_object_key e)
      | PTlsPassthroughPort pt \<Rightarrow> Inr (''tlspassthrough|'' @ dec (uint (ppt_port pt)))
      | PTlsTerminatePort pt \<Rightarrow> Inr (''tlsterminate|'' @ dec (uint (ppt_port pt)))
      | PTcpPort pt \<Rightarrow> Inr (''tcp|'' @ dec (uint (pl4_port pt)))
      | PUdpPort pt \<Rightarrow> Inr (''udp|'' @ dec (uint (pl4_port pt)))
      | PEndpoints e \<Rightarrow>
          Inr (''endpoints|'' @ per_namespace e @ ''/'' @ per_service e @ ''/'' @ dec (uint (per_port e)))
      | PGatewayMeta _ \<Rightarrow> Inl MissingQualifier)"

definition canonical_key :: "p_resource \<Rightarrow> resource_key_error + string" where
  "canonical_key r =
     (case prs_payload r of
        None \<Rightarrow> Inl MissingPayload
      | Some payload \<Rightarrow>
          case qualifier_of r of
            Inl e \<Rightarrow> Inl e
          | Inr qualifier \<Rightarrow>
              case (payload, qualifier) of
                (PGatewayMeta _, Some (ns, name)) \<Rightarrow> Inr (''gwmeta|'' @ ns @ ''|'' @ name)
              | _ \<Rightarrow>
                  case payload_key payload of
                    Inl e \<Rightarrow> Inl e
                  | Inr key \<Rightarrow>
                      case qualifier of
                        Some (ns, name) \<Rightarrow> Inr (''gw|'' @ ns @ ''|'' @ name @ ''|'' @ key)
                      | None \<Rightarrow> Inr key)"

definition parse_canonical_port :: "string \<Rightarrow> resource_key_error + u16" where
  "parse_canonical_port s =
     (case parse_u16 s of
        None \<Rightarrow> Inl (MalformedKey ''port field is not a u16'')
      | Some port \<Rightarrow>
          if dec (uint port) \<noteq> s then Inl (MalformedKey ''port field is not in canonical decimal form'')
          else Inr port)"

definition parse_route_host :: "string \<Rightarrow> string option \<Rightarrow> parsed_host option" where
  "parse_route_host pattern host =
     (case host of
        Some h \<Rightarrow>
          if h = [] then None
          else if pattern = ''exact'' then Some (ParsedExact h)
          else if pattern = ''wildcard-single'' then Some (ParsedWildcard h True)
          else if pattern = ''wildcard-multi'' then Some (ParsedWildcard h False)
          else None
      | None \<Rightarrow> if pattern = ''catchall'' then Some ParsedCatchall else None)"

definition parse_route_key :: "string \<Rightarrow> resource_key_error + parsed_key" where
  "parse_route_key rest =
     (let parts = splitn 4 (CHR ''|'') rest;
          table = hd parts
      in case (if table = ''ingress'' then Some False else if table = ''gateway'' then Some True else None) of
           None \<Rightarrow> Inl UnspecifiedTable
         | Some gateway \<Rightarrow>
             case tl parts of
               [] \<Rightarrow> Inl (MalformedKey ''route key missing its port field'')
             | port # parts2 \<Rightarrow>
                 case parse_canonical_port port of
                   Inl e \<Rightarrow> Inl e
                 | Inr port \<Rightarrow>
                     case parts2 of
                       [] \<Rightarrow> Inl (MalformedKey ''route key missing its pattern field'')
                     | pattern # host \<Rightarrow>
                         case parse_route_host pattern (case host of [] \<Rightarrow> None | h # _ \<Rightarrow> Some h) of
                           None \<Rightarrow> Inl (MalformedKey ''route key host pattern/field mismatch'')
                         | Some h \<Rightarrow> Inr (ParsedRoute gateway port h))"

definition parse_port_key :: "(u16 \<Rightarrow> parsed_key) \<Rightarrow> string \<Rightarrow> resource_key_error + parsed_key" where
  "parse_port_key mk rest = map_sum id mk (parse_canonical_port rest)"

definition parse_endpoints_key :: "string \<Rightarrow> resource_key_error + parsed_key" where
  "parse_endpoints_key rest =
     (case splitn 3 (CHR ''/'') rest of
        [namespace, service, port] \<Rightarrow>
          (if namespace \<noteq> [] \<and> service \<noteq> []
           then map_sum id (ParsedEndpoints namespace service) (parse_canonical_port port)
           else Inl (MalformedKey ''endpoints key is not ns/svc/port''))
      | _ \<Rightarrow> Inl (MalformedKey ''endpoints key is not ns/svc/port''))"

definition parse_gwmeta_key :: "string \<Rightarrow> resource_key_error + parsed_key" where
  "parse_gwmeta_key rest =
     (case splitn 2 (CHR ''|'') rest of
        [namespace, name] \<Rightarrow>
          (if namespace \<noteq> [] \<and> name \<noteq> [] then Inr (ParsedGatewayMeta namespace name)
           else Inl (MalformedKey ''gwmeta key is not ns|name''))
      | _ \<Rightarrow> Inl (MalformedKey ''gwmeta key is not ns|name''))"

lemma splitn_3_eq: "splitn 3 c s = [a, b, d] \<Longrightarrow> s = a @ c # b @ c # d \<and> c \<notin> set a \<and> c \<notin> set b"
  by (auto simp: numeral_3_eq_3 split: option.splits dest!: split_once_SomeD)

lemma splitn_2_eq: "splitn 2 c s = [a, b] \<Longrightarrow> s = a @ c # b \<and> c \<notin> set a"
  by (auto simp: numeral_2_eq_2 split: option.splits dest!: split_once_SomeD)

function parse_canonical_key :: "string \<Rightarrow> resource_key_error + parsed_key" where
  "parse_canonical_key key =
     (case split_once (CHR ''|'') key of
        None \<Rightarrow> Inl (MalformedKey ''key carries no '|' separator'')
      | Some (prefix, rest) \<Rightarrow>
          if prefix = ''route'' then parse_route_key rest
          else if prefix = ''tls'' then parse_port_key ParsedTls rest
          else if prefix = ''clientcert'' then parse_port_key ParsedClientCert rest
          else if prefix = ''tlspassthrough'' then parse_port_key ParsedTlsPassthrough rest
          else if prefix = ''tlsterminate'' then parse_port_key ParsedTlsTerminate rest
          else if prefix = ''tcp'' then parse_port_key ParsedTcp rest
          else if prefix = ''udp'' then parse_port_key ParsedUdp rest
          else if prefix = ''listener'' then
            (if rest = [] then Inl (MalformedKey ''listener key carries no object key'')
             else Inr (ParsedListener rest))
          else if prefix = ''endpoints'' then parse_endpoints_key rest
          else if prefix = ''gwmeta'' then parse_gwmeta_key rest
          else if prefix = ''gw'' then
            (case splitn 3 (CHR ''|'') rest of
               [namespace, name, inner] \<Rightarrow>
                 (if namespace \<noteq> [] \<and> name \<noteq> [] \<and> inner \<noteq> [] then
                    (case parse_canonical_key inner of
                       Inl e \<Rightarrow> Inl e
                     | Inr k \<Rightarrow> Inr (ParsedQualified namespace name k))
                  else Inl (MalformedKey ''gw-qualified key is not ns|name|<inner>''))
             | _ \<Rightarrow> Inl (MalformedKey ''gw-qualified key is not ns|name|<inner>''))
          else Inl (MalformedKey ''unknown canonical-key prefix''))"
  by auto
termination
  by (relation "measure length") (auto dest!: split_once_SomeD splitn_3_eq)

declare parse_canonical_key.simps [simp del]

section \<open>Printing a parsed key\<close>

text \<open>The key grammar as a printer of parsed keys: what the parser is shown to invert.\<close>

definition print_host :: "parsed_host \<Rightarrow> string" where
  "print_host h =
     (case h of
        ParsedExact h \<Rightarrow> ''exact|'' @ h
      | ParsedWildcard suffix single_label \<Rightarrow>
          (if single_label then ''wildcard-single|'' else ''wildcard-multi|'') @ suffix
      | ParsedCatchall \<Rightarrow> ''catchall'')"

fun print_key :: "parsed_key \<Rightarrow> string" where
  "print_key (ParsedRoute gateway port h) =
     ''route|'' @ (if gateway then ''gateway'' else ''ingress'') @ ''|'' @ dec (uint port) @ ''|'' @ print_host h"
| "print_key (ParsedTls port) = ''tls|'' @ dec (uint port)"
| "print_key (ParsedClientCert port) = ''clientcert|'' @ dec (uint port)"
| "print_key (ParsedListener k) = ''listener|'' @ k"
| "print_key (ParsedTlsPassthrough port) = ''tlspassthrough|'' @ dec (uint port)"
| "print_key (ParsedTlsTerminate port) = ''tlsterminate|'' @ dec (uint port)"
| "print_key (ParsedTcp port) = ''tcp|'' @ dec (uint port)"
| "print_key (ParsedUdp port) = ''udp|'' @ dec (uint port)"
| "print_key (ParsedEndpoints namespace service port) =
     ''endpoints|'' @ namespace @ ''/'' @ service @ ''/'' @ dec (uint port)"
| "print_key (ParsedQualified namespace name inner) =
     ''gw|'' @ namespace @ ''|'' @ name @ ''|'' @ print_key inner"
| "print_key (ParsedGatewayMeta namespace name) = ''gwmeta|'' @ namespace @ ''|'' @ name"

section \<open>Decimal round trip\<close>

lemma to_digit_digit_char: "0 \<le> d \<Longrightarrow> d < 10 \<Longrightarrow> to_digit 10 (digit_char d) = Some d"
  by (simp add: to_digit_def digit_char_def Let_def)

lemma parse_digits_append:
  "parse_digits_u16 acc (xs @ ys) =
     (case parse_digits_u16 acc xs of None \<Rightarrow> None | Some b \<Rightarrow> parse_digits_u16 b ys)"
  by (induction acc xs rule: parse_digits_u16.induct) (auto split: option.split)

lemma dec_small: "n < 10 \<Longrightarrow> dec n = [digit_char n]"
  by (simp add: dec.simps)

lemma dec_step: "\<not> n < 10 \<Longrightarrow> dec n = dec (n div 10) @ [digit_char (n mod 10)]"
  by (subst dec.simps) simp

lemma parse_digits_dec: "0 \<le> n \<Longrightarrow> n \<le> 65535 \<Longrightarrow> parse_digits_u16 0 (dec n) = Some n"
proof (induction n rule: dec.induct)
  case (1 n)
  show ?case
  proof (cases "n < 10")
    case True
    then show ?thesis using 1(2,3) by (simp add: dec_small to_digit_digit_char)
  next
    case False
    then have "parse_digits_u16 0 (dec (n div 10)) = Some (n div 10)" using 1 by simp
    moreover have "to_digit 10 (digit_char (n mod 10)) = Some (n mod 10)"
      by (simp add: to_digit_digit_char)
    moreover have "n div 10 * 10 + n mod 10 = n" by simp
    ultimately show ?thesis
      using 1(3) by (simp add: dec_step[OF False] parse_digits_append)
  qed
qed

lemma dec_digits: "0 \<le> n \<Longrightarrow> c \<in> set (dec n) \<Longrightarrow> \<exists>d. 0 \<le> d \<and> d < 10 \<and> c = digit_char d"
proof (induction n rule: dec.induct)
  case (1 n)
  show ?case
  proof (cases "n < 10")
    case True
    then show ?thesis using 1(2,3) by (auto simp: dec_small)
  next
    case False
    then have "c = digit_char (n mod 10) \<or> c \<in> set (dec (n div 10))"
      using 1(3) by (auto simp: dec_step)
    then show ?thesis
    proof
      assume "c = digit_char (n mod 10)"
      then show ?thesis by (auto intro: exI[of _ "n mod 10"])
    next
      assume "c \<in> set (dec (n div 10))"
      then show ?thesis using 1(1,2) False by simp
    qed
  qed
qed

lemma dec_not_Nil [simp]: "dec n \<noteq> []"
  by (subst dec.simps) simp

lemma digit_char_sep: "0 \<le> d \<Longrightarrow> d < 10 \<Longrightarrow> digit_char d \<notin> {CHR ''|'', CHR ''/'', CHR ''+''}"
proof -
  assume "0 \<le> d" "d < 10"
  then have "to_digit 10 (digit_char d) = Some d" by (rule to_digit_digit_char)
  moreover have "to_digit 10 c = None" if "c \<in> {CHR ''|'', CHR ''/'', CHR ''+''}" for c
    using that by (auto simp: to_digit_def)
  ultimately show ?thesis by (metis option.distinct(1))
qed

lemma dec_no_sep: "0 \<le> n \<Longrightarrow> c \<in> {CHR ''|'', CHR ''/'', CHR ''+''} \<Longrightarrow> c \<notin> set (dec n)"
  using dec_digits[of n c] digit_char_sep by metis

lemma parse_u16_dec: "parse_u16 (dec (uint p)) = Some p"
proof -
  have "uint p \<le> 65535" using uint_bounded[of p] by simp
  then have "parse_digits_u16 0 (dec (uint p)) = Some (uint p)" by (simp add: parse_digits_dec)
  moreover have "(case dec (uint p) of c # cs \<Rightarrow> if c = CHR ''+'' then cs else dec (uint p) | [] \<Rightarrow> []) = dec (uint p)"
    using dec_no_sep[of "uint p" "CHR ''+''"] by (auto split: list.split)
  ultimately show ?thesis by (simp add: parse_u16_def Let_def)
qed

lemma parse_canonical_port_dec [simp]: "parse_canonical_port (dec (uint p)) = Inr p"
  by (simp add: parse_canonical_port_def parse_u16_dec)

lemma parse_canonical_port_Inr: "parse_canonical_port s = Inr p \<longleftrightarrow> s = dec (uint p)"
  by (auto simp: parse_canonical_port_def parse_u16_dec split: option.splits if_splits)

section \<open>The parser inverts the grammar\<close>

lemma splitn_2: "c \<notin> set a \<Longrightarrow> splitn 2 c (a @ c # b) = [a, b]"
  by (simp add: numeral_2_eq_2 split_once_append)

lemma splitn_3: "c \<notin> set a \<Longrightarrow> c \<notin> set b \<Longrightarrow> splitn 3 c (a @ c # b @ c # d) = [a, b, d]"
  by (simp add: numeral_3_eq_3 split_once_append)

lemma splitn_4_Suc: "splitn 4 c s = splitn (Suc (Suc (Suc (Suc 0)))) c s"
  by (simp add: numeral_eq_Suc)

lemma parse_route_host_print:
  "parse_route_host pattern host = Some h \<longleftrightarrow>
     print_host h = (case host of None \<Rightarrow> pattern | Some x \<Rightarrow> pattern @ ''|'' @ x) \<and>
     pattern \<in> {''exact'', ''wildcard-single'', ''wildcard-multi'', ''catchall''} \<and>
     (case h of ParsedCatchall \<Rightarrow> host = None | ParsedExact x \<Rightarrow> host = Some x \<and> x \<noteq> []
      | ParsedWildcard x _ \<Rightarrow> host = Some x \<and> x \<noteq> [])"
  by (auto simp: parse_route_host_def print_host_def split: option.splits parsed_host.splits if_splits)

lemma parse_route_key_print: "parse_route_key rest = Inr k \<Longrightarrow> print_key k = ''route|'' @ rest"
  by (auto simp: parse_route_key_def splitn_4_Suc Let_def parse_canonical_port_Inr
      parse_route_host_print split: option.splits if_splits sum.splits list.splits
      dest!: split_once_SomeD)

definition host_wf :: "parsed_host \<Rightarrow> bool" where
  "host_wf h = (case h of ParsedExact x \<Rightarrow> x \<noteq> [] | ParsedWildcard x _ \<Rightarrow> x \<noteq> [] | ParsedCatchall \<Rightarrow> True)"

fun key_wf :: "parsed_key \<Rightarrow> bool" where
  "key_wf (ParsedRoute gateway port h) = host_wf h"
| "key_wf (ParsedListener k) = (k \<noteq> [])"
| "key_wf (ParsedEndpoints namespace service port) =
     (namespace \<noteq> [] \<and> service \<noteq> [] \<and> CHR ''/'' \<notin> set namespace \<and> CHR ''/'' \<notin> set service)"
| "key_wf (ParsedQualified namespace name inner) =
     (namespace \<noteq> [] \<and> name \<noteq> [] \<and> CHR ''|'' \<notin> set namespace \<and> CHR ''|'' \<notin> set name \<and> key_wf inner)"
| "key_wf (ParsedGatewayMeta namespace name) =
     (namespace \<noteq> [] \<and> name \<noteq> [] \<and> CHR ''|'' \<notin> set namespace)"
| "key_wf k = True"

lemma print_key_not_Nil [simp]: "print_key k \<noteq> []"
  by (cases k) auto

lemma parse_route_key_wf: "parse_route_key rest = Inr k \<Longrightarrow> key_wf k"
  by (auto simp: parse_route_key_def Let_def parse_route_host_print host_wf_def
      split: option.splits if_splits sum.splits list.splits parsed_host.splits)

lemma split_route_fields:
  "splitn 4 (CHR ''|'') (t @ CHR ''|'' # dec (uint p) @ CHR ''|'' # pat) =
     (if CHR ''|'' \<in> set t then splitn 4 (CHR ''|'') (t @ CHR ''|'' # dec (uint p) @ CHR ''|'' # pat)
      else t # dec (uint p) # splitn 2 (CHR ''|'') pat)" for p :: u16
  by (simp add: splitn_4_Suc numeral_2_eq_2 split_once_append dec_no_sep)

lemma parse_route_key_intro:
  assumes "host_wf h"
  shows "parse_route_key ((if gateway then ''gateway'' else ''ingress'') @ ''|'' @ dec (uint p) @ ''|'' @ print_host h)
         = Inr (ParsedRoute gateway p h)"
proof -
  have "splitn 2 (CHR ''|'') (print_host h) =
     (case h of ParsedExact x \<Rightarrow> [''exact'', x]
      | ParsedWildcard x sl \<Rightarrow> [if sl then ''wildcard-single'' else ''wildcard-multi'', x]
      | ParsedCatchall \<Rightarrow> [''catchall''])"
    by (auto simp: print_host_def numeral_2_eq_2 split_once_def split: parsed_host.split)
  then show ?thesis
    using assms split_route_fields[of "''gateway''" p "print_host h"] split_route_fields[of "''ingress''" p "print_host h"]
    by (auto simp: parse_route_key_def Let_def parse_route_host_def host_wf_def split: parsed_host.splits)
qed

lemma parse_port_key_Inr: "parse_port_key mk rest = Inr k \<longleftrightarrow> (\<exists>p. k = mk p \<and> rest = dec (uint p))"
  by (cases "parse_canonical_port rest")
    (auto simp: parse_port_key_def parse_canonical_port_Inr[symmetric])

lemma parse_endpoints_key_Inr:
  "parse_endpoints_key rest = Inr k \<longleftrightarrow>
     (\<exists>ns svc p. k = ParsedEndpoints ns svc p \<and> key_wf k \<and> rest = ns @ ''/'' @ svc @ ''/'' @ dec (uint p))"
proof
  assume "parse_endpoints_key rest = Inr k"
  then show "\<exists>ns svc p. k = ParsedEndpoints ns svc p \<and> key_wf k \<and> rest = ns @ ''/'' @ svc @ ''/'' @ dec (uint p)"
    by (auto simp: parse_endpoints_key_def split: list.splits if_splits dest!: splitn_3_eq)
       (auto simp: map_sum_def parse_canonical_port_Inr split: sum.splits)
qed (auto simp: parse_endpoints_key_def splitn_3)

lemma parse_gwmeta_key_Inr:
  "parse_gwmeta_key rest = Inr k \<longleftrightarrow>
     (\<exists>ns name. k = ParsedGatewayMeta ns name \<and> key_wf k \<and> rest = ns @ ''|'' @ name)"
proof
  assume "parse_gwmeta_key rest = Inr k"
  then show "\<exists>ns name. k = ParsedGatewayMeta ns name \<and> key_wf k \<and> rest = ns @ ''|'' @ name"
    by (auto simp: parse_gwmeta_key_def split: list.splits if_splits dest!: splitn_2_eq)
qed (auto simp: parse_gwmeta_key_def splitn_2)

lemma parse_canonical_key_sound: "parse_canonical_key s = Inr k \<Longrightarrow> key_wf k \<and> s = print_key k"
proof (induction s arbitrary: k rule: parse_canonical_key.induct)
  case (1 s)
  obtain prefix rest where s: "split_once (CHR ''|'') s = Some (prefix, rest)"
    using 1(2) by (auto simp: parse_canonical_key.simps[of s] split: option.splits)
  note eq = split_once_SomeD[OF s, THEN conjunct1]
  note body = 1(2)[unfolded parse_canonical_key.simps[of s] s option.case prod.case]
  have other: ?case if "prefix \<noteq> ''gw''"
    unfolding eq using body that
    by (auto simp: parse_port_key_Inr parse_endpoints_key_Inr
        parse_gwmeta_key_Inr parse_route_key_wf dest: parse_route_key_print split: if_splits)
  show ?case
  proof (cases "prefix = ''gw''")
    case True
    with body obtain ns name inner k' where parts: "splitn 3 (CHR ''|'') rest = [ns, name, inner]"
      and ne: "ns \<noteq> [] \<and> name \<noteq> [] \<and> inner \<noteq> []"
      and k': "parse_canonical_key inner = Inr k'" "k = ParsedQualified ns name k'"
      by (auto split: list.splits if_splits sum.splits)
    have "key_wf k' \<and> inner = print_key k'"
      by (rule 1(1)[OF s refl _ _ _ _ _ _ _ _ _ _ True parts refl refl refl ne k'(1)]) (simp_all add: True)
    then show ?thesis using splitn_3_eq[OF parts] ne k'(2) eq True by auto
  qed (rule other)
qed

lemma split_once_prefix [simp]:
  "split_once (CHR ''|'') (''route|'' @ r) = Some (''route'', r)"
  "split_once (CHR ''|'') (''tls|'' @ r) = Some (''tls'', r)"
  "split_once (CHR ''|'') (''clientcert|'' @ r) = Some (''clientcert'', r)"
  "split_once (CHR ''|'') (''listener|'' @ r) = Some (''listener'', r)"
  "split_once (CHR ''|'') (''tlspassthrough|'' @ r) = Some (''tlspassthrough'', r)"
  "split_once (CHR ''|'') (''tlsterminate|'' @ r) = Some (''tlsterminate'', r)"
  "split_once (CHR ''|'') (''tcp|'' @ r) = Some (''tcp'', r)"
  "split_once (CHR ''|'') (''udp|'' @ r) = Some (''udp'', r)"
  "split_once (CHR ''|'') (''endpoints|'' @ r) = Some (''endpoints'', r)"
  "split_once (CHR ''|'') (''gw|'' @ r) = Some (''gw'', r)"
  "split_once (CHR ''|'') (''gwmeta|'' @ r) = Some (''gwmeta'', r)"
  by (simp_all add: split_once_def)

lemma parse_canonical_key_complete: "key_wf k \<Longrightarrow> parse_canonical_key (print_key k) = Inr k"
proof (induction k)
  case (ParsedRoute gateway port h)
  then show ?case by (subst parse_canonical_key.simps) (simp add: parse_route_key_intro del: append.simps)
next
  case (ParsedQualified ns name k)
  have "splitn 3 (CHR ''|'') (ns @ ''|'' @ name @ ''|'' @ print_key k) = [ns, name, print_key k]"
    using ParsedQualified.prems splitn_3[of "CHR ''|''" ns name "print_key k"] by simp
  then show ?case
    using ParsedQualified by (subst parse_canonical_key.simps) (simp del: append.simps)
qed (subst parse_canonical_key.simps, simp add: parse_port_key_Inr parse_endpoints_key_Inr parse_gwmeta_key_Inr del: append.simps)+

lemma parse_canonical_key_iff: "parse_canonical_key s = Inr k \<longleftrightarrow> key_wf k \<and> s = print_key k"
  using parse_canonical_key_sound parse_canonical_key_complete by blast

section \<open>The identity a resource is keyed by\<close>

definition port_identity :: "u32 \<Rightarrow> u16 option" where
  "port_identity p = (if uint p \<le> 65535 then Some (ucast p) else None)"

definition host_identity :: "p_host_entry \<Rightarrow> parsed_host option" where
  "host_identity host =
     (case phe_pattern host of
        Some (PExactHost h) \<Rightarrow> Some (ParsedExact h)
      | Some (PWildcardHost suffix kind) \<Rightarrow>
          (if kind = 1 then Some (ParsedWildcard suffix True)
           else if kind = 2 then Some (ParsedWildcard suffix False) else None)
      | Some (PCatchall _) \<Rightarrow> Some ParsedCatchall
      | None \<Rightarrow> None)"

definition payload_identity :: "p_payload \<Rightarrow> parsed_key option" where
  "payload_identity payload =
     (case payload of
        PRouteHost r \<Rightarrow>
          (if prh_table r = 1 \<or> prh_table r = 2
           then Option.bind (port_identity (prh_port r)) (\<lambda>p.
                Option.bind (Option.bind (prh_host r) host_identity) (\<lambda>h.
                Some (ParsedRoute (prh_table r = 2) p h)))
           else None)
      | PTlsPort e \<Rightarrow> map_option ParsedTls (port_identity (ppt_tls_port e))
      | PClientCertPort r \<Rightarrow> map_option ParsedClientCert (port_identity (pcp_port r))
      | PListenerStatus e \<Rightarrow> Some (ParsedListener (pgs_object_key e))
      | PTlsPassthroughPort pt \<Rightarrow> map_option ParsedTlsPassthrough (port_identity (ppt_port pt))
      | PTlsTerminatePort pt \<Rightarrow> map_option ParsedTlsTerminate (port_identity (ppt_port pt))
      | PTcpPort pt \<Rightarrow> map_option ParsedTcp (port_identity (pl4_port pt))
      | PUdpPort pt \<Rightarrow> map_option ParsedUdp (port_identity (pl4_port pt))
      | PEndpoints e \<Rightarrow>
          map_option (ParsedEndpoints (per_namespace e) (per_service e)) (port_identity (per_port e))
      | PGatewayMeta _ \<Rightarrow> None)"

definition resource_identity :: "p_resource \<Rightarrow> parsed_key option" where
  "resource_identity r =
     (case (prs_payload r, qualifier_of r) of
        (Some (PGatewayMeta _), Inr (Some (ns, name))) \<Rightarrow> Some (ParsedGatewayMeta ns name)
      | (Some payload, Inr (Some (ns, name))) \<Rightarrow> map_option (ParsedQualified ns name) (payload_identity payload)
      | (Some payload, Inr None) \<Rightarrow> payload_identity payload
      | _ \<Rightarrow> None)"

lemma port_identity_uint: "port_identity p = Some q \<Longrightarrow> uint q = uint p"
proof -
  assume a: "port_identity p = Some q"
  then have "uint p \<le> 65535" "q = ucast p" by (simp_all add: port_identity_def split: if_splits)
  then show ?thesis by (simp add: uint_up_ucast unsigned_ucast_eq take_bit_int_eq_self)
qed

lemma route_host_key_identity:
  assumes "payload_identity (PRouteHost r) = Some k"
  shows "route_host_key r = Inr (print_key k)"
proof -
  from assms obtain p host h where r: "prh_table r = 1 \<or> prh_table r = 2"
    "port_identity (prh_port r) = Some p" "prh_host r = Some host" "host_identity host = Some h"
    "k = ParsedRoute (prh_table r = 2) p h"
    by (auto simp: payload_identity_def bind_eq_Some_conv split: if_splits)
  then obtain pat where "phe_pattern host = Some pat"
    by (cases "phe_pattern host") (auto simp: host_identity_def)
  then show ?thesis using r
    by (cases pat)
       (auto simp: host_identity_def route_host_key_def print_host_def Let_def port_identity_uint split: if_splits)
qed

lemma payload_key_identity: "payload_identity p = Some k \<Longrightarrow> payload_key p = Inr (print_key k)"
proof (cases p)
  case (PRouteHost r)
  assume "payload_identity p = Some k"
  then show ?thesis using PRouteHost route_host_key_identity by (simp add: payload_key_def)
qed (auto simp: payload_identity_def payload_key_def port_identity_uint)

lemma canonical_key_identity: "resource_identity r = Some k \<Longrightarrow> canonical_key r = Inr (print_key k)"
  by (auto simp: resource_identity_def canonical_key_def payload_key_identity
      split: option.splits sum.splits p_payload.splits)

section \<open>Properties\<close>

text \<open>C16: Keying a resource and resolving the key again gives back the resource's identity: where
  the ports are in range and the names keep to the grammar (not empty, no separator in an
  interior field), \<open>canonical_key\<close> succeeds and \<open>parse_canonical_key\<close> of its result is the
  table, port, host, Service or Gateway the resource describes.\<close>

theorem canonical_key_round_trip:
  assumes "resource_identity r = Some k"
    and "key_wf k"
  shows "\<exists>s. canonical_key r = Inr s \<and> parse_canonical_key s = Inr k"
  using assms by (simp add: canonical_key_identity parse_canonical_key_iff)

theorem canonical_key_round_trip_witness:
  "\<exists>s. canonical_key \<lparr>prs_payload = Some (PRouteHost \<lparr>prh_table = 2, prh_port = 443,
           prh_host = Some \<lparr>phe_pattern = Some (PWildcardHost ''example.com'' 2), phe_normalize_level = 1, phe_routes = []\<rparr>\<rparr>),
           prs_qualifier_namespace = ''prod'', prs_qualifier_name = ''gw-a''\<rparr> = Inr s \<and>
     parse_canonical_key s = Inr (ParsedQualified ''prod'' ''gw-a'' (ParsedRoute True 443 (ParsedWildcard ''example.com'' False)))"
  by (rule canonical_key_round_trip)
     (simp_all add: resource_identity_def qualifier_of_def payload_identity_def port_identity_def host_identity_def host_wf_def)

text \<open>No two spellings of a key resolve to the same resource: a tombstone can only name a held
  resource by the exact bytes \<open>canonical_key\<close> emits, so the digest map and the typed maps of the
  cache cannot be made to disagree by another spelling of a port.\<close>

theorem parsed_key_spelling_unique:
  assumes "parse_canonical_key a = Inr k"
    and "parse_canonical_key b = Inr k"
  shows "a = b"
  using assms by (simp add: parse_canonical_key_iff)

theorem parsed_key_spelling_unique_witness:
  "parse_canonical_key ''tcp|80'' = Inr (ParsedTcp 80) \<and> parse_canonical_key ''tcp|080'' \<noteq> Inr (ParsedTcp 80)"
proof -
  have "parse_canonical_key ''tcp|80'' = Inr (ParsedTcp 80)" by code_simp
  then show ?thesis using parsed_key_spelling_unique[of "''tcp|080''" "ParsedTcp 80" "''tcp|80''"] by blast
qed

end
