(* ===== verification/L4_Tables.thy ===== *)
theory L4_Tables
  imports Host_Routing
begin

text \<open>
  The layer-4 routing tables: \<open>crates/coxswain-core/src/routing/passthrough.rs\<close> (port and SNI to
  backend group, for TLS passthrough and TLS termination), \<open>tcp.rs\<close> and \<open>udp.rs\<close> (port to
  backend group).  A backend group is a value of the type parameter.
\<close>

section \<open>SNI routing\<close>

record 'g sni_router =
  sr_exact :: "(string \<times> 'g) list"
  sr_wildcard :: "(string \<times> 'g) list"
  sr_catchall :: "'g option"

type_synonym 'g tls_passthrough_table = "(u16 \<times> 'g sni_router) list"

definition match_sni :: "'g sni_router \<Rightarrow> string option \<Rightarrow> 'g option" where
  "match_sni r server_name =
     (case server_name of
        None \<Rightarrow> sr_catchall r
      | Some s \<Rightarrow>
          (case map_of (sr_exact r) s of
             Some bg \<Rightarrow> Some bg
           | None \<Rightarrow>
               (case List.find (\<lambda>(suffix, _). wildcard_matches s suffix MultiLabel) (sr_wildcard r) of
                  Some (_, bg) \<Rightarrow> Some bg
                | None \<Rightarrow> sr_catchall r)))"

record 'g sni_router_builder =
  sb_exact :: "(string \<times> 'g) list"
  sb_wildcard :: "(string \<times> 'g) list"
  sb_catchall :: "'g option"

definition sni_router_builder_default :: "'g sni_router_builder" where
  "sni_router_builder_default = \<lparr>sb_exact = [], sb_wildcard = [], sb_catchall = None\<rparr>"

definition sni_add :: "string \<Rightarrow> 'g \<Rightarrow> 'g sni_router_builder \<Rightarrow> 'g sni_router_builder" where
  "sni_add pat backend b =
     (if pat = [] \<or> pat = ''*'' then b\<lparr>sb_catchall := Some backend\<rparr>
      else case strip_prefix pat ''*.'' of
             Some suffix \<Rightarrow> b\<lparr>sb_wildcard := alist_insert suffix backend (sb_wildcard b)\<rparr>
           | None \<Rightarrow> b\<lparr>sb_exact := alist_insert pat backend (sb_exact b)\<rparr>)"

definition suffix_rank :: "string \<times> 'g \<Rightarrow> int \<times> string" where
  "suffix_rank w = (- int (length (fst w)), fst w)"

definition sni_build :: "'g sni_router_builder \<Rightarrow> 'g sni_router" where
  "sni_build b =
     \<lparr>sr_exact = sb_exact b, sr_wildcard = sort_key suffix_rank (sb_wildcard b),
      sr_catchall = sb_catchall b\<rparr>"

type_synonym 'g tls_passthrough_builder = "(u16 \<times> 'g sni_router_builder) list"

definition passthrough_add_route ::
  "u16 \<Rightarrow> string \<Rightarrow> 'g \<Rightarrow> 'g tls_passthrough_builder \<Rightarrow> 'g tls_passthrough_builder" where
  "passthrough_add_route port hostname_pattern backend b =
     alist_upsert port sni_router_builder_default (sni_add hostname_pattern backend) b"

definition passthrough_build :: "'g tls_passthrough_builder \<Rightarrow> 'g tls_passthrough_table" where
  "passthrough_build b = map (\<lambda>(port, sb). (port, sni_build sb)) b"

section \<open>Port routing\<close>

type_synonym 'g tcp_route_table = "(u16 \<times> 'g) list"
type_synonym 'g udp_route_table = "(u16 \<times> 'g) list"

definition tcp_add_route :: "u16 \<Rightarrow> 'g \<Rightarrow> 'g tcp_route_table \<Rightarrow> 'g tcp_route_table" where
  "tcp_add_route port backend b = alist_insert port backend b"

definition udp_add_route :: "u16 \<Rightarrow> 'g \<Rightarrow> 'g udp_route_table \<Rightarrow> 'g udp_route_table" where
  "udp_add_route port backend b = alist_insert port backend b"

section \<open>Lemmas\<close>

definition sni_routes :: "(string \<times> 'g) list \<Rightarrow> 'g sni_router_builder" where
  "sni_routes rs = foldl (\<lambda>b (pat, g). sni_add pat g b) sni_router_builder_default rs"

definition sni_wf :: "'g sni_router_builder \<Rightarrow> bool" where
  "sni_wf b \<longleftrightarrow> alist_wf (sb_exact b) \<and> alist_wf (sb_wildcard b)"

lemma alist_wf_insert_l4: "alist_wf m \<Longrightarrow> alist_wf (alist_insert k v m)"
  by (simp add: alist_insert_def)

lemma sni_add_wf: "sni_wf b \<Longrightarrow> sni_wf (sni_add pat g b)"
  by (auto simp: sni_wf_def sni_add_def alist_wf_insert_l4 split: option.split)

lemma sni_routes_snoc: "sni_routes (rs @ [(pat, g)]) = sni_add pat g (sni_routes rs)"
  by (simp add: sni_routes_def)

lemma sni_routes_wf: "sni_wf (sni_routes rs)"
proof (induction rs rule: rev_induct)
  case Nil
  then show ?case by (simp add: sni_routes_def sni_wf_def sni_router_builder_default_def)
next
  case (snoc r rs)
  then show ?case by (cases r) (simp add: sni_routes_snoc sni_add_wf)
qed

lemma sni_routes_exact:
  "map_of (sb_exact (sni_routes rs)) h =
     (if h \<noteq> [] \<and> h \<noteq> ''*'' \<and> \<not> starts_with h ''*.'' then map_of (rev rs) h else None)"
proof (induction rs rule: rev_induct)
  case (snoc r rs)
  then show ?case
    by (cases r) (auto simp: sni_routes_snoc sni_add_def alist_simps strip_prefix_def split: option.split)
qed (simp add: sni_routes_def sni_router_builder_default_def)

lemma sni_routes_wildcard:
  "map_of (sb_wildcard (sni_routes rs)) s = map_of (rev rs) (''*.'' @ s)"
proof (induction rs rule: rev_induct)
  case (snoc r rs)
  then show ?case
    by (cases r) (auto simp: sni_routes_snoc sni_add_def alist_simps strip_prefix_eq_Some strip_prefix_eq_None
        starts_with_iff split: option.split)
qed (simp add: sni_routes_def sni_router_builder_default_def)

lemma sni_routes_catchall:
  "sb_catchall (sni_routes rs) = map_option snd (List.find (\<lambda>(p, _). p = [] \<or> p = ''*'') (rev rs))"
proof (induction rs rule: rev_induct)
  case (snoc r rs)
  then show ?case
    by (cases r) (auto simp: sni_routes_snoc sni_add_def split: option.split)
qed (simp add: sni_routes_def sni_router_builder_default_def)

text \<open>The proper parent domains of a name, most specific first.\<close>

fun dot_suffixes :: "string \<Rightarrow> string list" where
  "dot_suffixes [] = []"
| "dot_suffixes (c # s) = (if c = CHR ''.'' then s # dot_suffixes s else dot_suffixes s)"

definition parent_domains :: "string \<Rightarrow> string list" where
  "parent_domains s = (case s of [] \<Rightarrow> [] | _ # t \<Rightarrow> dot_suffixes t)"

lemma dot_suffixes_iff: "w \<in> set (dot_suffixes s) \<longleftrightarrow> (\<exists>p. s = p @ CHR ''.'' # w)"
proof (induction s)
  case (Cons c s)
  have "(\<exists>p. c # s = p @ CHR ''.'' # w) \<longleftrightarrow> c = CHR ''.'' \<and> s = w \<or> (\<exists>p. s = p @ CHR ''.'' # w)"
    by (auto simp: Cons_eq_append_conv)
  then show ?case using Cons by auto
qed simp

lemma dot_suffixes_length: "w \<in> set (dot_suffixes s) \<Longrightarrow> length w < length s"
  by (auto simp: dot_suffixes_iff)

lemma dot_suffixes_sorted: "sorted (map (\<lambda>w. - int (length w)) (dot_suffixes s))"
  by (induction s) (auto dest: dot_suffixes_length)

lemma parent_domains_iff: "w \<in> set (parent_domains s) \<longleftrightarrow> wildcard_matches s w MultiLabel"
  by (cases s) (auto simp: parent_domains_def wildcard_matches_iff dot_suffixes_iff Cons_eq_append_conv)

lemma parent_domains_sorted: "sorted (map (\<lambda>w. - int (length w)) (parent_domains s))"
  by (simp add: parent_domains_def dot_suffixes_sorted split: list.split)

lemma parent_domains_length_inj:
  "v \<in> set (parent_domains s) \<Longrightarrow> w \<in> set (parent_domains s) \<Longrightarrow> length v = length w \<Longrightarrow> v = w"
  by (auto simp: parent_domains_iff wildcard_matches_iff)

lemma wildcard_by_parents:
  assumes wf: "alist_wf ws"
  shows "map_option snd (List.find (\<lambda>(w, _). wildcard_matches s w MultiLabel) (sort_key suffix_rank ws)) =
         Option.bind (List.find (\<lambda>w. map_of ws w \<noteq> None) (parent_domains s)) (map_of ws)"
    (is "map_option snd (List.find ?P ?W) = Option.bind (List.find ?Q ?D) _")
proof (cases "List.find ?P ?W")
  case None
  then have "\<not> ?Q w" if "w \<in> set ?D" for w
    using that by (auto simp: find_None_iff parent_domains_iff map_of_eq_None_iff)
  then have "List.find ?Q ?D = None" by (simp only: find_None_iff)  blast
  with None show ?thesis by simp
next
  case (Some x)
  obtain w g where x: "x = (w, g)" by (cases x)
  have w: "(w, g) \<in> set ws" "wildcard_matches s w MultiLabel"
    using find_SomeD[OF Some] by (simp_all add: x)
  then have mw: "map_of ws w = Some g" using wf by (simp add: alist_wf_def)
  have wD: "w \<in> set ?D" "?Q w" using w(2) mw by (simp_all add: parent_domains_iff)
  then have "List.find ?Q ?D \<noteq> None" by (auto simp: find_None_iff)
  then obtain v where v: "List.find ?Q ?D = Some v" by blast
  have vD: "v \<in> set ?D" "map_of ws v \<noteq> None" using find_SomeD[OF v] by simp_all
  then obtain h where "map_of ws v = Some h" by blast
  then have vh: "(v, h) \<in> set ws" by (rule map_of_SomeD)
  have "sorted_wrt (\<lambda>a b. suffix_rank a \<le> suffix_rank b) ?W"
    using sorted_sort_key[of suffix_rank ws] by (simp only: sorted_map)
  then have sorted: "sorted (map (\<lambda>w. - int (length (fst w))) ?W)"
    unfolding sorted_map by (rule sorted_wrt_mono_rel[rotated]) (auto simp: suffix_rank_def less_eq_prod_def)
  have "- int (length w) \<le> - int (length v)"
    using sorted_find_least[OF sorted Some, of "(v, h)"] vh vD(1) by (simp add: x parent_domains_iff)
  moreover have "- int (length v) \<le> - int (length w)"
    using sorted_find_least[OF parent_domains_sorted v wD] .
  ultimately have "length v = length w" by linarith
  then have "v = w" by (rule parent_domains_length_inj[OF vD(1) wD(1)])
  then show ?thesis unfolding v Some x by (simp add: mw)
qed

section \<open>Properties\<close>

text \<open>C29: A TLS connection reaches the most specific route of its port: the route registered last for
  exactly its server name, else the one registered last for the wildcard of the nearest parent
  domain that has one, else the last catch-all; without a server name, the last catch-all.\<close>

theorem match_sni_most_specific:
  "match_sni (sni_build (sni_routes rs)) server_name =
     (let last_for = map_of (rev rs);
          catchall = map_option snd (List.find (\<lambda>(p, _). p = [] \<or> p = ''*'') (rev rs))
      in case server_name of
           None \<Rightarrow> catchall
         | Some h \<Rightarrow>
             if h \<noteq> [] \<and> h \<noteq> ''*'' \<and> \<not> starts_with h ''*.'' \<and> last_for h \<noteq> None then last_for h
             else case List.find (\<lambda>d. last_for (''*.'' @ d) \<noteq> None) (parent_domains h) of
                    Some d \<Rightarrow> last_for (''*.'' @ d)
                  | None \<Rightarrow> catchall)"
proof (cases server_name)
  case None
  then show ?thesis by (simp add: match_sni_def sni_build_def sni_routes_catchall)
next
  case (Some h)
  have wf: "alist_wf (sb_wildcard (sni_routes rs))" using sni_routes_wf[of rs] by (simp add: sni_wf_def)
  let ?last = "map_of (rev rs)"
  let ?D = "List.find (\<lambda>d. ?last (''*.'' @ d) \<noteq> None) (parent_domains h)"
  have "match_sni (sni_build (sni_routes rs)) (Some h) =
      (case map_of (sb_exact (sni_routes rs)) h of Some g \<Rightarrow> Some g
       | None \<Rightarrow> (case Option.bind ?D (\<lambda>d. ?last (''*.'' @ d)) of
                    Some g \<Rightarrow> Some g | None \<Rightarrow> sb_catchall (sni_routes rs)))"
    unfolding match_sni_def sni_build_def wildcard_by_parents[OF wf, of h, unfolded sni_routes_wildcard, symmetric]
    by (simp split: option.split)
  then have eq: "match_sni (sni_build (sni_routes rs)) (Some h) =
      (if h \<noteq> [] \<and> h \<noteq> ''*'' \<and> \<not> starts_with h ''*.'' \<and> ?last h \<noteq> None then ?last h
       else case Option.bind ?D (\<lambda>d. ?last (''*.'' @ d)) of
              Some g \<Rightarrow> Some g | None \<Rightarrow> sb_catchall (sni_routes rs))"
    unfolding sni_routes_exact by (cases "?last h") simp_all
  have "?last (''*.'' @ d) \<noteq> None" if "?D = Some d" for d
    using find_SomeD[OF that] by (rule conjunct2)
  then have "(case Option.bind ?D (\<lambda>d. ?last (''*.'' @ d)) of
              Some g \<Rightarrow> Some g | None \<Rightarrow> sb_catchall (sni_routes rs)) =
      (case ?D of Some d \<Rightarrow> ?last (''*.'' @ d) | None \<Rightarrow> sb_catchall (sni_routes rs))"
    by (cases ?D) (auto split: option.split simp del: append.simps)
  with eq show ?thesis by (simp only: Some Let_def option.case sni_routes_catchall)
qed

end
