(* ===== verification/Tls_Store.thy ===== *)
theory Tls_Store
  imports L4_Tables Ownership "HOL-Library.Multiset"
begin

text \<open>
  The TLS material of the data plane (\<open>crates/coxswain-core/src/tls.rs\<close>): server certificates by
  port and server name, client-certificate requirements by port and server name, and the HTTPS
  listener hostnames of a port that the misdirected-request check compares.  A time is its
  distance from the Unix epoch in nanoseconds.
\<close>

section \<open>Certificates\<close>

datatype key_algorithm = Rsa | Ecdsa | OtherAlgorithm

record tls_cert =
  tc_cert_pem :: "u8 list"
  tc_key_pem :: "u8 list"
  tc_source :: string
  tc_not_after :: "int option"
  tc_key_algorithm :: key_algorithm

definition tls_cert_new :: "u8 list \<Rightarrow> u8 list \<Rightarrow> string \<Rightarrow> tls_cert" where
  "tls_cert_new cert key source =
     \<lparr>tc_cert_pem = cert, tc_key_pem = key, tc_source = source, tc_not_after = None,
      tc_key_algorithm = OtherAlgorithm\<rparr>"

definition with_not_after :: "int option \<Rightarrow> tls_cert \<Rightarrow> tls_cert" where
  "with_not_after t c = c\<lparr>tc_not_after := t\<rparr>"

definition with_key_algorithm :: "key_algorithm \<Rightarrow> tls_cert \<Rightarrow> tls_cert" where
  "with_key_algorithm a c = c\<lparr>tc_key_algorithm := a\<rparr>"

text \<open>The \<open>PartialEq\<close> of certificates compares the PEM bytes only.\<close>

definition tls_cert_eq :: "tls_cert \<Rightarrow> tls_cert \<Rightarrow> bool" where
  "tls_cert_eq a b \<longleftrightarrow> tc_cert_pem a = tc_cert_pem b \<and> tc_key_pem a = tc_key_pem b"

definition tls_wildcard_matches :: "string \<Rightarrow> string \<Rightarrow> bool" where
  "tls_wildcard_matches host suffix =
     (case strip_suffix host suffix of
        None \<Rightarrow> False
      | Some rest \<Rightarrow>
          (case strip_suffix rest ''.'' of
             None \<Rightarrow> False | Some label \<Rightarrow> label \<noteq> [] \<and> CHR ''.'' \<notin> set label))"

definition algo_sort_key :: "key_algorithm \<Rightarrow> nat" where
  "algo_sort_key a = (case a of Ecdsa \<Rightarrow> 0 | Rsa \<Rightarrow> 1 | OtherAlgorithm \<Rightarrow> 2)"

text \<open>The comparison of \<open>sort_cert_vec\<close>: descending expiry, a missing expiry last.\<close>

definition cert_rank :: "tls_cert \<Rightarrow> nat \<times> (nat \<times> int) \<times> string" where
  "cert_rank c =
     (algo_sort_key (tc_key_algorithm c),
      (case tc_not_after c of Some t \<Rightarrow> (0, - t) | None \<Rightarrow> (1, 0)), tc_source c)"

definition sort_cert_vec :: "tls_cert list \<Rightarrow> tls_cert list" where
  "sort_cert_vec certs = sort_key cert_rank certs"

fun dedup_loop :: "tls_cert list \<Rightarrow> tls_cert list \<Rightarrow> tls_cert list" where
  "dedup_loop kept [] = kept"
| "dedup_loop kept (c # cs) =
     (if list_ex (\<lambda>k. tls_cert_eq k c) kept then dedup_loop kept cs else dedup_loop (kept @ [c]) cs)"

definition dedup_cert_vec :: "tls_cert list \<Rightarrow> tls_cert list" where
  "dedup_cert_vec certs = dedup_loop [] certs"

section \<open>Server certificate stores\<close>

record tls_store =
  ts_exact :: "(string \<times> tls_cert list) list"
  ts_wildcard :: "(string \<times> tls_cert list) list"
  ts_default :: "tls_cert list"

definition find_certs :: "tls_store \<Rightarrow> string \<Rightarrow> tls_cert list" where
  "find_certs s server_name =
     (case map_of (ts_exact s) server_name of
        Some certs \<Rightarrow> certs
      | None \<Rightarrow>
          (case List.find (\<lambda>(suffix, _). tls_wildcard_matches server_name suffix) (ts_wildcard s) of
             Some (_, certs) \<Rightarrow> certs
           | None \<Rightarrow> ts_default s))"

definition find_cert :: "tls_store \<Rightarrow> string \<Rightarrow> tls_cert option" where
  "find_cert s server_name = (case find_certs s server_name of [] \<Rightarrow> None | c # _ \<Rightarrow> Some c)"

definition has_specific_cert :: "tls_store \<Rightarrow> string \<Rightarrow> bool" where
  "has_specific_cert s server_name \<longleftrightarrow>
     (case map_of (ts_exact s) server_name of Some c \<Rightarrow> c \<noteq> [] | None \<Rightarrow> False) \<or>
     list_ex (\<lambda>(suffix, certs). certs \<noteq> [] \<and> tls_wildcard_matches server_name suffix) (ts_wildcard s)"

definition cert_counts :: "tls_store \<Rightarrow> nat \<times> nat \<times> nat" where
  "cert_counts s =
     (sum_list (map (length \<circ> snd) (ts_exact s)), sum_list (map (length \<circ> snd) (ts_wildcard s)),
      length (ts_default s))"

definition cert_count :: "tls_store \<Rightarrow> nat" where
  "cert_count s =
     sum_list (map (length \<circ> snd) (ts_exact s)) + sum_list (map (length \<circ> snd) (ts_wildcard s))
     + length (ts_default s)"

definition cert_expiries :: "string \<Rightarrow> tls_cert list \<Rightarrow> (string \<times> string \<times> int) list" where
  "cert_expiries label certs =
     List.map_filter (\<lambda>c. map_option (\<lambda>t. (label, tc_source c, t)) (tc_not_after c)) certs"

definition expiries :: "tls_store \<Rightarrow> (string \<times> string \<times> int) list" where
  "expiries s =
     concat (map (\<lambda>(name, certs). cert_expiries name certs) (ts_exact s)) @
     concat (map (\<lambda>(suffix, certs). cert_expiries (''*.'' @ suffix) certs) (ts_wildcard s)) @
     cert_expiries ''*'' (ts_default s)"

record tls_store_builder =
  tsb_exact :: "(string \<times> tls_cert list) list"
  tsb_wildcard :: "(string \<times> tls_cert list) list"
  tsb_default :: "tls_cert list"

definition tls_store_builder_new :: tls_store_builder where
  "tls_store_builder_new = \<lparr>tsb_exact = [], tsb_wildcard = [], tsb_default = []\<rparr>"

definition add_cert :: "string \<Rightarrow> tls_cert \<Rightarrow> tls_store_builder \<Rightarrow> tls_store_builder" where
  "add_cert host_pattern cert b =
     (if host_pattern = [] \<or> host_pattern = ''*'' then b\<lparr>tsb_default := tsb_default b @ [cert]\<rparr>
      else case strip_prefix host_pattern ''*.'' of
             Some suffix \<Rightarrow>
               b\<lparr>tsb_wildcard := alist_upsert suffix [] (\<lambda>cs. cs @ [cert]) (tsb_wildcard b)\<rparr>
           | None \<Rightarrow> b\<lparr>tsb_exact := alist_upsert host_pattern [] (\<lambda>cs. cs @ [cert]) (tsb_exact b)\<rparr>)"

definition prepare_certs :: "tls_cert list \<Rightarrow> tls_cert list" where
  "prepare_certs certs = sort_cert_vec (dedup_cert_vec certs)"

definition tls_store_build :: "tls_store_builder \<Rightarrow> tls_store" where
  "tls_store_build b =
     \<lparr>ts_exact = map (\<lambda>(h, certs). (h, prepare_certs certs)) (tsb_exact b),
      ts_wildcard = sort_key (\<lambda>(suffix, _). - int (length suffix))
        (map (\<lambda>(suffix, certs). (suffix, prepare_certs certs)) (tsb_wildcard b)),
      ts_default = prepare_certs (tsb_default b)\<rparr>"

type_synonym port_tls_store = "(u16 \<times> tls_store) list"
type_synonym port_tls_store_builder = "(u16 \<times> tls_store_builder) list"

definition from_port_stores :: "(u16 \<times> tls_store) list \<Rightarrow> port_tls_store" where
  "from_port_stores stores = foldl (\<lambda>m (port, s). alist_insert port s m) [] stores"

definition port_cert_counts :: "port_tls_store \<Rightarrow> nat \<times> nat \<times> nat" where
  "port_cert_counts p =
     foldl (\<lambda>(e, w, d) (_, s). case cert_counts s of (se, sw, sd) \<Rightarrow> (e + se, w + sw, d + sd)) (0, 0, 0) p"

definition port_expiries :: "port_tls_store \<Rightarrow> (string \<times> string \<times> int) list" where
  "port_expiries p = concat (map (\<lambda>(_, s). expiries s) p)"

definition port_add_cert ::
  "u16 \<Rightarrow> string \<Rightarrow> tls_cert \<Rightarrow> port_tls_store_builder \<Rightarrow> port_tls_store_builder" where
  "port_add_cert port host_pattern cert b =
     alist_upsert port tls_store_builder_new (add_cert host_pattern cert) b"

definition port_tls_store_build :: "port_tls_store_builder \<Rightarrow> port_tls_store" where
  "port_tls_store_build b = map (\<lambda>(port, sb). (port, tls_store_build sb)) b"

section \<open>Client-certificate stores\<close>

record client_cert_config =
  ccc_ca_pem :: "u8 list"
  ccc_verify_depth :: u32
  ccc_pass_to_upstream :: bool
  ccc_allow_insecure_fallback :: bool

datatype client_cert_config_state = ClientCertConfig client_cert_config | ClientCertUnavailable

definition client_cert_config_new :: "u8 list \<Rightarrow> u32 \<Rightarrow> bool \<Rightarrow> client_cert_config" where
  "client_cert_config_new ca_bytes depth pass =
     \<lparr>ccc_ca_pem = ca_bytes, ccc_verify_depth = depth, ccc_pass_to_upstream = pass,
      ccc_allow_insecure_fallback = False\<rparr>"

definition with_insecure_fallback :: "bool \<Rightarrow> client_cert_config \<Rightarrow> client_cert_config" where
  "with_insecure_fallback v c = c\<lparr>ccc_allow_insecure_fallback := v\<rparr>"

record host_client_cert_configs =
  hcc_exact :: "(string \<times> client_cert_config_state) list"
  hcc_wildcard :: "(string \<times> client_cert_config_state) list"
  hcc_default :: "client_cert_config_state option"

type_synonym client_cert_store = "(u16 \<times> host_client_cert_configs) list"

definition host_find_config :: "host_client_cert_configs \<Rightarrow> string \<Rightarrow> client_cert_config_state option" where
  "host_find_config m server_name =
     (case map_of (hcc_exact m) server_name of
        Some cfg \<Rightarrow> Some cfg
      | None \<Rightarrow>
          (case List.find (\<lambda>(suffix, _). tls_wildcard_matches server_name suffix) (hcc_wildcard m) of
             Some (_, cfg) \<Rightarrow> Some cfg
           | None \<Rightarrow> hcc_default m))"

definition find_config :: "client_cert_store \<Rightarrow> u16 \<Rightarrow> string \<Rightarrow> client_cert_config_state option" where
  "find_config s port server_name =
     (case map_of s port of None \<Rightarrow> None | Some m \<Rightarrow> host_find_config m server_name)"

definition host_configs_len :: "host_client_cert_configs \<Rightarrow> nat" where
  "host_configs_len m =
     length (hcc_exact m) + length (hcc_wildcard m) + (if hcc_default m \<noteq> None then 1 else 0)"

definition client_cert_host_count :: "client_cert_store \<Rightarrow> nat" where
  "client_cert_host_count s = sum_list (map (\<lambda>(_, m). host_configs_len m) s)"

record host_configs_builder =
  hcb_exact :: "(string \<times> client_cert_config_state) list"
  hcb_wildcard :: "(string \<times> client_cert_config_state) list"
  hcb_default :: "client_cert_config_state option"

type_synonym client_cert_store_builder = "(u16 \<times> host_configs_builder) list"

definition host_configs_builder_default :: host_configs_builder where
  "host_configs_builder_default = \<lparr>hcb_exact = [], hcb_wildcard = [], hcb_default = None\<rparr>"

definition host_add_config ::
  "string \<Rightarrow> client_cert_config_state \<Rightarrow> host_configs_builder \<Rightarrow> host_configs_builder" where
  "host_add_config host_pattern cfg b =
     (if host_pattern = [] \<or> host_pattern = ''*'' then b\<lparr>hcb_default := Some cfg\<rparr>
      else case strip_prefix host_pattern ''*.'' of
             Some suffix \<Rightarrow> b\<lparr>hcb_wildcard := alist_insert suffix cfg (hcb_wildcard b)\<rparr>
           | None \<Rightarrow> b\<lparr>hcb_exact := alist_insert host_pattern cfg (hcb_exact b)\<rparr>)"

definition add_client_cert ::
  "u16 \<Rightarrow> string \<Rightarrow> client_cert_config_state \<Rightarrow> client_cert_store_builder \<Rightarrow> client_cert_store_builder" where
  "add_client_cert port host_pattern cfg b =
     alist_upsert port host_configs_builder_default (host_add_config host_pattern cfg) b"

definition host_configs_build :: "host_configs_builder \<Rightarrow> host_client_cert_configs" where
  "host_configs_build b =
     \<lparr>hcc_exact = hcb_exact b,
      hcc_wildcard = sort_key (\<lambda>(suffix, _). - int (length suffix)) (hcb_wildcard b),
      hcc_default = hcb_default b\<rparr>"

definition client_cert_store_build :: "client_cert_store_builder \<Rightarrow> client_cert_store" where
  "client_cert_store_build b = map (\<lambda>(port, hb). (port, host_configs_build hb)) b"

section \<open>Listener hostnames\<close>

definition listener_pattern_matches :: "string \<Rightarrow> string \<Rightarrow> bool" where
  "listener_pattern_matches host pat =
     (case strip_prefix pat ''*.'' of
        Some suffix \<Rightarrow> tls_wildcard_matches host suffix | None \<Rightarrow> host = pat)"

text \<open>The specificity of an exact hostname is \<open>usize::MAX\<close>.\<close>

definition listener_specificity :: "string \<Rightarrow> int" where
  "listener_specificity pat =
     (case strip_prefix pat ''*.'' of Some suffix \<Rightarrow> int (length suffix) | None \<Rightarrow> 2 ^ 64 - 1)"

datatype listener_id = PatternListener string | MatchAll

record port_listeners =
  pll_patterns :: "string list"
  pll_has_match_all :: bool

type_synonym listener_hostnames = "(u16 \<times> port_listeners) list"

definition resolve_pattern :: "port_listeners \<Rightarrow> string option \<Rightarrow> listener_id option" where
  "resolve_pattern p host =
     (case Option.bind host (\<lambda>h. List.find (listener_pattern_matches h) (pll_patterns p)) of
        Some pat \<Rightarrow> Some (PatternListener pat)
      | None \<Rightarrow> if pll_has_match_all p then Some MatchAll else None)"

definition resolve :: "listener_hostnames \<Rightarrow> u16 \<Rightarrow> string \<Rightarrow> listener_id option" where
  "resolve l port host =
     (case map_of l port of None \<Rightarrow> None | Some p \<Rightarrow> resolve_pattern p (Some host))"

definition resolve_sni :: "listener_hostnames \<Rightarrow> u16 \<Rightarrow> string option \<Rightarrow> listener_id option" where
  "resolve_sni l port server_name =
     (case map_of l port of None \<Rightarrow> None | Some p \<Rightarrow> resolve_pattern p server_name)"

definition has_https_port :: "listener_hostnames \<Rightarrow> u16 \<Rightarrow> bool" where
  "has_https_port l port \<longleftrightarrow> map_of l port \<noteq> None"

type_synonym listener_hostnames_builder = "(u16 \<times> string list \<times> bool) list"

definition add_listener ::
  "u16 \<Rightarrow> string \<Rightarrow> bool \<Rightarrow> listener_hostnames_builder \<Rightarrow> listener_hostnames_builder" where
  "add_listener port hostname is_https b =
     (if \<not> is_https then b
      else alist_upsert port ([], False)
             (\<lambda>(patterns, has_match_all).
                if hostname = [] \<or> hostname = ''*'' then (patterns, True)
                else (patterns @ [hostname], has_match_all)) b)"

definition listener_hostnames_build :: "listener_hostnames_builder \<Rightarrow> listener_hostnames" where
  "listener_hostnames_build b =
     map (\<lambda>(port, patterns, has_match_all).
            (port, \<lparr>pll_patterns = sort_key (\<lambda>p. - listener_specificity p) patterns,
                    pll_has_match_all = has_match_all\<rparr>)) b"

text \<open>
  The misdirected-request guard (\<open>crates/coxswain-proxy/src/policy/misdirected.rs\<close>): the request
  fails with status 421 when this is false.
\<close>

definition check_misdirected :: "listener_hostnames \<Rightarrow> u16 \<Rightarrow> string option \<Rightarrow> string \<Rightarrow> string \<Rightarrow> bool" where
  "check_misdirected lh port server_name host proto \<longleftrightarrow>
     proto \<noteq> ''https'' \<or> \<not> has_https_port lh port \<or>
     resolve_sni lh port server_name = resolve lh port host"

section \<open>Lookups by server name\<close>

text \<open>The name whose single-label wildcard covers a host: what follows its first, non-empty label.\<close>

definition parent_name :: "string \<Rightarrow> string option" where
  "parent_name h =
     (case split_once (CHR ''.'') h of Some (l, p) \<Rightarrow> if l = [] then None else Some p | None \<Rightarrow> None)"

lemma tls_wildcard_matches_parent: "tls_wildcard_matches h suffix \<longleftrightarrow> parent_name h = Some suffix"
proof
  assume "tls_wildcard_matches h suffix"
  then obtain l where "h = l @ CHR ''.'' # suffix" "l \<noteq> []" "CHR ''.'' \<notin> set l"
    by (auto simp: tls_wildcard_matches_def strip_suffix_eq_Some split: option.splits)
  then show "parent_name h = Some suffix" by (simp add: parent_name_def split_once_append)
next
  assume "parent_name h = Some suffix"
  then obtain l where "h = (l @ ''.'') @ suffix" "l \<noteq> []" "CHR ''.'' \<notin> set l"
    by (auto simp: parent_name_def split: option.splits if_splits dest!: split_once_SomeD)
  then show "tls_wildcard_matches h suffix"
    by (simp only: tls_wildcard_matches_def strip_suffix_append option.case) simp
qed

lemma find_wildcard_parent:
  "map_option snd (List.find (\<lambda>(suffix, _). tls_wildcard_matches h suffix) ws) =
     Option.bind (parent_name h) (map_of ws)"
proof (induction ws)
  case (Cons w ws)
  then show ?case by (cases w; cases "parent_name h") (auto simp: tls_wildcard_matches_parent)
qed (cases "parent_name h"; simp)

text \<open>
  What the two per-port stores share: the exact name first, the wildcard of the parent name next,
  the fallback last.
\<close>

locale host_store =
  fixes lookup :: "'s \<Rightarrow> string \<Rightarrow> 'v option"
    and exact :: "'s \<Rightarrow> (string \<times> 'v) list"
    and wildcard :: "'s \<Rightarrow> (string \<times> 'v) list"
    and fallback :: "'s \<Rightarrow> 'v option"
  assumes lookup_first_match:
    "lookup s h =
       (case map_of (exact s) h of
          Some v \<Rightarrow> Some v
        | None \<Rightarrow>
            (case List.find (\<lambda>(suffix, _). tls_wildcard_matches h suffix) (wildcard s) of
               Some (_, v) \<Rightarrow> Some v | None \<Rightarrow> fallback s))"
begin

lemma lookup_by_name:
  "lookup s h =
     (case map_of (exact s) h of
        Some v \<Rightarrow> Some v
      | None \<Rightarrow> (case Option.bind (parent_name h) (map_of (wildcard s)) of Some v \<Rightarrow> Some v | None \<Rightarrow> fallback s))"
  unfolding lookup_first_match find_wildcard_parent[symmetric] by (auto split: option.split)

lemma lookup_local:
  assumes "map_of (exact s) h = map_of (exact t) h"
    and "\<And>p. parent_name h = Some p \<Longrightarrow> map_of (wildcard s) p = map_of (wildcard t) p"
    and "fallback s = fallback t"
  shows "lookup s h = lookup t h"
proof -
  have "Option.bind (parent_name h) (map_of (wildcard s)) = Option.bind (parent_name h) (map_of (wildcard t))"
    using assms(2) by (cases "parent_name h") auto
  then show ?thesis by (simp only: lookup_by_name assms(1,3))
qed

end

interpretation certs: host_store "\<lambda>s h. Some (find_certs s h)" ts_exact ts_wildcard "\<lambda>s. Some (ts_default s)"
  by unfold_locales (auto simp: find_certs_def split: option.split)

interpretation mtls: host_store host_find_config hcc_exact hcc_wildcard hcc_default
  by unfold_locales (simp add: host_find_config_def)

section \<open>Registered certificates\<close>

definition register_certs :: "(string \<times> tls_cert) list \<Rightarrow> tls_store_builder" where
  "register_certs rs = foldl (\<lambda>b (p, c). add_cert p c b) tls_store_builder_new rs"

definition certs_for :: "(string \<Rightarrow> bool) \<Rightarrow> (string \<times> tls_cert) list \<Rightarrow> tls_cert list" where
  "certs_for P rs = map snd (filter (\<lambda>(p, _). P p) rs)"

definition is_default :: "string \<Rightarrow> bool" where
  "is_default p \<longleftrightarrow> p = [] \<or> p = ''*''"

lemma register_certs_snoc: "register_certs (rs @ [(p, c)]) = add_cert p c (register_certs rs)"
  by (simp add: register_certs_def)

lemma certs_for_snoc: "certs_for P (rs @ [(p, c)]) = certs_for P rs @ (if P p then [c] else [])"
  by (simp add: certs_for_def)

lemma register_certs_default: "tsb_default (register_certs rs) = certs_for is_default rs"
proof (induction rs rule: rev_induct)
  case (snoc r rs)
  then show ?case
    by (cases r) (auto simp: register_certs_snoc certs_for_snoc add_cert_def is_default_def split: option.split)
qed (simp add: register_certs_def certs_for_def tls_store_builder_new_def)

lemma register_certs_exact:
  "map_of (tsb_exact (register_certs rs)) h =
     (if is_default h \<or> starts_with h ''*.'' \<or> certs_for (\<lambda>p. p = h) rs = [] then None
      else Some (certs_for (\<lambda>p. p = h) rs))"
proof (induction rs rule: rev_induct)
  case (snoc r rs)
  then show ?case
    by (cases r) (auto simp: register_certs_snoc certs_for_snoc add_cert_def is_default_def strip_prefix_def
        map_of_alist_upsert split: option.split if_splits)
qed (simp add: register_certs_def certs_for_def tls_store_builder_new_def)

lemma register_certs_wildcard:
  "map_of (tsb_wildcard (register_certs rs)) w =
     (if certs_for (\<lambda>p. p = ''*.'' @ w) rs = [] then None else Some (certs_for (\<lambda>p. p = ''*.'' @ w) rs))"
proof (induction rs rule: rev_induct)
  case (snoc r rs)
  then show ?case
    by (cases r) (auto simp: register_certs_snoc certs_for_snoc add_cert_def strip_prefix_eq_Some strip_prefix_eq_None
        starts_with_iff map_of_alist_upsert split: option.split if_splits)
qed (simp add: register_certs_def certs_for_def tls_store_builder_new_def)

lemma alist_wf_register: "alist_wf (tsb_wildcard (register_certs rs))"
proof (induction rs rule: rev_induct)
  case (snoc r rs)
  then show ?case by (cases r) (auto simp: register_certs_snoc add_cert_def split: option.split)
qed (simp add: register_certs_def tls_store_builder_new_def)

lemma map_of_sort_key: "alist_wf m \<Longrightarrow> map_of (sort_key f m) = map_of m"
proof -
  assume wf: "alist_wf m"
  have "mset (map fst (sort_key f m)) = mset (map fst m)" by simp
  then have "distinct (map fst (sort_key f m))"
    using wf mset_eq_imp_distinct_iff unfolding alist_wf_def by blast
  then show ?thesis using wf by (intro map_of_inject_set[THEN iffD2]) (simp_all add: alist_wf_def)
qed

lemma map_of_prepare: "map_of (map (\<lambda>(k, cs). (k, prepare_certs cs)) m) k = map_option prepare_certs (map_of m k)"
  by (induction m) auto

lemma registered_exact:
  "map_of (ts_exact (tls_store_build (register_certs rs))) h =
     (if is_default h \<or> starts_with h ''*.'' \<or> certs_for (\<lambda>p. p = h) rs = [] then None
      else Some (prepare_certs (certs_for (\<lambda>p. p = h) rs)))"
  by (simp add: tls_store_build_def map_of_prepare register_certs_exact)

lemma registered_wildcard:
  "map_of (ts_wildcard (tls_store_build (register_certs rs))) w =
     (if certs_for (\<lambda>p. p = ''*.'' @ w) rs = [] then None
      else Some (prepare_certs (certs_for (\<lambda>p. p = ''*.'' @ w) rs)))"
proof -
  let ?m = "map (\<lambda>(k, cs). (k, prepare_certs cs)) (tsb_wildcard (register_certs rs))"
  have "map fst ?m = map fst (tsb_wildcard (register_certs rs))" by auto
  then have "alist_wf ?m" using alist_wf_register[of rs] by (simp only: alist_wf_def)
  then show ?thesis
    by (simp add: tls_store_build_def map_of_sort_key map_of_prepare register_certs_wildcard del: append.simps)
qed

lemma registered_default:
  "ts_default (tls_store_build (register_certs rs)) = prepare_certs (certs_for is_default rs)"
  by (simp add: tls_store_build_def register_certs_default)

lemma find_certs_by_pattern:
  "find_certs (tls_store_build (register_certs rs)) h =
     (let own = (if is_default h \<or> starts_with h ''*.'' then [] else certs_for (\<lambda>p. p = h) rs);
          wild = (case parent_name h of Some d \<Rightarrow> certs_for (\<lambda>p. p = ''*.'' @ d) rs | None \<Rightarrow> [])
      in prepare_certs (if own \<noteq> [] then own else if wild \<noteq> [] then wild else certs_for is_default rs))"
proof -
  have "Some (find_certs (tls_store_build (register_certs rs)) h) =
    (case map_of (ts_exact (tls_store_build (register_certs rs))) h of
        Some v \<Rightarrow> Some v
      | None \<Rightarrow> (case Option.bind (parent_name h) (map_of (ts_wildcard (tls_store_build (register_certs rs)))) of
           Some v \<Rightarrow> Some v | None \<Rightarrow> Some (prepare_certs (certs_for is_default rs))))"
    using certs.lookup_by_name[of "tls_store_build (register_certs rs)" h]
    by (simp only: registered_default)
  then show ?thesis
    unfolding registered_exact Let_def
    by (cases "parent_name h") (auto simp: registered_wildcard simp del: append.simps split: if_splits)
qed

text \<open>A TLS handshake is offered exactly the certificates registered for the most specific pattern
  of its server name: those of the name itself, else those of the wildcard of its parent name,
  else the port's default ones; each list is without repeated PEM pairs and in preference order.\<close>

theorem find_certs_registered:
  "find_certs (tls_store_build (register_certs rs)) h =
     (let own = (if is_default h \<or> starts_with h ''*.'' then [] else certs_for (\<lambda>p. p = h) rs);
          wild = (case parent_name h of Some d \<Rightarrow> certs_for (\<lambda>p. p = ''*.'' @ d) rs | None \<Rightarrow> [])
      in prepare_certs (if own \<noteq> [] then own else if wild \<noteq> [] then wild else certs_for is_default rs))"
  by (rule find_certs_by_pattern)

lemma prepare_certs_Nil [simp]: "prepare_certs cs = [] \<longleftrightarrow> cs = []"
proof -
  have "dedup_loop kept l = [] \<longleftrightarrow> kept = [] \<and> l = []" for kept l
    by (induction kept l rule: dedup_loop.induct) auto
  then have "dedup_cert_vec cs = [] \<longleftrightarrow> cs = []" by (simp add: dedup_cert_vec_def)
  then show ?thesis
    by (metis prepare_certs_def sort_cert_vec_def length_0_conv length_sort)
qed

section \<open>Registered client-certificate requirements\<close>

definition host_configs_of :: "(string \<times> client_cert_config_state) list \<Rightarrow> host_configs_builder" where
  "host_configs_of l = foldl (\<lambda>b (p, c). host_add_config p c b) host_configs_builder_default l"

definition register_configs :: "(u16 \<times> string \<times> client_cert_config_state) list \<Rightarrow> client_cert_store_builder" where
  "register_configs rs = foldl (\<lambda>b (port, p, c). add_client_cert port p c b) [] rs"

definition on_port :: "u16 \<Rightarrow> (u16 \<times> 'a) list \<Rightarrow> 'a list" where
  "on_port port rs = map snd (filter (\<lambda>(p, _). p = port) rs)"

lemma on_port_snoc: "on_port port (rs @ [(p, x)]) = on_port port rs @ (if p = port then [x] else [])"
  by (simp add: on_port_def)

lemma register_configs_port:
  "map_of (register_configs rs) port =
     (if on_port port rs = [] then None else Some (host_configs_of (on_port port rs)))"
proof (induction rs rule: rev_induct)
  case (snoc r rs)
  obtain p q where r: "r = (p, q)" by (cases r)
  have "register_configs (rs @ [r]) = (case q of (h, c) \<Rightarrow> add_client_cert p h c (register_configs rs))"
    by (simp add: register_configs_def r)
  then show ?case using snoc
    by (cases q) (auto simp: r add_client_cert_def map_of_alist_upsert on_port_snoc host_configs_of_def)
qed (simp add: register_configs_def on_port_def)

lemma host_configs_of_snoc: "host_configs_of (l @ [(p, c)]) = host_add_config p c (host_configs_of l)"
  by (simp add: host_configs_of_def)

lemma host_configs_of_exact:
  "map_of (hcb_exact (host_configs_of l)) h =
     (if is_default h \<or> starts_with h ''*.'' then None else map_of (rev l) h)"
proof (induction l rule: rev_induct)
  case (snoc r l)
  then show ?case
    by (cases r) (auto simp: host_configs_of_snoc host_add_config_def is_default_def alist_simps strip_prefix_def split: option.split)
qed (simp add: host_configs_of_def host_configs_builder_default_def)

lemma host_configs_of_wildcard:
  "map_of (hcb_wildcard (host_configs_of l)) w = map_of (rev l) (''*.'' @ w) \<and>
   alist_wf (hcb_wildcard (host_configs_of l))"
proof (induction l rule: rev_induct)
  case (snoc r l)
  then show ?case
    by (cases r) (auto simp: host_configs_of_snoc host_add_config_def alist_simps strip_prefix_eq_Some strip_prefix_eq_None
        starts_with_iff alist_wf_insert_l4 split: option.split)
qed (simp add: host_configs_of_def host_configs_builder_default_def)

lemma host_configs_of_default:
  "hcb_default (host_configs_of l) = map_option snd (List.find (\<lambda>(p, _). is_default p) (rev l))"
proof (induction l rule: rev_induct)
  case (snoc r l)
  then show ?case
    by (cases r) (auto simp: host_configs_of_snoc host_add_config_def is_default_def split: option.split)
qed (simp add: host_configs_of_def host_configs_builder_default_def)

lemma find_config_by_pattern:
  "find_config (client_cert_store_build (register_configs rs)) port h =
     (let mine = rev (on_port port rs);
          own = (if is_default h \<or> starts_with h ''*.'' then None else map_of mine h);
          wild = Option.bind (parent_name h) (\<lambda>d. map_of mine (''*.'' @ d))
      in case own of
           Some c \<Rightarrow> Some c
         | None \<Rightarrow> (case wild of
                      Some c \<Rightarrow> Some c
                    | None \<Rightarrow> map_option snd (List.find (\<lambda>(p, _). is_default p) mine)))"
proof -
  have m: "map_of (client_cert_store_build m) port = map_option host_configs_build (map_of m port)" for m
    unfolding client_cert_store_build_def by (induction m) auto
  let ?l = "on_port port rs"
  have w: "map_of (hcc_wildcard (host_configs_build (host_configs_of ?l))) = (\<lambda>d. map_of (rev ?l) (''*.'' @ d))"
    using host_configs_of_wildcard[of ?l]
    by (intro ext) (simp add: host_configs_build_def map_of_sort_key del: append.simps)
  have "host_find_config (host_configs_build (host_configs_of ?l)) h =
    (case (if is_default h \<or> starts_with h ''*.'' then None else map_of (rev ?l) h) of
       Some c \<Rightarrow> Some c
     | None \<Rightarrow> (case Option.bind (parent_name h) (\<lambda>d. map_of (rev ?l) (''*.'' @ d)) of
                  Some c \<Rightarrow> Some c | None \<Rightarrow> map_option snd (List.find (\<lambda>(p, _). is_default p) (rev ?l))))"
    unfolding mtls.lookup_by_name w
    by (simp only: host_configs_build_def host_client_cert_configs.simps host_configs_of_exact host_configs_of_default)
  then show ?thesis
    unfolding find_config_def m register_configs_port Let_def
    by (cases "?l = []") (auto simp: bind_eq_None_conv split: option.split)
qed

text \<open>C14: Whether a handshake must present a client certificate, and under which CA, is decided by the
  registrations of its own port alone: the last one for the server name, else the last one for
  the wildcard of its parent name, else the last default.  A registration on another port never
  weakens or replaces it.\<close>

theorem client_cert_config_scoped:
  "find_config (client_cert_store_build (register_configs rs)) port h =
     (let mine = rev (on_port port rs);
          own = (if is_default h \<or> starts_with h ''*.'' then None else map_of mine h);
          wild = Option.bind (parent_name h) (\<lambda>d. map_of mine (''*.'' @ d))
      in case own of
           Some c \<Rightarrow> Some c
         | None \<Rightarrow> (case wild of
                      Some c \<Rightarrow> Some c
                    | None \<Rightarrow> map_option snd (List.find (\<lambda>(p, _). is_default p) mine)))"
  by (rule find_config_by_pattern)

section \<open>Specific certificates\<close>

lemma listener_pattern_matches_iff:
  "listener_pattern_matches h pat \<longleftrightarrow>
     (if starts_with pat ''*.'' then (\<exists>d. parent_name h = Some d \<and> pat = ''*.'' @ d) else h = pat)"
  by (auto simp: listener_pattern_matches_def tls_wildcard_matches_parent strip_prefix_def starts_with_iff)

lemma specific_pattern_iff:
  "\<not> is_default p \<and> listener_pattern_matches h p \<longleftrightarrow>
     (\<not> is_default h \<and> \<not> starts_with h ''*.'' \<and> p = h) \<or> (\<exists>d. parent_name h = Some d \<and> p = ''*.'' @ d)"
proof -
  have "starts_with (''*.'' @ d) ''*.''" "\<not> is_default (''*.'' @ d)" for d
    by (simp_all add: is_default_def)
  then show ?thesis unfolding listener_pattern_matches_iff by (metis (full_types))
qed

lemma list_ex_wildcard_parent:
  "alist_wf ws \<Longrightarrow> list_ex (\<lambda>(suffix, certs). certs \<noteq> [] \<and> tls_wildcard_matches h suffix) ws \<longleftrightarrow>
     (\<exists>d certs. parent_name h = Some d \<and> map_of ws d = Some certs \<and> certs \<noteq> [])"
  by (auto simp: list_ex_iff tls_wildcard_matches_parent alist_wf_def map_of_eq_Some_iff)

text \<open>
  The hybrid passthrough port terminates TLS for a server name exactly when a registered pattern
  other than a default covers it.
\<close>

theorem has_specific_cert_registered:
  "has_specific_cert (tls_store_build (register_certs rs)) h \<longleftrightarrow>
     (\<exists>(p, c) \<in> set rs. \<not> is_default p \<and> listener_pattern_matches h p)"
proof -
  let ?s = "tls_store_build (register_certs rs)"
  have wf: "alist_wf (ts_wildcard ?s)"
  proof -
    have "mset (map fst (ts_wildcard ?s)) = mset (map fst (tsb_wildcard (register_certs rs)))"
      by (simp add: tls_store_build_def image_mset.compositionality comp_def case_prod_unfold)
    then show ?thesis using alist_wf_register[of rs] mset_eq_imp_distinct_iff unfolding alist_wf_def by blast
  qed
  have ne: "certs_for P rs \<noteq> [] \<longleftrightarrow> (\<exists>(p, c) \<in> set rs. P p)" for P
    by (auto simp: certs_for_def filter_empty_conv)
  have "has_specific_cert ?s h \<longleftrightarrow>
      (\<not> is_default h \<and> \<not> starts_with h ''*.'' \<and> certs_for (\<lambda>p. p = h) rs \<noteq> []) \<or>
      (\<exists>d. parent_name h = Some d \<and> certs_for (\<lambda>p. p = ''*.'' @ d) rs \<noteq> [])"
    unfolding has_specific_cert_def list_ex_wildcard_parent[OF wf] registered_exact registered_wildcard
    by auto
  also have "\<dots> \<longleftrightarrow> (\<exists>(p, c) \<in> set rs. \<not> is_default p \<and> listener_pattern_matches h p)"
    unfolding ne specific_pattern_iff by (auto simp del: append.simps)
  finally show ?thesis .
qed

section \<open>Registered listeners\<close>

definition register_listeners :: "(u16 \<times> string \<times> bool) list \<Rightarrow> listener_hostnames_builder" where
  "register_listeners rs = foldl (\<lambda>b (port, hostname, is_https). add_listener port hostname is_https b) [] rs"

definition https_names :: "u16 \<Rightarrow> (u16 \<times> string \<times> bool) list \<Rightarrow> string list" where
  "https_names port rs = map fst (filter snd (on_port port rs))"

text \<open>The listener that owns a name: its own, its parent's wildcard, or the one without a hostname.\<close>

definition listener_of :: "string list \<Rightarrow> string option \<Rightarrow> listener_id option" where
  "listener_of names host =
     (let own = Option.bind host (\<lambda>h. if \<not> is_default h \<and> \<not> starts_with h ''*.'' \<and> h \<in> set names then Some h else None);
          wild = Option.bind (Option.bind host parent_name) (\<lambda>d. if ''*.'' @ d \<in> set names then Some (''*.'' @ d) else None)
      in case own of
           Some p \<Rightarrow> Some (PatternListener p)
         | None \<Rightarrow> (case wild of
                      Some p \<Rightarrow> Some (PatternListener p)
                    | None \<Rightarrow> if list_ex is_default names then Some MatchAll else None))"

lemma register_listeners_port:
  "map_of (register_listeners rs) port =
     (let names = https_names port rs
      in if names = [] then None
         else Some (filter (\<lambda>p. \<not> is_default p) names, list_ex is_default names))"
proof (induction rs rule: rev_induct)
  case (snoc r rs)
  obtain p h t where r: "r = (p, h, t)" by (cases r)
  have "register_listeners (rs @ [r]) = add_listener p h t (register_listeners rs)"
    by (simp add: register_listeners_def r)
  moreover have "https_names port (rs @ [r]) = https_names port rs @ (if p = port \<and> t then [h] else [])"
    by (simp add: https_names_def on_port_snoc r)
  ultimately show ?case using snoc
    by (auto simp: add_listener_def map_of_alist_upsert is_default_def Let_def split: if_splits)
qed (simp add: register_listeners_def https_names_def on_port_def)

lemma find_most_specific:
  fixes names :: "string list"
  assumes len: "length h < 2 ^ 63"
  defines "L \<equiv> sort_key (\<lambda>p. - listener_specificity p) (filter (\<lambda>p. \<not> is_default p) names)"
  shows "(case List.find (listener_pattern_matches h) L of Some p \<Rightarrow> Some (PatternListener p)
          | None \<Rightarrow> if list_ex is_default names then Some MatchAll else None) = listener_of names (Some h)"
proof (cases "List.find (listener_pattern_matches h) L")
  case None
  then have no: "\<not> listener_pattern_matches h p" if "p \<in> set names" "\<not> is_default p" for p
    using that by (auto simp: find_None_iff L_def)
  have "\<not> (\<not> is_default h \<and> \<not> starts_with h ''*.'' \<and> h \<in> set names)"
    using no[of h] by (auto simp: listener_pattern_matches_iff)
  moreover have "''*.'' @ d \<notin> set names" if "parent_name h = Some d" for d
    using no[of "''*.'' @ d"] that by (auto simp: listener_pattern_matches_iff is_default_def)
  ultimately show ?thesis using None
    by (cases "parent_name h") (auto simp: listener_of_def Let_def simp del: append.simps)
next
  case (Some p)
  have p: "p \<in> set names" "\<not> is_default p" "listener_pattern_matches h p"
    using find_SomeD[OF Some] by (simp_all add: L_def)
  show ?thesis
  proof (cases "\<not> is_default h \<and> \<not> starts_with h ''*.'' \<and> h \<in> set names")
    case True
    have "sorted (map (\<lambda>p. - listener_specificity p) L)" by (simp add: L_def)
    from sorted_find_least[OF this Some, of h] True
    have "- listener_specificity p \<le> - listener_specificity h"
      by (simp add: L_def listener_pattern_matches_iff)
    moreover have "listener_specificity h = 2 ^ 64 - 1"
      using True by (simp add: listener_specificity_def strip_prefix_def)
    moreover have "int (length d) < 2 ^ 64 - 1" if "parent_name h = Some d" for d
    proof -
      have "length d < length h"
        using that by (auto simp: parent_name_def split: option.splits if_splits dest!: split_once_SomeD)
      then have "length d < 2 ^ 63" using len by (rule less_trans)
      then have "int (length d) < int (2 ^ 63)" by (simp only: of_nat_less_iff)
      then show ?thesis by simp
    qed
    ultimately have "p = h" using p(3)
      by (auto simp: listener_pattern_matches_iff listener_specificity_def strip_prefix_def split: if_splits)
    then show ?thesis using Some True by (simp add: listener_of_def Let_def)
  next
    case False
    then obtain d where "parent_name h = Some d" "p = ''*.'' @ d"
      using p by (auto simp: listener_pattern_matches_iff split: if_splits)
    then show ?thesis using Some False p(1) by (auto simp: listener_of_def Let_def simp del: append.simps)
  qed
qed

lemma resolve_registered:
  assumes "length h < 2 ^ 63"
  shows "resolve (listener_hostnames_build (register_listeners rs)) port h = listener_of (https_names port rs) (Some h)"
proof -
  have m: "map_of (listener_hostnames_build b) port =
      map_option (\<lambda>(ps, t). \<lparr>pll_patterns = sort_key (\<lambda>p. - listener_specificity p) ps, pll_has_match_all = t\<rparr>)
        (map_of b port)" for b
    unfolding listener_hostnames_build_def by (induction b) auto
  have "listener_of [] (Some h) = None" by (simp add: listener_of_def Let_def split: option.split)
  then show ?thesis
    by (cases "https_names port rs = []")
       (simp_all add: resolve_def m register_listeners_port Let_def resolve_pattern_def
          find_most_specific[OF assms, of "https_names port rs", symmetric])
qed

lemma resolve_sni_registered:
  assumes "\<And>h. server_name = Some h \<Longrightarrow> length h < 2 ^ 63"
  shows "resolve_sni (listener_hostnames_build (register_listeners rs)) port server_name =
         listener_of (https_names port rs) server_name"
proof (cases server_name)
  case None
  have "map_of (listener_hostnames_build b) port =
      map_option (\<lambda>(ps, t). \<lparr>pll_patterns = sort_key (\<lambda>p. - listener_specificity p) ps, pll_has_match_all = t\<rparr>)
        (map_of b port)" for b
    unfolding listener_hostnames_build_def by (induction b) auto
  then show ?thesis
    by (auto simp: None resolve_sni_def register_listeners_port Let_def resolve_pattern_def listener_of_def)
next
  case (Some h)
  then have "resolve_sni l port server_name = resolve l port h" for l
    by (simp add: resolve_sni_def resolve_def)
  then show ?thesis using resolve_registered[of h rs port] assms Some by simp
qed

section \<open>Listener ownership in the Gateway API\<close>

text \<open>
  What the listener documentation of \<open>crates/gateway-api-types/src/apis/standard/gateways.rs\<close> prescribes:
  a wildcard hostname is a suffix match over any number of labels, and a name belongs to the listener with
  that very hostname, else to the one with the longest matching wildcard, else to one without a hostname.
\<close>

definition gateway_matches :: "string \<Rightarrow> string \<Rightarrow> bool" where
  "gateway_matches host pat =
     (case strip_prefix pat ''*.'' of
        Some suffix \<Rightarrow> ends_with host (CHR ''.'' # suffix) \<and> host \<noteq> CHR ''.'' # suffix | None \<Rightarrow> host = pat)"

definition gateway_hits :: "string list \<Rightarrow> string option \<Rightarrow> string list" where
  "gateway_hits names host =
     (case host of None \<Rightarrow> [] | Some h \<Rightarrow> filter (\<lambda>p. \<not> is_default p \<and> gateway_matches h p) names)"

definition gateway_owner :: "string list \<Rightarrow> string option \<Rightarrow> listener_id option \<Rightarrow> bool" where
  "gateway_owner names host i =
     (case i of
        Some (PatternListener p) \<Rightarrow>
          p \<in> set (gateway_hits names host) \<and>
          (starts_with p ''*.'' \<longrightarrow> list_all (\<lambda>q. starts_with q ''*.'' \<and> length q \<le> length p) (gateway_hits names host))
      | Some MatchAll \<Rightarrow> gateway_hits names host = [] \<and> list_ex is_default names
      | None \<Rightarrow> gateway_hits names host = [] \<and> \<not> list_ex is_default names)"

text \<open>A name no more than one label below every wildcard it falls under.\<close>

definition one_label_below :: "string list \<Rightarrow> string option \<Rightarrow> bool" where
  "one_label_below names host =
     list_all (\<lambda>p. starts_with p ''*.'' \<longrightarrow> Option.bind host parent_name = Some (drop 2 p)) (gateway_hits names host)"

lemma gateway_matches_iff:
  "gateway_matches h p \<longleftrightarrow> (if starts_with p ''*.'' then (\<exists>l. l \<noteq> [] \<and> h = l @ CHR ''.'' # drop 2 p) else h = p)"
proof (cases "starts_with p ''*.''")
  case True
  then obtain r where "p = ''*.'' @ r" by (auto simp: starts_with_iff)
  then show ?thesis by (auto simp: gateway_matches_def strip_prefix_def ends_with_iff starts_with_iff)
qed (simp add: gateway_matches_def strip_prefix_def)

lemma gateway_hits_one_label:
  assumes "one_label_below names (Some h)"
  shows "set (gateway_hits names (Some h)) = {p \<in> set names. \<not> is_default p \<and> listener_pattern_matches h p}"
proof -
  have "gateway_matches h p \<longleftrightarrow> listener_pattern_matches h p" if "p \<in> set names" "\<not> is_default p" for p
  proof (cases "starts_with p ''*.''")
    case True
    then obtain r where p: "p = ''*.'' @ r" by (auto simp: starts_with_iff)
    have "parent_name h = Some r" if "gateway_matches h p"
      using assms True that \<open>p \<in> set names\<close> \<open>\<not> is_default p\<close>
      by (auto simp: one_label_below_def gateway_hits_def list_all_iff p)
    moreover have "gateway_matches h p" if "parent_name h = Some r"
      using that True by (auto simp: gateway_matches_iff p parent_name_def split: option.splits if_splits dest!: split_once_SomeD)
    ultimately show ?thesis using True by (auto simp: listener_pattern_matches_iff p)
  qed (simp add: gateway_matches_iff listener_pattern_matches_iff)
  then show ?thesis by (auto simp: gateway_hits_def)
qed

lemma gateway_owner_iff:
  assumes "one_label_below names host"
  shows "gateway_owner names host i \<longleftrightarrow> i = listener_of names host"
proof (cases host)
  case None
  then show ?thesis by (auto simp: gateway_owner_def gateway_hits_def listener_of_def split: option.splits listener_id.splits)
next
  case (Some h)
  let ?own = "\<not> is_default h \<and> \<not> starts_with h ''*.'' \<and> h \<in> set names"
  let ?wild = "{''*.'' @ d |d. parent_name h = Some d \<and> ''*.'' @ d \<in> set names}"
  have hits: "set (gateway_hits names host) = (if ?own then {h} else {}) \<union> ?wild"
    using assms gateway_hits_one_label[of names h] specific_pattern_iff[of _ h] by (auto simp: Some)
  have "gateway_hits names host = [] \<longleftrightarrow> set (gateway_hits names host) = {}" by simp
  also have "\<dots> \<longleftrightarrow> \<not> ?own \<and> ?wild = {}" unfolding hits by auto
  finally have "gateway_hits names host = [] \<longleftrightarrow> \<not> ?own \<and> ?wild = {}" .
  moreover have "starts_with (''*.'' @ d) ''*.''" for d by simp
  ultimately show ?thesis
    using hits by (cases "parent_name h")
      (auto simp: gateway_owner_def listener_of_def Some Let_def list_all_iff split: option.splits listener_id.splits if_splits simp del: append.simps)
qed

text \<open>C20: On a port with HTTPS listeners, a request whose host some listener of the port matches passes the
  misdirected-request guard exactly when the server name its connection negotiated, or its absence, belongs
  to that same listener in the sense of the Gateway API.  The names lie at most one label below the
  wildcards they fall under, where suffix and single-label wildcards agree.\<close>

theorem misdirected_requests_rejected:
  assumes "length host < 2 ^ 63"
    and "\<And>h. server_name = Some h \<Longrightarrow> length h < 2 ^ 63"
    and "one_label_below (https_names port rs) (Some host)" and "one_label_below (https_names port rs) server_name"
    and "gateway_owner (https_names port rs) (Some host) (Some listener)"
  shows "check_misdirected (listener_hostnames_build (register_listeners rs)) port server_name host ''https'' \<longleftrightarrow>
         gateway_owner (https_names port rs) server_name (Some listener)"
proof -
  have "resolve_sni l port s = None \<and> resolve l port h = None" if "\<not> has_https_port l port" for l s h
    using that by (simp add: has_https_port_def resolve_sni_def resolve_def)
  then have "check_misdirected (listener_hostnames_build (register_listeners rs)) port server_name host ''https'' \<longleftrightarrow>
         listener_of (https_names port rs) server_name = listener_of (https_names port rs) (Some host)"
    unfolding check_misdirected_def
    using resolve_registered[OF assms(1), of rs port] resolve_sni_registered[OF assms(2), of server_name rs port]
    by metis
  then show ?thesis using assms(5) unfolding gateway_owner_iff[OF assms(3)] gateway_owner_iff[OF assms(4)] by auto
qed

theorem misdirected_requests_rejected_witness:
  "check_misdirected (listener_hostnames_build (register_listeners [(443, ''a.test'', True), (443, ''*.test'', True)])) 443
     (Some ''a.test'') ''b.test'' ''https'' = False"
proof -
  have names: "https_names 443 [(443, ''a.test'', True), (443, ''*.test'', True)] = [''a.test'', ''*.test'']"
    by (simp add: https_names_def on_port_def)
  have "one_label_below [''a.test'', ''*.test''] (Some ''b.test'')" "one_label_below [''a.test'', ''*.test''] (Some ''a.test'')"
    "gateway_owner [''a.test'', ''*.test''] (Some ''b.test'') (Some (PatternListener ''*.test''))"
    "\<not> gateway_owner [''a.test'', ''*.test''] (Some ''a.test'') (Some (PatternListener ''*.test''))" by code_simp+
  then show ?thesis
    using misdirected_requests_rejected[of "''b.test''" "Some ''a.test''" 443 "[(443, ''a.test'', True), (443, ''*.test'', True)]"
        "PatternListener ''*.test''"]
    by (simp add: names)
qed

end
