(* ===== verification/Listener_Status.thy ===== *)
theory Listener_Status
  imports Cox_Prelude Ownership
begin

text \<open>
  Per-listener status (\<open>crates/coxswain-core/src/listener_status.rs\<close>): the readiness of a
  listener, the outcome of its references and port conflicts, the ports it binds, and the shared
  handle through which reconcilers publish the map of all Gateways.
\<close>

section \<open>Identity\<close>

datatype listener_source = GatewaySource | ListenerSetSource object_key

record listener_status_key =
  lsk_source :: listener_source
  lsk_name :: string

section \<open>Readiness\<close>

datatype listener_readiness =
    NotApplicable
  | Resolved
  | RefNotPermitted string
  | InvalidCertificateRef string
  | Invalid string
  | Unsupported string
  | UnsupportedProtocol string
  | ResolvedPartial string
  | TlsPassthrough
  | TlsTerminate
  | VipPending
  | TcpProxy
  | UdpProxy

definition is_https_terminate :: "listener_readiness \<Rightarrow> bool" where
  "is_https_terminate r = (case r of Resolved \<Rightarrow> True | ResolvedPartial _ \<Rightarrow> True | _ \<Rightarrow> False)"

definition is_healthy :: "listener_readiness \<Rightarrow> bool" where
  "is_healthy r \<longleftrightarrow> r \<in> {NotApplicable, Resolved, TlsPassthrough, TlsTerminate, TcpProxy, UdpProxy}"

definition is_terminally_invalid :: "listener_readiness \<Rightarrow> bool" where
  "is_terminally_invalid r =
     (case r of
        RefNotPermitted _ \<Rightarrow> True | InvalidCertificateRef _ \<Rightarrow> True | Invalid _ \<Rightarrow> True
      | Unsupported _ \<Rightarrow> True | UnsupportedProtocol _ \<Rightarrow> True | _ \<Rightarrow> False)"

definition readiness_reason :: "listener_readiness \<Rightarrow> string" where
  "readiness_reason r =
     (case r of
        RefNotPermitted _ \<Rightarrow> ''RefNotPermitted''
      | InvalidCertificateRef _ \<Rightarrow> ''InvalidCertificateRef''
      | ResolvedPartial _ \<Rightarrow> ''InvalidCertificateRef''
      | Invalid _ \<Rightarrow> ''Invalid''
      | Unsupported _ \<Rightarrow> ''UnsupportedValue''
      | UnsupportedProtocol _ \<Rightarrow> ''UnsupportedProtocol''
      | VipPending \<Rightarrow> ''Pending''
      | _ \<Rightarrow> ''Resolved'')"

definition readiness_message :: "listener_readiness \<Rightarrow> string" where
  "readiness_message r =
     (case r of
        RefNotPermitted m \<Rightarrow> m | InvalidCertificateRef m \<Rightarrow> m | Invalid m \<Rightarrow> m | Unsupported m \<Rightarrow> m
      | UnsupportedProtocol m \<Rightarrow> m | ResolvedPartial m \<Rightarrow> m
      | VipPending \<Rightarrow> ''waiting for VIP port allocation''
      | _ \<Rightarrow> [])"

definition SUPPORTED_LISTENER_PROTOCOLS :: "string list" where
  "SUPPORTED_LISTENER_PROTOCOLS = [''HTTP'', ''HTTPS'', ''TLS'', ''TCP'', ''UDP'']"

definition is_supported_listener_protocol :: "string \<Rightarrow> bool" where
  "is_supported_listener_protocol p \<longleftrightarrow> p \<in> set SUPPORTED_LISTENER_PROTOCOLS"

datatype frontend_validation_outcome =
    FrontendNotApplicable
  | FrontendResolved
  | InvalidCACertificateRef string
  | InvalidCACertificateKind string
  | FrontendRefNotPermitted string

definition frontend_is_failed :: "frontend_validation_outcome \<Rightarrow> bool" where
  "frontend_is_failed o1 =
     (case o1 of FrontendNotApplicable \<Rightarrow> False | FrontendResolved \<Rightarrow> False | _ \<Rightarrow> True)"

definition frontend_resolved_refs_reason :: "frontend_validation_outcome \<Rightarrow> string" where
  "frontend_resolved_refs_reason o1 =
     (case o1 of
        InvalidCACertificateRef _ \<Rightarrow> ''InvalidCACertificateRef''
      | InvalidCACertificateKind _ \<Rightarrow> ''InvalidCACertificateKind''
      | FrontendRefNotPermitted _ \<Rightarrow> ''RefNotPermitted''
      | _ \<Rightarrow> ''ResolvedRefs'')"

datatype conflict_reason = NoConflict | HostnameConflict | ProtocolConflict

definition is_conflicted :: "conflict_reason \<Rightarrow> bool" where
  "is_conflicted c \<longleftrightarrow> c \<noteq> NoConflict"

definition conflict_reason_str :: "conflict_reason \<Rightarrow> string" where
  "conflict_reason_str c =
     (case c of NoConflict \<Rightarrow> ''NoConflicts'' | HostnameConflict \<Rightarrow> ''HostnameConflict''
      | ProtocolConflict \<Rightarrow> ''ProtocolConflict'')"

datatype route_namespace_set = AllNamespaces | OnlyNamespaces "string list"

definition namespaces_allow :: "route_namespace_set \<Rightarrow> string \<Rightarrow> bool" where
  "namespaces_allow s ns = (case s of AllNamespaces \<Rightarrow> True | OnlyNamespaces l \<Rightarrow> ns \<in> set l)"

definition namespaces_is_all :: "route_namespace_set \<Rightarrow> bool" where
  "namespaces_is_all s \<longleftrightarrow> s = AllNamespaces"

record 'net proxy_protocol_config =
  ppc_enabled :: bool
  ppc_trusted_sources :: "'net list"

definition ppc_is_trusted :: "('net \<Rightarrow> ip_addr \<Rightarrow> bool) \<Rightarrow> 'net proxy_protocol_config \<Rightarrow> ip_addr \<Rightarrow> bool" where
  "ppc_is_trusted contains c ip = list_ex (\<lambda>n. contains n ip) (ppc_trusted_sources c)"

record 'net listener_info =
  li_readiness :: listener_readiness
  li_frontend_outcome :: frontend_validation_outcome
  li_attached_routes :: int
  li_hostname :: string
  li_route_namespaces :: route_namespace_set
  li_port :: u16
  li_internal_port :: u16
  li_conflict :: conflict_reason
  li_proxy_protocol :: "'net proxy_protocol_config option"

definition is_terminally_unserviceable :: "'net listener_info \<Rightarrow> bool" where
  "is_terminally_unserviceable li \<longleftrightarrow>
     is_terminally_invalid (li_readiness li) \<or> frontend_is_failed (li_frontend_outcome li) \<or>
     is_conflicted (li_conflict li)"

definition bind_port :: "'net listener_info \<Rightarrow> u16" where
  "bind_port li = (if li_internal_port li \<noteq> 0 then li_internal_port li else li_port li)"

datatype backend_client_cert_outcome =
    BackendCertNotApplicable
  | BackendCertResolved
  | InvalidClientCertificateRef string
  | BackendCertRefNotPermitted string

definition backend_cert_is_failed :: "backend_client_cert_outcome \<Rightarrow> bool" where
  "backend_cert_is_failed c =
     (case c of InvalidClientCertificateRef _ \<Rightarrow> True | BackendCertRefNotPermitted _ \<Rightarrow> True | _ \<Rightarrow> False)"

definition backend_cert_resolved_refs_status :: "backend_client_cert_outcome \<Rightarrow> string" where
  "backend_cert_resolved_refs_status c = (if backend_cert_is_failed c then ''False'' else ''True'')"

definition backend_cert_resolved_refs_reason :: "backend_client_cert_outcome \<Rightarrow> string" where
  "backend_cert_resolved_refs_reason c =
     (case c of
        InvalidClientCertificateRef _ \<Rightarrow> ''InvalidClientCertificateRef''
      | BackendCertRefNotPermitted _ \<Rightarrow> ''RefNotPermitted''
      | _ \<Rightarrow> ''ResolvedRefs'')"

record frontend_validation_status =
  fvs_insecure_fallback :: bool
  fvs_resolved_refs :: bool
  fvs_message :: string

record 'net gateway_listener_status =
  gls_listeners :: "(listener_status_key \<times> 'net listener_info) list"
  gls_frontend_validation :: "frontend_validation_status option"
  gls_backend_client_cert :: "backend_client_cert_outcome option"

definition gateway_listener_status_default :: "'net gateway_listener_status" where
  "gateway_listener_status_default =
     \<lparr>gls_listeners = [], gls_frontend_validation = None, gls_backend_client_cert = None\<rparr>"

section \<open>The shared handle\<close>

text \<open>The published map and the generation of the watch channel.\<close>

record 'net status_handle =
  sh_map :: "(object_key \<times> 'net gateway_listener_status) list"
  sh_generation :: u64

definition status_handle_new :: "'net status_handle" where
  "status_handle_new = \<lparr>sh_map = [], sh_generation = 0\<rparr>"

definition store_and_notify ::
  "(object_key \<times> 'net gateway_listener_status) list \<Rightarrow> 'net status_handle \<Rightarrow> 'net status_handle" where
  "store_and_notify m h = \<lparr>sh_map = m, sh_generation = sh_generation h + 1\<rparr>"

definition update_scoped ::
  "(object_key \<times> 'net gateway_listener_status) list \<Rightarrow> (object_key \<Rightarrow> bool) \<Rightarrow> 'net status_handle
     \<Rightarrow> 'net status_handle" where
  "update_scoped updates owns h =
     (let kept = filter (\<lambda>(k, _). \<not> owns k) (sh_map h);
          next = foldl (\<lambda>m (k, v). alist_insert k v m) kept updates
      in \<lparr>sh_map = next, sh_generation = sh_generation h + 1\<rparr>)"

section \<open>Lemmas\<close>

lemma healthy_not_terminal: "is_healthy r \<Longrightarrow> \<not> is_terminally_invalid r"
  by (auto simp: is_healthy_def is_terminally_invalid_def)

lemma map_of_insert_all:
  "map_of (foldl (\<lambda>m (k, v). alist_insert k v m) m ups) k =
     (case map_of (rev ups) k of Some v \<Rightarrow> Some v | None \<Rightarrow> map_of m k)"
proof (induction ups rule: rev_induct)
  case (snoc u ups)
  then show ?case by (cases u) (simp add: alist_simps)
qed simp

lemma map_of_filter_key: "map_of (filter (\<lambda>(k, _). P k) m) k = (if P k then map_of m k else None)"
  by (induction m) auto

theorem update_scoped_isolates_writers:
  assumes "\<And>k v. (k, v) \<in> set updates \<Longrightarrow> owns k"
    and "alist_wf updates"
  shows "map_of (sh_map (update_scoped updates owns h)) k =
         (if owns k then map_of updates k else map_of (sh_map h) k)"
proof -
  have "map_of (rev updates) = map_of updates"
    using assms(2) by (intro map_of_inject_set[THEN iffD2]) (simp_all add: alist_wf_def rev_map[symmetric])
  moreover have "\<not> owns k \<Longrightarrow> map_of updates k = None"
    using assms(1) by (auto simp: map_of_eq_None_iff)
  ultimately show ?thesis
    by (auto simp: update_scoped_def Let_def map_of_insert_all map_of_filter_key split: option.split)
qed

end
