(* ===== verification/Wire_Decode.thy ===== *)
theory Wire_Decode
  imports Result_Monad Net_Parse Wire_Types Port_Table L4_Tables
begin

text \<open>
  Decoding the discovery messages into compiled routing state:
  \<open>crates/coxswain-discovery/src/wire/routing/decode.rs\<close>, \<open>wire/endpoints.rs\<close>, \<open>wire/mod.rs\<close> and
  the error type of \<open>error.rs\<close>.  The \<open>http\<close>, \<open>regex\<close> and \<open>ipnet\<close> crates enter as the operations
  of a \<open>wire_env\<close> (the error values of those crates are dropped), whose \<open>arc_group\<close> stands for the reference a mirror filter holds to its own
  backend group.  An error is the left summand; \<open>Panicked\<close> marks a panic of the standard library.
\<close>

section \<open>Errors and third-party operations\<close>

datatype wire_error =
    InvalidRegex
  | WireInvalidHeaderName
  | WireInvalidHeaderValue
  | InvalidMethod
  | InvalidCidr
  | InvalidAddr
  | ZeroRps
  | MirrorTooDeep nat
  | MissingRequiredField string
  | InvalidEnumValue int string
  | InvalidProtocolEnum int
  | InvalidLoadBalance
  | InvalidMatchitPath
  | UnknownEndpointRef string string u32
  | DeltaBeforeFullSnapshot
  | UnknownResourceKey string
  | RemovedEndpointStillReferenced string
  | VersionMismatch string string
  | ValueOutOfRange string u32
  | Panicked

type_synonym 'a wire_result = "wire_error + 'a"

record ('b, 'net) wire_env =
  we_header_name :: "string \<Rightarrow> string option"
  we_header_value :: "string \<Rightarrow> string option"
  we_header_value_int :: "int \<Rightarrow> string"
  we_method :: "string \<Rightarrow> string option"
  we_regex_ok :: "string \<Rightarrow> bool"
  we_path_regex_ok :: "string \<Rightarrow> bool"
  we_net :: "string \<Rightarrow> 'net option"
  we_arc_group :: "'b filter_action backend_group \<Rightarrow> 'b"

type_synonym endpoint_pool = "(endpoint_key \<times> resolved_endpoints) list"

definition MAX_MIRROR_DEPTH :: nat where
  "MAX_MIRROR_DEPTH = 4"

definition u16_try_from :: "u32 \<Rightarrow> u16 option" where
  "u16_try_from v = (if v \<le> 65535 then Some (ucast v) else None)"

definition narrow_u16 :: "u32 \<Rightarrow> string \<Rightarrow> u16 wire_result" where
  "narrow_u16 raw field = ok_or (ValueOutOfRange field raw) (u16_try_from raw)"

definition endpoint_key_from_wire :: "string \<Rightarrow> string \<Rightarrow> u32 \<Rightarrow> endpoint_key" where
  "endpoint_key_from_wire namespace service port =
     \<lparr>ek_namespace = namespace, ek_service = service, ek_port = ucast port\<rparr>"

definition addr_from_wire :: "string \<Rightarrow> socket_addr wire_result" where
  "addr_from_wire s = ok_or InvalidAddr (parse_socket_addr s)"

definition protocol_from_wire :: "enum_value \<Rightarrow> backend_protocol wire_result" where
  "protocol_from_wire v = Inr (if v = 2 then H2c else if v = 3 then WebSocket else Http1)"

definition resolved_endpoints_from_wire :: "p_endpoint_resource \<Rightarrow> resolved_endpoints wire_result" where
  "resolved_endpoints_from_wire e =
     rbind (traverse addr_from_wire (per_addrs e)) (\<lambda>addrs.
     rbind (protocol_from_wire (per_app_protocol e)) (\<lambda>app_protocol.
     Inr (resolved_endpoints_new addrs app_protocol (per_service_exists e))))"

section \<open>Durations\<close>

text \<open>\<open>Duration::new\<close> carries whole seconds out of the nanoseconds and panics when that overflows.\<close>

definition duration_from_wire :: "p_duration \<Rightarrow> nat wire_result" where
  "duration_from_wire d =
     (if uint (pd_secs d) + uint (pd_nanos d) div 10 ^ 9 < 2 ^ 64
      then Inr (unat (pd_secs d) * 10 ^ 9 + unat (pd_nanos d)) else Inl Panicked)"

definition timeouts_from_wire :: "p_route_timeouts \<Rightarrow> route_timeouts wire_result" where
  "timeouts_from_wire t =
     rbind (opt_traverse duration_from_wire (pto_request t)) (\<lambda>a.
     rbind (opt_traverse duration_from_wire (pto_backend_request t)) (\<lambda>b.
     rbind (opt_traverse duration_from_wire (pto_connect t)) (\<lambda>c.
     rbind (opt_traverse duration_from_wire (pto_read t)) (\<lambda>d.
     rbind (opt_traverse duration_from_wire (pto_send t)) (\<lambda>e.
     Inr \<lparr>to_request = a, to_backend_request = b, to_connect = c, to_read = d, to_send = e\<rparr>)))))"

section \<open>Enumerations\<close>

definition route_kind_from_wire :: "enum_value \<Rightarrow> route_kind wire_result" where
  "route_kind_from_wire v =
     (if v = 1 then Inr ExactKind else if v = 2 then Inr PrefixKind else if v = 3 then Inr RegexKind
      else Inl (InvalidEnumValue v ''route_entry.kind''))"

definition wildcard_kind_from_wire :: "enum_value \<Rightarrow> wildcard_kind wire_result" where
  "wildcard_kind_from_wire v =
     (if v = 1 then Inr SingleLabel else if v = 2 then Inr MultiLabel
      else Inl (InvalidEnumValue v ''wildcard_host.kind''))"

definition normalize_level_from_wire :: "enum_value \<Rightarrow> normalize_level wire_result" where
  "normalize_level_from_wire v =
     Inr (if v = 2 then MergeSlashes else if v = 3 then DecodeAndMergeSlashes else Base)"

section \<open>Upstream policies\<close>

definition san_from_wire :: "p_subject_alt_name \<Rightarrow> subject_alt_name option" where
  "san_from_wire san =
     (if psan_kind san = 0 then Some (Hostname (psan_value san))
      else if psan_kind san = 1 then Some (Uri (psan_value san)) else None)"

definition upstream_tls_from_wire :: "p_upstream_tls \<Rightarrow> upstream_tls wire_result" where
  "upstream_tls_from_wire dto =
     rbind (ok_or (MissingRequiredField ''upstream_tls.ca'') (ptls_ca dto)) (\<lambda>wire_ca.
     let authority = (case wire_ca of PSystem _ \<Rightarrow> System | PBundle pem \<Rightarrow> Bundle pem);
         tls = upstream_tls_new (ptls_sni dto) authority (ptls_group_key dto);
         tls = (if ptls_client_cert_source dto \<noteq> []
                then tls\<lparr>client_cert := Some \<lparr>cert_pem = ptls_client_cert_pem dto,
                       key_pem = ptls_client_cert_key dto, cert_source = ptls_client_cert_source dto\<rparr>\<rparr>
                else tls)
     in if ptls_subject_alt_names dto = [] then Inr tls
        else let sans = List.map_filter san_from_wire (ptls_subject_alt_names dto)
             in if sans = []
                then Inl (InvalidEnumValue (psan_kind (hd (ptls_subject_alt_names dto)))
                       ''UpstreamTls.subject_alt_names[*].kind'')
                else Inr (tls\<lparr>subject_alt_names := sans\<rparr>))"

definition retry_from_wire :: "p_retry_policy \<Rightarrow> retry_policy_config" where
  "retry_from_wire dto =
     retry_policy_new (prp_attempts dto)
       (if prp_backoff_ms dto > 0 then Some (unat (prp_backoff_ms dto) * 10 ^ 6) else None)
       (List.map_filter u16_try_from (prp_http_codes dto))
       (List.map_filter u16_try_from (prp_grpc_codes dto))"

definition header_name_from_wire :: "('b, 'net) wire_env \<Rightarrow> string \<Rightarrow> string wire_result" where
  "header_name_from_wire env name = ok_or WireInvalidHeaderName (we_header_name env name)"

definition hash_source_from_wire :: "('b, 'net) wire_env \<Rightarrow> p_hash_source option \<Rightarrow> hash_source wire_result" where
  "hash_source_from_wire env dto =
     rbind (ok_or InvalidLoadBalance dto) (\<lambda>source.
       case source of
         PUri _ \<Rightarrow> Inr UriSource
       | PSourceIp _ \<Rightarrow> Inr SourceIp
       | PHashHeader name \<Rightarrow> rmap HeaderSource (header_name_from_wire env name)
       | PHashCookie name \<Rightarrow> Inr (CookieSource name))"

definition load_balance_from_wire :: "('b, 'net) wire_env \<Rightarrow> p_load_balance \<Rightarrow> load_balance wire_result" where
  "load_balance_from_wire env dto =
     rbind (ok_or InvalidLoadBalance (plb_algorithm dto)) (\<lambda>algorithm.
       case algorithm of
         PRoundRobin _ \<Rightarrow> Inr RoundRobin
       | PLeastConn _ \<Rightarrow> Inr LeastConn
       | PEwma _ \<Rightarrow> Inr Ewma
       | PHash src \<Rightarrow> rmap Hash (hash_source_from_wire env src))"

definition session_affinity_from_wire ::
  "('b, 'net) wire_env \<Rightarrow> p_session_affinity \<Rightarrow> session_affinity wire_result" where
  "session_affinity_from_wire env dto =
     rbind (ok_or (MissingRequiredField ''session_affinity.mode'') (psa_mode dto)) (\<lambda>mode.
       case mode of
         PCookieName name \<Rightarrow> Inr (CookieAffinity name)
       | PAffinityHeader name \<Rightarrow> rmap HeaderAffinity (header_name_from_wire env name))"

section \<open>Filters\<close>

definition header_mod_from_wire :: "('b, 'net) wire_env \<Rightarrow> p_header_mod \<Rightarrow> header_mod wire_result" where
  "header_mod_from_wire env dto =
     (case header_mod_parse (we_header_name env) (we_header_value env) (phm_add dto) (phm_set dto)
             (phm_remove dto) of
        Inl (InvalidName n) \<Rightarrow> Inl WireInvalidHeaderName
      | Inl (InvalidValue v) \<Rightarrow> Inl WireInvalidHeaderValue
      | Inr hm \<Rightarrow> Inr hm)"

definition cors_origin_from_wire :: "string \<Rightarrow> cors_origin" where
  "cors_origin_from_wire origin =
     (case find_char (CHR ''*'') origin of
        Some star_pos \<Rightarrow>
          WildcardOrigin (to_ascii_lowercase (take star_pos origin))
            (to_ascii_lowercase (drop (star_pos + 1) origin))
      | None \<Rightarrow> ExactOrigin (to_ascii_lowercase origin))"

definition parse_header_opt :: "('b, 'net) wire_env \<Rightarrow> string option \<Rightarrow> string option wire_result" where
  "parse_header_opt env s =
     (case s of
        None \<Rightarrow> Inr None
      | Some val \<Rightarrow>
          if val = [] then Inr None
          else rmap Some (ok_or WireInvalidHeaderValue (we_header_value env val)))"

definition cors_config_from_wire :: "('b, 'net) wire_env \<Rightarrow> p_cors_filter \<Rightarrow> cors_config wire_result" where
  "cors_config_from_wire env dto =
     rbind (parse_header_opt env (pcf_allow_methods dto)) (\<lambda>methods.
     rbind (parse_header_opt env (pcf_allow_headers dto)) (\<lambda>headers.
     rbind (parse_header_opt env (pcf_expose_headers dto)) (\<lambda>expose.
     Inr \<lparr>allow_origins = map cors_origin_from_wire (pcf_allow_origins dto),
          allow_all_origins = pcf_allow_all_origins dto, allow_credentials = pcf_allow_credentials dto,
          allow_methods = methods, allow_headers = headers, expose_headers = expose,
          max_age = we_header_value_int env (pcf_max_age dto)\<rparr>)))"

definition path_modifier_from_wire :: "('b, 'net) wire_env \<Rightarrow> p_path_modifier \<Rightarrow> path_modifier wire_result" where
  "path_modifier_from_wire env dto =
     rbind (ok_or (MissingRequiredField ''path_modifier.modifier'') (ppm_modifier dto)) (\<lambda>modifier.
       case modifier of
         PReplaceFullPath p \<Rightarrow> Inr (ReplaceFullPath p)
       | PReplacePrefix prefix replacement \<Rightarrow> Inr (ReplacePrefixMatch prefix replacement)
       | PRegexReplace pat replacement \<Rightarrow>
           (if we_regex_ok env pat then Inr (RegexReplace pat replacement) else Inl InvalidRegex))"

definition redirect_from_wire ::
  "('b, 'net) wire_env \<Rightarrow> p_request_redirect \<Rightarrow> 'b filter_action wire_result" where
  "redirect_from_wire env rd =
     rbind (opt_traverse (\<lambda>p. narrow_u16 p ''request_redirect.port'') (prd_port rd)) (\<lambda>port.
     rbind (narrow_u16 (prd_status_code rd) ''request_redirect.status_code'') (\<lambda>status_code.
     rbind (opt_traverse (path_modifier_from_wire env) (prd_path rd)) (\<lambda>path.
     Inr (RequestRedirect (prd_scheme rd) (prd_hostname rd) port status_code path))))"

definition url_rewrite_from_wire ::
  "('b, 'net) wire_env \<Rightarrow> p_url_rewrite \<Rightarrow> 'b filter_action wire_result" where
  "url_rewrite_from_wire env uw =
     rbind (opt_traverse (path_modifier_from_wire env) (puw_path uw)) (\<lambda>path.
     Inr (UrlRewrite (puw_hostname uw) path))"

section \<open>Backend groups\<close>

record 'b materialized_group =
  mg_group :: "'b filter_action backend_group"
  mg_empty_status :: "u16 option"

text \<open>
  One round of the resolution loop: the addresses and weight of a weighted backend, whether it
  is a reference, and whether it is a reference to an existing Service without endpoints.
\<close>

record resolved_backend =
  rb_addrs :: "socket_addr list"
  rb_weight :: u16
  rb_keyed :: bool
  rb_valid_empty :: bool

definition resolve_ref :: "endpoint_pool \<Rightarrow> p_endpoint_ref \<Rightarrow> resolved_endpoints wire_result" where
  "resolve_ref pool r =
     rbind (ok_or (UnknownEndpointRef (pr_namespace r) (pr_service r) (pr_port r)) (u16_try_from (pr_port r)))
       (\<lambda>port. ok_or (UnknownEndpointRef (pr_namespace r) (pr_service r) (ucast port))
          (map_of pool (endpoint_key_from_wire (pr_namespace r) (pr_service r) (ucast port))))"

definition resolve_weighted :: "endpoint_pool \<Rightarrow> p_weighted_backend \<Rightarrow> resolved_backend wire_result" where
  "resolve_weighted pool wb =
     rbind (narrow_u16 (pwb_weight wb) ''weighted_backend.weight'') (\<lambda>weight.
       case pwb_endpoint_ref wb of
         Some r \<Rightarrow>
           rbind (resolve_ref pool r) (\<lambda>ep.
           Inr \<lparr>rb_addrs = re_addrs ep, rb_weight = weight, rb_keyed = True,
                rb_valid_empty = (weight > 0 \<and> re_service_exists ep \<and> re_addrs ep = [])\<rparr>)
       | None \<Rightarrow>
           rbind (traverse addr_from_wire (pwb_addrs wb)) (\<lambda>addrs.
           Inr \<lparr>rb_addrs = addrs, rb_weight = weight, rb_keyed = False, rb_valid_empty = False\<rparr>))"

definition surviving :: "resolved_backend list \<Rightarrow> nat list" where
  "surviving resolved =
     filter (\<lambda>i. rb_weight (resolved ! i) > 0 \<and> rb_addrs (resolved ! i) \<noteq> []) [0..<length resolved]"

definition empty_status_of :: "resolved_backend list \<Rightarrow> u16 option" where
  "empty_status_of resolved =
     (if list_ex rb_keyed resolved \<and> surviving resolved = []
      then Some (empty_group_status (list_ex rb_valid_empty resolved)) else None)"

definition filter_slots :: "(nat \<times> 'f list) list \<Rightarrow> nat list \<Rightarrow> 'f list list" where
  "filter_slots decoded alive =
     map (\<lambda>orig. case map_of (rev decoded) orig of Some fs \<Rightarrow> fs | None \<Rightarrow> []) alive"

definition assemble_group ::
  "('b, 'net) wire_env \<Rightarrow> p_backend_group \<Rightarrow> resolved_backend list \<Rightarrow> 'b filter_action list list option
     \<Rightarrow> 'b materialized_group wire_result" where
  "assemble_group env dto resolved per_backend_filters =
     rbind (protocol_from_wire (pbg_protocol dto)) (\<lambda>protocol.
     rbind (opt_traverse upstream_tls_from_wire (pbg_tls dto)) (\<lambda>tls.
     rbind (ok_or Panicked (weighted (pbg_name dto)
              (map (\<lambda>i. (rb_addrs (resolved ! i), rb_weight (resolved ! i))) (surviving resolved)))) (\<lambda>bg.
     let bg = with_protocol protocol bg;
         bg = (case tls of Some t \<Rightarrow> with_tls t bg | None \<Rightarrow> bg);
         bg = with_retries (case pbg_retry dto of Some r \<Rightarrow> retry_from_wire r | None \<Rightarrow> retry_policy_default) bg;
         bg = (case pbg_keepalive_millis dto of
                 Some ms \<Rightarrow> with_keepalive_timeout (Some (unat ms * 10 ^ 6)) bg | None \<Rightarrow> bg);
         bg = (case pbg_connect_millis dto of
                 Some ms \<Rightarrow> with_connect_timeout (Some (unat ms * 10 ^ 6)) bg | None \<Rightarrow> bg);
         bg = (case per_backend_filters of Some pbf \<Rightarrow> with_per_backend_filters pbf bg | None \<Rightarrow> bg)
     in rbind (rbind (ok_or InvalidLoadBalance (pbg_load_balance dto)) (load_balance_from_wire env)) (\<lambda>lb.
        rbind (opt_traverse (session_affinity_from_wire env) (pbg_session_affinity dto)) (\<lambda>sa.
        let bg = with_load_balance lb bg;
            bg = (case sa of Some a \<Rightarrow> with_session_affinity (Some a) bg | None \<Rightarrow> bg)
        in Inr \<lparr>mg_group = bg, mg_empty_status = empty_status_of resolved\<rparr>)))))"

function bg_from_wire ::
  "('b, 'net) wire_env \<Rightarrow> p_backend_group \<Rightarrow> endpoint_pool \<Rightarrow> nat \<Rightarrow> 'b materialized_group wire_result"
and filter_from_wire ::
  "('b, 'net) wire_env \<Rightarrow> p_filter_action \<Rightarrow> nat \<Rightarrow> endpoint_pool \<Rightarrow> 'b filter_action wire_result" where
  "bg_from_wire env dto pool depth =
     (if depth > MAX_MIRROR_DEPTH then Inl (MirrorTooDeep MAX_MIRROR_DEPTH)
      else
        rbind (traverse (resolve_weighted pool) (pbg_weighted dto)) (\<lambda>resolved.
        rbind (if pbg_per_backend_filters dto = [] then Inr None
               else rbind (traverse (\<lambda>(idx, fs).
                        rbind (traverse (\<lambda>f. filter_from_wire env f (depth + 1) pool) fs) (\<lambda>filters.
                        Inr (unat idx, filters))) (pbg_per_backend_filters dto)) (\<lambda>by_orig.
                    Inr (Some (filter_slots by_orig (surviving resolved))))) (\<lambda>per_backend_filters.
        assemble_group env dto resolved per_backend_filters)))"
| "filter_from_wire env dto depth pool =
     (if depth > MAX_MIRROR_DEPTH then Inl (MirrorTooDeep MAX_MIRROR_DEPTH)
      else
        rbind (ok_or (MissingRequiredField ''filter_action.action'') (pfa_action dto)) (\<lambda>action.
          case action of
            PRequestHeaderModifier hm \<Rightarrow> rmap RequestHeaderModifier (header_mod_from_wire env hm)
          | PResponseHeaderModifier hm \<Rightarrow> rmap ResponseHeaderModifier (header_mod_from_wire env hm)
          | PRequestRedirect rd \<Rightarrow> redirect_from_wire env rd
          | PUrlRewrite uw \<Rightarrow> url_rewrite_from_wire env uw
          | PMirror backend fraction \<Rightarrow>
              rbind (ok_or (MissingRequiredField ''MirrorFilter.backend'') backend) (\<lambda>bg_dto.
              rbind (bg_from_wire env bg_dto pool (depth + 1)) (\<lambda>m.
              Inr (Mirror (we_arc_group env (mg_group m))
                (case fraction of
                   Some f \<Rightarrow> mirror_fraction_new (pmf_numerator f) (pmf_denominator f) | None \<Rightarrow> None))))
          | PCors cors \<Rightarrow> rmap Cors (cors_config_from_wire env cors)))"
  by pat_completeness auto
termination
  by (relation "measure (\<lambda>x. case x of Inl (_, _, _, d) \<Rightarrow> MAX_MIRROR_DEPTH + 1 - d
                                       | Inr (_, _, d, _) \<Rightarrow> MAX_MIRROR_DEPTH + 1 - d)") auto

declare bg_from_wire.simps [simp del] filter_from_wire.simps [simp del]

section \<open>Predicates\<close>

definition value_match_from_wire :: "('b, 'net) wire_env \<Rightarrow> p_value_match \<Rightarrow> value_match wire_result" where
  "value_match_from_wire env dto =
     rbind (ok_or (MissingRequiredField ''value_match.value'') (pvm_value dto)) (\<lambda>v.
       case v of
         PExactValue x \<Rightarrow> Inr (ExactValue x)
       | PRegexValue pat \<Rightarrow> if we_regex_ok env pat then Inr (RegexValue pat) else Inl InvalidRegex)"

definition header_predicate_from_wire ::
  "('b, 'net) wire_env \<Rightarrow> p_predicate \<Rightarrow> header_predicate wire_result" where
  "header_predicate_from_wire env hp =
     rbind (header_name_from_wire env (pp_name hp)) (\<lambda>name.
     rbind (rbind (ok_or (MissingRequiredField ''header_predicate.matcher'') (pp_matcher hp))
              (value_match_from_wire env)) (\<lambda>matcher.
     Inr \<lparr>hp_name = name, hp_matcher = matcher\<rparr>))"

definition query_predicate_from_wire ::
  "('b, 'net) wire_env \<Rightarrow> p_predicate \<Rightarrow> query_predicate wire_result" where
  "query_predicate_from_wire env qp =
     rbind (rbind (ok_or (MissingRequiredField ''query_predicate.matcher'') (pp_matcher qp))
              (value_match_from_wire env)) (\<lambda>matcher.
     Inr \<lparr>qp_name = pp_name qp, qp_matcher = matcher\<rparr>)"

definition predicates_from_wire :: "('b, 'net) wire_env \<Rightarrow> p_match_predicates \<Rightarrow> match_predicates wire_result" where
  "predicates_from_wire env dto =
     rbind (opt_traverse (\<lambda>m. ok_or InvalidMethod (we_method env m)) (pmp_method dto)) (\<lambda>meth.
     rbind (traverse (header_predicate_from_wire env) (pmp_headers dto)) (\<lambda>headers.
     rbind (traverse (query_predicate_from_wire env) (pmp_query dto)) (\<lambda>query.
     Inr \<lparr>mp_method = meth, mp_headers = headers, mp_query = query\<rparr>)))"

section \<open>Per-route configuration\<close>

definition rate_limit_from_wire :: "p_rate_limit_config \<Rightarrow> rate_limit_config wire_result" where
  "rate_limit_from_wire dto =
     (if prl_requests_per_second dto = 0 then Inl ZeroRps
      else rbind (ok_or (MissingRequiredField ''rate_limit.key'') (prl_key dto)) (\<lambda>k.
           rbind (ok_or (MissingRequiredField ''rate_limit_key.dimension'') (prk_dimension k)) (\<lambda>dimension.
           Inr \<lparr>rl_requests_per_second = prl_requests_per_second dto, rl_burst = prl_burst dto,
                rl_key = (case dimension of PClientIp _ \<Rightarrow> ClientIp | PRateHeader name \<Rightarrow> HeaderKey name)\<rparr>)))"

definition basic_cred_from_wire :: "p_basic_cred \<Rightarrow> basic_credential wire_result" where
  "basic_cred_from_wire c =
     rbind (if pbc_hash_kind c = 1 then Inr (Bcrypt (pbc_hash c))
            else if pbc_hash_kind c = 2 then Inr (Sha1 (pbc_hash c))
            else Inl (InvalidEnumValue (pbc_hash_kind c) ''basic_cred.hash_kind'')) (\<lambda>hash.
     Inr \<lparr>bc_username = pbc_username c, bc_hash = hash\<rparr>)"

definition ext_auth_from_wire :: "p_ext_auth_config \<Rightarrow> ingress_auth_config wire_result" where
  "ext_auth_from_wire ext =
     rbind (traverse addr_from_wire (pea_endpoints ext)) (\<lambda>endpoints.
     let transport =
           (case pea_grpc ext of
              Some g \<Rightarrow>
                Some (GrpcTransport
                  \<lparr>ga_allowed_headers = resolve_allowed_headers (pga_allowed_headers g) DEFAULT_ALLOWED_HEADERS_GRPC,
                   ga_response_headers = pga_response_headers g\<rparr>)
            | None \<Rightarrow>
                (case pea_http ext of
                   Some h \<Rightarrow>
                     Some (HttpTransport
                       \<lparr>ha_allowed_headers = resolve_allowed_headers (pha_allowed_headers h) DEFAULT_ALLOWED_HEADERS_HTTP,
                        ha_response_headers = pha_response_headers h,
                        ha_always_set_cookie = pha_always_set_cookie h\<rparr>)
                 | None \<Rightarrow> None))
     in case transport of
          None \<Rightarrow> Inr Unavailable
        | Some t \<Rightarrow>
            rbind (case pea_timeout ext of None \<Rightarrow> Inr 0 | Some d \<Rightarrow> duration_from_wire d) (\<lambda>timeout.
            Inr (External \<lparr>ea_timeout = timeout, ea_endpoints = endpoints,
                   ea_fail_closed = pea_fail_closed ext, ea_transport = t\<rparr>)))"

definition auth_from_wire :: "p_ingress_auth_config \<Rightarrow> ingress_auth_config wire_result" where
  "auth_from_wire dto =
     rbind (ok_or (MissingRequiredField ''ingress_auth_config.auth'') (pia_auth dto)) (\<lambda>auth.
       case auth of
         PExternal ext \<Rightarrow> ext_auth_from_wire ext
       | PBasic creds \<Rightarrow> rmap Basic (traverse basic_cred_from_wire creds)
       | PJwt jwt \<Rightarrow>
           (if pj_jwks jwt = [] then Inr Unavailable
            else Inr (Jwt
              \<lparr>jwt_issuer = pj_issuer jwt, jwt_audiences = pj_audiences jwt, jwt_jwks = pj_jwks jwt,
               jwt_from_headers = map (\<lambda>(n, v). \<lparr>jh_name = n, jh_value_prefix = v\<rparr>) (pj_from_headers jwt),
               jwt_forward_payload_header = pj_forward_payload_header jwt,
               jwt_claim_to_headers = pj_claim_to_headers jwt, jwt_forward_token = pj_forward_token jwt\<rparr>))
       | PUnavailable _ \<Rightarrow> Inr Unavailable)"

definition compression_from_wire :: "p_compression_config \<Rightarrow> compression_config" where
  "compression_from_wire dto =
     \<lparr>cc_gzip = pcc_gzip dto, cc_brotli = pcc_brotli dto, cc_level = pcc_level dto,
      cc_min_size = pcc_min_size dto, cc_types = pcc_types dto\<rparr>"

definition cidr_from_wire :: "('b, 'net) wire_env \<Rightarrow> string \<Rightarrow> 'net wire_result" where
  "cidr_from_wire env s = ok_or InvalidCidr (we_net env s)"

definition forwarded_for_from_wire ::
  "('b, 'net) wire_env \<Rightarrow> p_forwarded_for_config \<Rightarrow> 'net forwarded_for_config wire_result" where
  "forwarded_for_from_wire env dto =
     rbind (traverse (cidr_from_wire env) (pff_trusted_cidrs dto)) (\<lambda>nets.
     Inr \<lparr>ff_header = pff_header dto, ff_trusted_cidrs = nets\<rparr>)"

definition circuit_breaker_from_wire :: "p_circuit_breaker_config \<Rightarrow> circuit_breaker_config wire_result" where
  "circuit_breaker_from_wire dto =
     rbind (case pcb_window dto of None \<Rightarrow> Inr 0 | Some d \<Rightarrow> duration_from_wire d) (\<lambda>window.
     rbind (case pcb_open_duration dto of None \<Rightarrow> Inr 0 | Some d \<Rightarrow> duration_from_wire d) (\<lambda>open_duration.
     rbind (opt_traverse duration_from_wire (pcb_max_open_duration dto)) (\<lambda>max_open_duration.
     Inr \<lparr>cb_threshold_pct = ucast (pcb_threshold_pct dto), cb_min_requests = pcb_min_requests dto,
          cb_window = window, cb_open_duration = open_duration, cb_max_open_duration = max_open_duration\<rparr>)))"

section \<open>Routes\<close>

text \<open>The base entry with its backends, predicates, filters, identity and status.\<close>

definition build_base_entry ::
  "('b, 'net) wire_env \<Rightarrow> p_route_entry \<Rightarrow> endpoint_pool \<Rightarrow> ('b, 'net) route_entry wire_result" where
  "build_base_entry env dto pool =
     rbind (ok_or (MissingRequiredField ''route_entry.backend_group'') (pre_backend_group dto)) (\<lambda>bg_dto.
     rbind (bg_from_wire env bg_dto pool 0) (\<lambda>materialized.
     rbind (rmap (\<lambda>p. case p of Some x \<Rightarrow> x | None \<Rightarrow> match_predicates_default)
              (opt_traverse (predicates_from_wire env) (pre_predicates dto))) (\<lambda>predicates.
     rbind (traverse (\<lambda>f. filter_from_wire env f 0 pool) (pre_filters dto)) (\<lambda>filters.
     rbind (rmap (\<lambda>t. case t of Some x \<Rightarrow> x | None \<Rightarrow> route_timeouts_default)
              (opt_traverse timeouts_from_wire (pre_timeouts dto))) (\<lambda>timeouts.
     let created_at = map_option (\<lambda>ms. uint ms * 10 ^ 6) (pre_created_at_unix_millis dto);
         entry = with_filters (mg_group materialized) predicates filters timeouts (pre_route_id dto) created_at;
         entry = with_metric_route_id (pre_metric_route_id dto) entry;
         entry = with_path_pattern (pre_path_pattern dto) entry
     in rbind (opt_traverse (\<lambda>x. narrow_u16 x ''route_entry.error_status'') (pre_error_status dto)) (\<lambda>error_status.
        Inr (with_error_status
               (case error_status of Some e \<Rightarrow> Some e | None \<Rightarrow> mg_empty_status materialized) entry)))))))"

definition build_route_entry ::
  "('b, 'net) wire_env \<Rightarrow> p_route_entry \<Rightarrow> endpoint_pool \<Rightarrow> ('b, 'net) route_entry wire_result" where
  "build_route_entry env dto pool =
     rbind (build_base_entry env dto pool) (\<lambda>entry.
     let entry = (case pre_max_body_size dto of Some m \<Rightarrow> with_max_body_size (Some m) entry | None \<Rightarrow> entry)
     in rbind (if pre_allow_source_range dto = [] then Inr entry
               else rmap (\<lambda>nets. with_allow_source_range (Some nets) entry)
                      (traverse (cidr_from_wire env) (pre_allow_source_range dto))) (\<lambda>entry.
        rbind (if pre_deny_source_range dto = [] then Inr entry
               else rmap (\<lambda>nets. with_deny_source_range (Some nets) entry)
                      (traverse (cidr_from_wire env) (pre_deny_source_range dto))) (\<lambda>entry.
        let entry = (case pre_access_log_enabled dto of
                       Some enabled \<Rightarrow> with_access_log_enabled (Some enabled) entry | None \<Rightarrow> entry)
        in rbind (case pre_rate_limit dto of
                    None \<Rightarrow> Inr entry
                  | Some rl \<Rightarrow> rmap (\<lambda>c. with_rate_limit (Some c) entry) (rate_limit_from_wire rl)) (\<lambda>entry.
           rbind (if pre_auth dto = [] then Inr entry
                  else rmap (\<lambda>chain. with_auth_chain chain entry) (traverse auth_from_wire (pre_auth dto))) (\<lambda>entry.
           let entry = (case pre_compression dto of
                          Some c \<Rightarrow> with_compression (Some (compression_from_wire c)) entry | None \<Rightarrow> entry)
           in rbind (case pre_forwarded_for dto of
                       None \<Rightarrow> Inr entry
                     | Some ff \<Rightarrow> rmap (\<lambda>c. with_forwarded_for (Some c) entry) (forwarded_for_from_wire env ff)) (\<lambda>entry.
              case pre_circuit_breaker dto of
                None \<Rightarrow> Inr entry
              | Some cb \<Rightarrow> rmap (\<lambda>c. with_circuit_breaker (Some c) entry) (circuit_breaker_from_wire cb)))))))"

definition route_entry_from_wire ::
  "('b, 'net) wire_env \<Rightarrow> endpoint_pool \<Rightarrow> p_route_entry
     \<Rightarrow> (route_kind \<times> string \<times> ('b, 'net) route_entry) wire_result" where
  "route_entry_from_wire env pool dto =
     rbind (route_kind_from_wire (pre_kind dto)) (\<lambda>kind.
     rbind (build_route_entry env dto pool) (\<lambda>entry.
     Inr (kind, pre_path dto, entry)))"

fun add_decoded_route ::
  "('b, 'net) host_router_builder \<Rightarrow> route_kind \<times> string \<times> ('b, 'net) route_entry
     \<Rightarrow> ('b, 'net) host_router_builder" where
  "add_decoded_route hb (ExactKind, path, entry) = add_exact_route path entry hb"
| "add_decoded_route hb (PrefixKind, path, entry) = add_prefix_route path entry hb"
| "add_decoded_route hb (RegexKind, path, entry) = add_regex_route path entry hb"

text \<open>
  The changes \<open>host_entry_from_wire\<close> makes to the host builder it selects; an error discards the
  whole table builder, so the routes are decoded before the first one is added.
\<close>

definition host_routes_from_wire ::
  "('b, 'net) wire_env \<Rightarrow> normalize_level \<Rightarrow> p_host_entry \<Rightarrow> endpoint_pool \<Rightarrow> ('b, 'net) host_update wire_result" where
  "host_routes_from_wire env level he pool =
     rbind (traverse (route_entry_from_wire env pool) (phe_routes he)) (\<lambda>routes.
     Inr (\<lambda>hb. foldl add_decoded_route (set_path_normalize level hb) routes))"

definition host_entry_from_wire ::
  "('b, 'net) wire_env \<Rightarrow> p_host_entry \<Rightarrow> ('r, 'b, 'net) port_table_builder \<Rightarrow> endpoint_pool
     \<Rightarrow> ('r, 'b, 'net) port_table_builder wire_result" where
  "host_entry_from_wire env he port_builder pool =
     rbind (normalize_level_from_wire (phe_normalize_level he)) (\<lambda>level.
     rbind (ok_or (MissingRequiredField ''host_entry.pattern'') (phe_pattern he)) (\<lambda>pat.
       case pat of
         PExactHost hostname \<Rightarrow>
           rbind (host_routes_from_wire env level he pool) (\<lambda>f. Inr (exact_host hostname f port_builder))
       | PWildcardHost suffix k \<Rightarrow>
           rbind (wildcard_kind_from_wire k) (\<lambda>kind.
           rbind (host_routes_from_wire env level he pool) (\<lambda>f.
           Inr (wildcard_host (''*.'' @ suffix) kind f port_builder)))
       | PCatchall _ \<Rightarrow>
           rbind (host_routes_from_wire env level he pool) (\<lambda>f. Inr (catchall_host f port_builder))))"

definition port_from_wire ::
  "('b, 'net) wire_env \<Rightarrow> endpoint_pool \<Rightarrow> ('r, 'b, 'net) routing_table_builder \<Rightarrow> u16 \<times> p_host_entry list
     \<Rightarrow> ('r, 'b, 'net) routing_table_builder wire_result" where
  "port_from_wire env pool builder entry =
     (case entry of
        (port, hosts) \<Rightarrow>
          rbind (fold_result (\<lambda>pb he. host_entry_from_wire env he pb pool)
                   (case map_of (tb_by_port builder) port of
                      Some pb \<Rightarrow> pb | None \<Rightarrow> port_table_builder_default) hosts) (\<lambda>pb.
          Inr (for_port port (\<lambda>_. pb) builder)))"

definition build_error :: "router_error \<Rightarrow> wire_error" where
  "build_error e = (case e of RegexError \<Rightarrow> InvalidRegex | MatchitInsert \<Rightarrow> InvalidMatchitPath)"

definition build_route_table ::
  "('b, 'net) wire_env \<Rightarrow> ('r, ('b, 'net) route_entry list) matchit \<Rightarrow> (u16 \<times> p_host_entry list) list
     \<Rightarrow> endpoint_pool \<Rightarrow> ('r, 'b, 'net) routing_table wire_result" where
  "build_route_table env mt hosts_by_port pool =
     rbind (fold_result (port_from_wire env pool) routing_table_builder_new hosts_by_port) (\<lambda>builder.
     case table_build mt (we_path_regex_ok env) builder of
       Inl e \<Rightarrow> Inl (build_error e)
     | Inr t \<Rightarrow> Inr t)"

section \<open>Layer-4 tables\<close>

type_synonym 'b l4_group = "'b filter_action backend_group"

definition sni_pattern_string :: "p_sni_pattern \<Rightarrow> string" where
  "sni_pattern_string pat =
     (case pat of PExactSni s \<Rightarrow> s | PWildcardSuffix s \<Rightarrow> ''*.'' @ s | PCatchallSni _ \<Rightarrow> [])"

definition passthrough_entry_from_wire ::
  "('b, 'net) wire_env \<Rightarrow> endpoint_pool \<Rightarrow> u16 \<Rightarrow> 'b l4_group tls_passthrough_builder
     \<Rightarrow> p_tls_passthrough_entry \<Rightarrow> 'b l4_group tls_passthrough_builder wire_result" where
  "passthrough_entry_from_wire env pool port builder entry =
     (case ppe_backend_group entry of
        None \<Rightarrow> Inr builder
      | Some dto \<Rightarrow>
          rbind (bg_from_wire env dto pool 0) (\<lambda>m.
          case ppe_pattern entry of
            None \<Rightarrow> Inr builder
          | Some pat \<Rightarrow> Inr (passthrough_add_route port (sni_pattern_string pat) (mg_group m) builder)))"

definition passthrough_from_wire ::
  "('b, 'net) wire_env \<Rightarrow> endpoint_pool \<Rightarrow> p_tls_passthrough_port list
     \<Rightarrow> 'b l4_group tls_passthrough_table wire_result" where
  "passthrough_from_wire env pool ports =
     rbind (fold_result (\<lambda>builder pe.
              rbind (narrow_u16 (ppt_port pe) ''tls_passthrough_table.ports.port'') (\<lambda>port.
              fold_result (passthrough_entry_from_wire env pool port) builder (ppt_entries pe))) [] ports)
       (\<lambda>builder. Inr (passthrough_build builder))"

definition l4_port_from_wire ::
  "('b, 'net) wire_env \<Rightarrow> endpoint_pool \<Rightarrow> string \<Rightarrow> (u16 \<Rightarrow> 'b l4_group \<Rightarrow> 't \<Rightarrow> 't) \<Rightarrow> 't \<Rightarrow> p_l4_port
     \<Rightarrow> 't wire_result" where
  "l4_port_from_wire env pool field add builder pe =
     rbind (narrow_u16 (pl4_port pe) field) (\<lambda>port.
     case pl4_backend_group pe of
       None \<Rightarrow> Inr builder
     | Some dto \<Rightarrow> rbind (bg_from_wire env dto pool 0) (\<lambda>m. Inr (add port (mg_group m) builder)))"

definition tcp_table_from_wire ::
  "('b, 'net) wire_env \<Rightarrow> endpoint_pool \<Rightarrow> p_l4_port list \<Rightarrow> 'b l4_group tcp_route_table wire_result" where
  "tcp_table_from_wire env pool ports =
     fold_result (l4_port_from_wire env pool ''tcp_route_table.ports.port'' tcp_add_route) [] ports"

definition udp_table_from_wire ::
  "('b, 'net) wire_env \<Rightarrow> endpoint_pool \<Rightarrow> p_l4_port list \<Rightarrow> 'b l4_group udp_route_table wire_result" where
  "udp_table_from_wire env pool ports =
     fold_result (l4_port_from_wire env pool ''udp_route_table.ports.port'' udp_add_route) [] ports"

end
