(* ===== verification/Wire_Tls.thy ===== *)
theory Wire_Tls
  imports Wire_Decode Tls_Store Listener_Status
begin

text \<open>
  The wire forms of TLS material and listener status
  (\<open>crates/coxswain-discovery/src/wire/tls.rs\<close>, \<open>wire/listener_status.rs\<close>, and
  \<open>listener_info_from_wire\<close> of \<open>wire/scope.rs\<close>): decoding into the stores of the data plane, and
  the encoders of the controller.
\<close>

section \<open>Server certificates\<close>

definition key_algorithm_to_wire :: "key_algorithm \<Rightarrow> enum_value" where
  "key_algorithm_to_wire a = (case a of Rsa \<Rightarrow> 1 | Ecdsa \<Rightarrow> 2 | OtherAlgorithm \<Rightarrow> 3)"

text \<open>\<open>duration_since\<close> fails before the epoch; whole seconds only travel.\<close>

definition tls_cert_to_wire :: "tls_cert \<Rightarrow> p_tls_cert" where
  "tls_cert_to_wire c =
     \<lparr>ptc_source = tc_source c, ptc_cert_pem = tc_cert_pem c, ptc_key_pem = tc_key_pem c,
      ptc_not_after_unix_secs =
        (case tc_not_after c of
           None \<Rightarrow> None | Some t \<Rightarrow> if t < 0 then None else Some (word_of_int (t div 10 ^ 9))),
      ptc_key_algorithm = key_algorithm_to_wire (tc_key_algorithm c)\<rparr>"

definition tls_to_wire :: "tls_store \<Rightarrow> p_tls_store" where
  "tls_to_wire s =
     \<lparr>pts_default_certs = map tls_cert_to_wire (ts_default s),
      pts_exact = map (\<lambda>(h, certs). \<lparr>pce_host_pattern = h, pce_certs = map tls_cert_to_wire certs\<rparr>)
                    (sort_key fst (ts_exact s)),
      pts_wildcard = map (\<lambda>(h, certs). \<lparr>pce_host_pattern = h, pce_certs = map tls_cert_to_wire certs\<rparr>)
                       (sort_key fst (ts_wildcard s))\<rparr>"

definition port_tls_to_wire :: "port_tls_store \<Rightarrow> p_port_tls_entry list" where
  "port_tls_to_wire s =
     map (\<lambda>(port, t). \<lparr>ppt_tls_port = ucast port, ppt_store = Some (tls_to_wire t)\<rparr>) (sort_key fst s)"

definition plain_resource :: "p_payload \<Rightarrow> p_resource" where
  "plain_resource payload = \<lparr>prs_payload = Some payload, prs_qualifier_namespace = [], prs_qualifier_name = []\<rparr>"

definition port_tls_resources :: "port_tls_store \<Rightarrow> p_resource list" where
  "port_tls_resources s =
     map (\<lambda>(port, t). plain_resource (PTlsPort \<lparr>ppt_tls_port = ucast port, ppt_store = Some (tls_to_wire t)\<rparr>)) s"

text \<open>Adding the duration to the epoch panics when the sum leaves the range of \<open>SystemTime\<close>.\<close>

definition cert_from_wire :: "p_tls_cert \<Rightarrow> tls_cert wire_result" where
  "cert_from_wire dto =
     rbind (opt_traverse (\<lambda>s. if uint s < 2 ^ 63 then Inr (uint s * 10 ^ 9) else Inl Panicked)
              (ptc_not_after_unix_secs dto)) (\<lambda>not_after.
     let algorithm = (if ptc_key_algorithm dto = 1 then Rsa
                      else if ptc_key_algorithm dto = 2 then Ecdsa else OtherAlgorithm)
     in Inr (with_key_algorithm algorithm
               (with_not_after not_after
                  (tls_cert_new (ptc_cert_pem dto) (ptc_key_pem dto) (ptc_source dto)))))"

definition add_wire_certs ::
  "string \<Rightarrow> tls_store_builder \<Rightarrow> p_tls_cert list \<Rightarrow> tls_store_builder wire_result" where
  "add_wire_certs host_pattern b certs =
     fold_result (\<lambda>b dto. rbind (cert_from_wire dto) (\<lambda>c. Inr (add_cert host_pattern c b))) b certs"

definition tls_from_wire :: "p_tls_store \<Rightarrow> tls_store wire_result" where
  "tls_from_wire dto =
     rbind (fold_result (\<lambda>b e. add_wire_certs (pce_host_pattern e) b (pce_certs e))
              tls_store_builder_new (pts_exact dto)) (\<lambda>b.
     rbind (fold_result (\<lambda>b e. add_wire_certs (''*.'' @ pce_host_pattern e) b (pce_certs e))
              b (pts_wildcard dto)) (\<lambda>b.
     rbind (add_wire_certs [] b (pts_default_certs dto)) (\<lambda>b.
     Inr (tls_store_build b))))"

definition port_tls_entry_from_wire :: "p_port_tls_entry \<Rightarrow> (u16 \<times> tls_store) wire_result" where
  "port_tls_entry_from_wire e =
     rbind (ok_or (MissingRequiredField ''port_tls_entry.store'') (ppt_store e)) (\<lambda>dto.
     rbind (narrow_u16 (ppt_tls_port e) ''port_tls_entry.port'') (\<lambda>port.
     rbind (tls_from_wire dto) (\<lambda>s. Inr (port, s))))"

definition port_tls_from_wire :: "p_port_tls_entry list \<Rightarrow> port_tls_store wire_result" where
  "port_tls_from_wire ports =
     rbind (traverse port_tls_entry_from_wire ports) (\<lambda>stores. Inr (from_port_stores stores))"

section \<open>Client certificates\<close>

definition client_cert_state_to_wire :: "client_cert_config_state \<Rightarrow> p_client_cert_kind option" where
  "client_cert_state_to_wire s =
     (case s of
        ClientCertConfig cfg \<Rightarrow>
          Some (PClientCertConfig \<lparr>pcl_ca_pem = ccc_ca_pem cfg, pcl_verify_depth = ccc_verify_depth cfg,
                  pcl_pass_to_upstream = ccc_pass_to_upstream cfg,
                  pcl_allow_insecure_fallback = ccc_allow_insecure_fallback cfg\<rparr>)
      | ClientCertUnavailable \<Rightarrow> Some (PClientCertUnavailable True))"

definition client_cert_port_entries :: "u16 \<Rightarrow> host_client_cert_configs \<Rightarrow> p_client_cert_entry list" where
  "client_cert_port_entries port configs =
     map (\<lambda>(p, s). \<lparr>pcl_host_pattern = p, pcl_state = Some (client_cert_state_to_wire s), pcl_entry_port = ucast port\<rparr>)
       (sort_key fst (hcc_exact configs @ map (\<lambda>(suffix, s). (''*.'' @ suffix, s)) (hcc_wildcard configs))) @
     (case hcc_default configs of
        Some s \<Rightarrow> [\<lparr>pcl_host_pattern = [], pcl_state = Some (client_cert_state_to_wire s), pcl_entry_port = ucast port\<rparr>]
      | None \<Rightarrow> [])"

definition client_cert_to_wire :: "client_cert_store \<Rightarrow> p_client_cert_entry list" where
  "client_cert_to_wire s = concat (map (\<lambda>(port, configs). client_cert_port_entries port configs) (sort_key fst s))"

definition client_cert_resources :: "client_cert_store \<Rightarrow> p_resource list" where
  "client_cert_resources s =
     map (\<lambda>(port, configs). plain_resource (PClientCertPort
            \<lparr>pcp_port = ucast port, pcp_entries = client_cert_port_entries port configs\<rparr>)) s"

definition client_cert_state_from_wire :: "p_client_cert_kind option \<Rightarrow> client_cert_config_state" where
  "client_cert_state_from_wire kind =
     (case kind of
        Some (PClientCertConfig cfg) \<Rightarrow>
          ClientCertConfig (with_insecure_fallback (pcl_allow_insecure_fallback cfg)
            (client_cert_config_new (pcl_ca_pem cfg) (pcl_verify_depth cfg) (pcl_pass_to_upstream cfg)))
      | Some (PClientCertUnavailable _) \<Rightarrow> ClientCertUnavailable
      | None \<Rightarrow> ClientCertUnavailable)"

definition client_cert_entry_from_wire ::
  "client_cert_store_builder \<Rightarrow> p_client_cert_entry \<Rightarrow> client_cert_store_builder wire_result" where
  "client_cert_entry_from_wire b e =
     rbind (ok_or (MissingRequiredField ''client_cert_entry.state'') (pcl_state e)) (\<lambda>kind.
     rbind (narrow_u16 (pcl_entry_port e) ''client_cert_entry.port'') (\<lambda>port.
     Inr (add_client_cert port (pcl_host_pattern e) (client_cert_state_from_wire kind) b)))"

definition client_cert_from_wire :: "p_client_cert_entry list \<Rightarrow> client_cert_store wire_result" where
  "client_cert_from_wire entries =
     rbind (fold_result client_cert_entry_from_wire [] entries) (\<lambda>b. Inr (client_cert_store_build b))"

section \<open>Listener status\<close>

definition readiness_to_wire :: "listener_readiness \<Rightarrow> enum_value \<times> string" where
  "readiness_to_wire r =
     (case r of
        NotApplicable \<Rightarrow> (1, []) | Resolved \<Rightarrow> (2, []) | RefNotPermitted m \<Rightarrow> (3, m)
      | InvalidCertificateRef m \<Rightarrow> (4, m) | Invalid m \<Rightarrow> (5, m) | ResolvedPartial m \<Rightarrow> (6, m)
      | TlsPassthrough \<Rightarrow> (7, []) | Unsupported m \<Rightarrow> (8, m) | UnsupportedProtocol m \<Rightarrow> (8, m)
      | TlsTerminate \<Rightarrow> (9, []) | TcpProxy \<Rightarrow> (10, []) | UdpProxy \<Rightarrow> (11, [])
      | VipPending \<Rightarrow> (8, []))"

definition listener_info_to_wire :: "('net \<Rightarrow> string) \<Rightarrow> 'net listener_info \<Rightarrow> p_listener_info" where
  "listener_info_to_wire show_net info =
     (case readiness_to_wire (li_readiness info) of
        (outcome, message) \<Rightarrow>
          \<lparr>pli_readiness = outcome, pli_detail = message, pli_hostname = li_hostname info,
           pli_allows_all_namespaces = namespaces_is_all (li_route_namespaces info),
           pli_attached_routes = li_attached_routes info, pli_port = ucast (li_port info),
           pli_internal_port = ucast (li_internal_port info),
           pli_conflicted = is_conflicted (li_conflict info),
           pli_protocol_conflict = (li_conflict info = ProtocolConflict),
           pli_proxy_protocol = map_option (\<lambda>pp.
             \<lparr>ppp_enabled = ppc_enabled pp, ppp_trusted_sources = map show_net (ppc_trusted_sources pp)\<rparr>)
             (li_proxy_protocol info)\<rparr>)"

definition readiness_from_wire :: "enum_value \<Rightarrow> string \<Rightarrow> listener_readiness" where
  "readiness_from_wire v detail =
     (if v = 2 then Resolved else if v = 3 then RefNotPermitted detail
      else if v = 4 then InvalidCertificateRef detail else if v = 5 then Invalid detail
      else if v = 6 then ResolvedPartial detail else if v = 7 then TlsPassthrough
      else if v = 8 then Unsupported detail else if v = 9 then TlsTerminate
      else if v = 10 then TcpProxy else if v = 11 then UdpProxy else NotApplicable)"

definition listener_info_from_wire ::
  "('b, 'net) wire_env \<Rightarrow> p_listener_info \<Rightarrow> 'net listener_info wire_result" where
  "listener_info_from_wire env dto =
     rbind (narrow_u16 (pli_port dto) ''listener_info.port'') (\<lambda>port.
     rbind (narrow_u16 (pli_internal_port dto) ''listener_info.internal_port'') (\<lambda>internal_port.
     Inr \<lparr>li_readiness = readiness_from_wire (pli_readiness dto) (pli_detail dto),
          li_frontend_outcome = FrontendNotApplicable, li_attached_routes = pli_attached_routes dto,
          li_hostname = pli_hostname dto,
          li_route_namespaces = (if pli_allows_all_namespaces dto then AllNamespaces else OnlyNamespaces []),
          li_port = port, li_internal_port = internal_port,
          li_conflict = (if pli_protocol_conflict dto then ProtocolConflict
                         else if pli_conflicted dto then HostnameConflict else NoConflict),
          li_proxy_protocol = map_option (\<lambda>pp.
            \<lparr>ppc_enabled = ppp_enabled pp,
             ppc_trusted_sources = List.map_filter (we_net env) (ppp_trusted_sources pp)\<rparr>)
            (pli_proxy_protocol dto)\<rparr>))"

definition listener_source_to_wire :: "listener_source \<Rightarrow> string" where
  "listener_source_to_wire s =
     (case s of GatewaySource \<Rightarrow> [] | ListenerSetSource k \<Rightarrow> object_key_to_string k)"

definition listener_source_from_wire :: "string \<Rightarrow> listener_source wire_result" where
  "listener_source_from_wire source =
     (if source = [] then Inr GatewaySource
      else rmap ListenerSetSource
             (ok_or (MissingRequiredField ''listener_info_entry.source'') (object_key_from_str source)))"

text \<open>The order of the \<open>BTreeMap\<close> of listeners: Gateway before ListenerSets, then by object, then by name.\<close>

definition listener_key_rank :: "listener_status_key \<Rightarrow> nat \<times> string \<times> string \<times> string" where
  "listener_key_rank k =
     (case lsk_source k of
        GatewaySource \<Rightarrow> (0, [], [], lsk_name k)
      | ListenerSetSource o1 \<Rightarrow> (1, ok_ns o1, ok_name o1, lsk_name k))"

definition gateway_status_entry_to_wire ::
  "('net \<Rightarrow> string) \<Rightarrow> object_key \<Rightarrow> 'net gateway_listener_status \<Rightarrow> p_gateway_status_entry" where
  "gateway_status_entry_to_wire show_net key status =
     \<lparr>pgs_object_key = object_key_to_string key,
      pgs_status = Some (map (\<lambda>(k, info).
        \<lparr>ple_name = lsk_name k, ple_info = Some (listener_info_to_wire show_net info),
         ple_source = listener_source_to_wire (lsk_source k)\<rparr>)
        (sort_key (\<lambda>(k, _). listener_key_rank k) (gls_listeners status)))\<rparr>"

definition listener_status_to_wire ::
  "('net \<Rightarrow> string) \<Rightarrow> (object_key \<times> 'net gateway_listener_status) list \<Rightarrow> p_gateway_status_entry list" where
  "listener_status_to_wire show_net m =
     map (\<lambda>(k, s). gateway_status_entry_to_wire show_net k s) (sort_key (\<lambda>(k, _). object_key_to_string k) m)"

definition listener_status_resources ::
  "('net \<Rightarrow> string) \<Rightarrow> (object_key \<times> 'net gateway_listener_status) list \<Rightarrow> p_resource list" where
  "listener_status_resources show_net m =
     map (\<lambda>(k, s). plain_resource (PListenerStatus (gateway_status_entry_to_wire show_net k s))) m"

definition listener_entry_from_wire ::
  "('b, 'net) wire_env \<Rightarrow> 'net gateway_listener_status \<Rightarrow> p_listener_info_entry
     \<Rightarrow> 'net gateway_listener_status wire_result" where
  "listener_entry_from_wire env glh entry =
     rbind (ok_or (MissingRequiredField ''listener_info_entry.info'') (ple_info entry)) (\<lambda>info.
     rbind (listener_info_from_wire env info) (\<lambda>li.
     rbind (listener_source_from_wire (ple_source entry)) (\<lambda>source.
     Inr (glh\<lparr>gls_listeners := alist_insert \<lparr>lsk_source = source, lsk_name = ple_name entry\<rparr> li (gls_listeners glh)\<rparr>))))"

definition listener_status_from_dto ::
  "('b, 'net) wire_env \<Rightarrow> p_listener_info_entry list \<Rightarrow> 'net gateway_listener_status wire_result" where
  "listener_status_from_dto env listeners =
     fold_result (listener_entry_from_wire env) gateway_listener_status_default listeners"

definition listener_status_from_wire ::
  "('b, 'net) wire_env \<Rightarrow> p_gateway_status_entry list
     \<Rightarrow> (object_key \<times> 'net gateway_listener_status) list wire_result" where
  "listener_status_from_wire env entries =
     rbind (traverse (\<lambda>e.
              rbind (ok_or (MissingRequiredField ''gateway_status_entry.object_key'')
                       (object_key_from_str (pgs_object_key e))) (\<lambda>key.
              rbind (ok_or (MissingRequiredField ''gateway_status_entry.status'') (pgs_status e)) (\<lambda>dto.
              rbind (listener_status_from_dto env dto) (\<lambda>s. Inr (key, s))))) entries)
       (\<lambda>kvs. Inr (foldl (\<lambda>m (k, v). alist_insert k v m) [] kvs))"

end
