(* ===== verification/Wire_Groups.thy ===== *)
theory Wire_Groups
  imports Wire_Decode Backend_Selection
begin

text \<open>
  What decoding makes of a backend group (\<open>crates/coxswain-discovery/src/wire/backend.rs\<close> over
  \<open>crates/coxswain-core/src/routing/common/backend.rs\<close>): the decoded group is one the selection
  code can be handed, its filters follow the backends that survive, and nested mirrors are bounded.
\<close>

section \<open>The assembled group\<close>

lemma with_per_backend_filters_sel [simp]:
  "bg_backends (with_per_backend_filters fs g) = bg_backends g"
  by (simp add: with_per_backend_filters_def)

lemma with_others_sel [simp]:
  "bg_backends (with_protocol p g) = bg_backends g" "bg_per_backend_filters (with_protocol p g) = bg_per_backend_filters g"
  "bg_backends (with_tls t g) = bg_backends g" "bg_per_backend_filters (with_tls t g) = bg_per_backend_filters g"
  "bg_backends (with_retries r g) = bg_backends g" "bg_per_backend_filters (with_retries r g) = bg_per_backend_filters g"
  "bg_backends (with_keepalive_timeout d g) = bg_backends g"
  "bg_per_backend_filters (with_keepalive_timeout d g) = bg_per_backend_filters g"
  "bg_backends (with_connect_timeout d g) = bg_backends g"
  "bg_per_backend_filters (with_connect_timeout d g) = bg_per_backend_filters g"
  "bg_backends (with_load_balance lb g) = bg_backends g"
  "bg_per_backend_filters (with_load_balance lb g) = bg_per_backend_filters g"
  "bg_backends (with_session_affinity a g) = bg_backends g"
  "bg_per_backend_filters (with_session_affinity a g) = bg_per_backend_filters g"
  by (simp_all add: with_protocol_def with_tls_def with_retries_def with_keepalive_timeout_def with_connect_timeout_def
      with_load_balance_def with_session_affinity_def Let_def split: option.split)

lemma weighted_alive:
  assumes "weighted name ws = Some g" "\<forall>w\<in>set ws. fst w \<noteq> [] \<and> 0 < snd w"
  shows "map bp_addrs (bg_backends g) = map fst ws" "bg_per_backend_filters g = None"
proof -
  have "live_pools (map (\<lambda>(addrs, w). (resolved_endpoints_new addrs Http1 True, None, w)) ws) = ws"
    using assms(2) by (induction ws) (auto simp: live_pools_def resolved_endpoints_new_def)
  then obtain spec where g: "from_pools name spec ws = Some g"
    using assms(1) by (auto simp: weighted_def weighted_with_endpoints_eq)
  have "map bp_addrs (bg_backends g) = map fst ws \<and> bg_per_backend_filters g = None"
  proof (cases "ws = []")
    case True
    then show ?thesis using g by (auto simp: from_pools_def empty_with_spec_def)
  next
    case False
    then show ?thesis using g assms(2) by (auto simp: from_pools_Some empty_with_spec_def)
  qed
  then show "map bp_addrs (bg_backends g) = map fst ws" "bg_per_backend_filters g = None" by simp_all
qed

lemma surviving_alive: "i \<in> set (surviving resolved) \<Longrightarrow> rb_addrs (resolved ! i) \<noteq> [] \<and> 0 < rb_weight (resolved ! i)"
  by (simp add: surviving_def)

text \<open>The filters the wire form gives to the backend that stood at an original position.\<close>

definition filters_at :: "(nat \<times> 'f list) list \<Rightarrow> nat \<Rightarrow> 'f list option" where
  "filters_at decoded orig = (case map_of (rev decoded) orig of Some fs \<Rightarrow> if fs = [] then None else Some fs | None \<Rightarrow> None)"

lemma filter_slots_nth:
  "j < length alive \<Longrightarrow>
     (if filter_slots decoded alive ! j = [] then None else Some (filter_slots decoded alive ! j)) = filters_at decoded (alive ! j)"
  by (simp add: filter_slots_def filters_at_def split: option.split)

lemma with_filter_slots:
  assumes "bg_per_backend_filters g = None" "length alive = length (bg_backends g)" "j < length alive"
  shows "filters_for_backend (with_per_backend_filters (filter_slots decoded alive) g) j = filters_at decoded (alive ! j)"
proof -
  have len: "length (filter_slots decoded alive) = length (bg_backends g)" using assms(2) by (simp add: filter_slots_def)
  show ?thesis
  proof (cases "list_ex (\<lambda>f. f \<noteq> []) (filter_slots decoded alive)")
    case True
    then show ?thesis
      using filter_slots_nth[OF assms(3), of decoded] len assms(2,3)
      by (simp add: with_per_backend_filters_def filters_for_backend_def nth_opt_def)
  next
    case False
    then have "filter_slots decoded alive ! j = []" using len assms(2,3) by (auto simp: list_ex_iff)
    then show ?thesis
      using filter_slots_nth[OF assms(3), of decoded] False len by (simp add: with_per_backend_filters_def filters_for_backend_def)
  qed
qed

text \<open>The builder calls of the decoder, on the group the constructor returned.\<close>

definition finish_group ::
  "p_backend_group \<Rightarrow> backend_protocol \<Rightarrow> upstream_tls option \<Rightarrow> 'f list list option \<Rightarrow> load_balance
     \<Rightarrow> session_affinity option \<Rightarrow> 'f backend_group \<Rightarrow> 'f backend_group" where
  "finish_group dto protocol tls pbf lb sa bg =
     (let bg = with_protocol protocol bg;
          bg = (case tls of Some t \<Rightarrow> with_tls t bg | None \<Rightarrow> bg);
          bg = with_retries (case pbg_retry dto of Some r \<Rightarrow> retry_from_wire r | None \<Rightarrow> retry_policy_default) bg;
          bg = (case pbg_keepalive_millis dto of
                  Some ms \<Rightarrow> with_keepalive_timeout (Some (unat ms * 10 ^ 6)) bg | None \<Rightarrow> bg);
          bg = (case pbg_connect_millis dto of
                  Some ms \<Rightarrow> with_connect_timeout (Some (unat ms * 10 ^ 6)) bg | None \<Rightarrow> bg);
          bg = (case pbf of Some fs \<Rightarrow> with_per_backend_filters fs bg | None \<Rightarrow> bg);
          bg = with_load_balance lb bg
      in case sa of Some a \<Rightarrow> with_session_affinity (Some a) bg | None \<Rightarrow> bg)"

lemma assemble_group_finish:
  assumes "assemble_group env dto resolved pbf = Inr m"
  obtains protocol tls lb sa g where
    "weighted (pbg_name dto) (map (\<lambda>i. (rb_addrs (resolved ! i), rb_weight (resolved ! i))) (surviving resolved)) = Some g"
    "mg_group m = finish_group dto protocol tls pbf lb sa g" "mg_empty_status m = empty_status_of resolved"
  using assms unfolding assemble_group_def rbind_Inr_iff ok_or_Inr_iff Let_def
  apply (elim exE conjE)
  apply (drule Inr_inject)
  apply hypsubst
  apply (rule that, assumption)
   apply (simp_all only: finish_group_def Let_def materialized_group.simps)
  done

lemma reachable_option:
  "group_reachable g \<Longrightarrow> (\<And>t. group_reachable (f t)) \<Longrightarrow> group_reachable (case x of None \<Rightarrow> g | Some t \<Rightarrow> f t)"
  by (simp split: option.split)

lemma finish_group_reachable: "group_reachable g \<Longrightarrow> group_reachable (finish_group dto protocol tls pbf lb sa g)"
  unfolding finish_group_def Let_def
  by (intro reachable_option group_reachable.protocol group_reachable.tls group_reachable.retries group_reachable.keepalive
      group_reachable.connect group_reachable.balance group_reachable.per_backend group_reachable.affinity)

text \<open>The fields the builders before and after the filters leave alone.\<close>

definition same_backends :: "'f backend_group \<Rightarrow> 'f backend_group \<Rightarrow> bool" where
  "same_backends g h \<longleftrightarrow> bg_backends h = bg_backends g \<and> bg_per_backend_filters h = bg_per_backend_filters g"

lemma same_backends_intros:
  "same_backends g h \<Longrightarrow> same_backends g (with_protocol p h)" "same_backends g h \<Longrightarrow> same_backends g (with_tls t h)"
  "same_backends g h \<Longrightarrow> same_backends g (with_retries r h)" "same_backends g h \<Longrightarrow> same_backends g (with_keepalive_timeout d h)"
  "same_backends g h \<Longrightarrow> same_backends g (with_connect_timeout d h)" "same_backends g h \<Longrightarrow> same_backends g (with_load_balance lb h)"
  "same_backends g h \<Longrightarrow> same_backends g (with_session_affinity a h)" "same_backends g g"
  "same_backends g h \<Longrightarrow> (\<And>t. same_backends g (f t)) \<Longrightarrow> same_backends g (case x of None \<Rightarrow> h | Some t \<Rightarrow> f t)"
  by (simp_all add: same_backends_def split: option.split)

lemma same_backends_filters:
  "same_backends g h \<Longrightarrow> same_backends (with_per_backend_filters fs g) (with_per_backend_filters fs h)"
  by (simp add: same_backends_def with_per_backend_filters_def)

lemma finish_group_same:
  "same_backends (case pbf of Some fs \<Rightarrow> with_per_backend_filters fs g | None \<Rightarrow> g) (finish_group dto protocol tls pbf lb sa g)"
  by (cases pbf) (simp_all only: finish_group_def Let_def option.case,
      (intro same_backends_intros same_backends_filters)+)


section \<open>Decoded groups\<close>

definition decode_per_backend ::
  "('b, 'net) wire_env \<Rightarrow> p_backend_group \<Rightarrow> endpoint_pool \<Rightarrow> nat \<Rightarrow> (nat \<times> 'b filter_action list) list wire_result" where
  "decode_per_backend env dto pool depth =
     traverse (\<lambda>(idx, fs). rbind (traverse (\<lambda>f. filter_from_wire env f (depth + 1) pool) fs) (\<lambda>filters.
       Inr (unat idx, filters))) (pbg_per_backend_filters dto)"

lemma bg_from_wire_cases:
  assumes "bg_from_wire env dto pool depth = Inr m"
  obtains resolved decoded where "traverse (resolve_weighted pool) (pbg_weighted dto) = Inr resolved"
    "decode_per_backend env dto pool depth = Inr decoded"
    "assemble_group env dto resolved
       (if pbg_per_backend_filters dto = [] then None else Some (filter_slots decoded (surviving resolved))) = Inr m"
    "depth \<le> MAX_MIRROR_DEPTH"
proof (cases "pbg_per_backend_filters dto = []")
  case True
  then show ?thesis using assms that unfolding bg_from_wire.simps[of env dto] decode_per_backend_def
    by (auto simp: rbind_Inr_iff split: if_splits)
next
  case False
  then show ?thesis using assms that unfolding bg_from_wire.simps[of env dto] decode_per_backend_def
    by (auto simp: rbind_Inr_iff split: if_splits)
qed

lemma decoded_group:
  assumes "bg_from_wire env dto pool depth = Inr m"
  obtains resolved decoded where "traverse (resolve_weighted pool) (pbg_weighted dto) = Inr resolved"
    "decode_per_backend env dto pool depth = Inr decoded" "group_reachable (mg_group m)"
    "map bp_addrs (bg_backends (mg_group m)) = map (\<lambda>i. rb_addrs (resolved ! i)) (surviving resolved)"
    "\<forall>j<length (surviving resolved). filters_for_backend (mg_group m) j = filters_at decoded (surviving resolved ! j)"
    "mg_empty_status m = empty_status_of resolved"
  using assms
proof (rule bg_from_wire_cases)
  fix resolved decoded
  assume r: "traverse (resolve_weighted pool) (pbg_weighted dto) = Inr resolved" and d: "decode_per_backend env dto pool depth = Inr decoded"
  let ?pbf = "if pbg_per_backend_filters dto = [] then None else Some (filter_slots decoded (surviving resolved))"
  assume a: "assemble_group env dto resolved ?pbf = Inr m"
  note result = that
  show thesis
    using a
  proof (rule assemble_group_finish)
    fix protocol tls lb sa g
    let ?ws = "map (\<lambda>i. (rb_addrs (resolved ! i), rb_weight (resolved ! i))) (surviving resolved)"
    assume w: "weighted (pbg_name dto) ?ws = Some g" and m: "mg_group m = finish_group dto protocol tls ?pbf lb sa g"
      and st: "mg_empty_status m = empty_status_of resolved"
    have alive: "map bp_addrs (bg_backends g) = map fst ?ws" "bg_per_backend_filters g = None"
      using weighted_alive[OF w] surviving_alive by auto
    have len: "length (surviving resolved) = length (bg_backends g)" using arg_cong[OF alive(1), of length] by simp
    have same: "same_backends (case ?pbf of Some fs \<Rightarrow> with_per_backend_filters fs g | None \<Rightarrow> g) (mg_group m)"
      unfolding m by (rule finish_group_same)
    have "filters_for_backend (mg_group m) j = filters_at decoded (surviving resolved ! j)" if "j < length (surviving resolved)" for j
    proof (cases "pbg_per_backend_filters dto = []")
      case True
      then show ?thesis using same alive(2) d by (simp add: same_backends_def filters_for_backend_def filters_at_def decode_per_backend_def)
    next
      case False
      then show ?thesis
        using same with_filter_slots[OF alive(2) len that, of decoded] by (simp add: same_backends_def filters_for_backend_def)
    qed
    moreover have "group_reachable (mg_group m)"
      unfolding m by (rule finish_group_reachable) (rule group_reachable.construct[OF w[unfolded weighted_def]])
    moreover have "map bp_addrs (bg_backends (mg_group m)) = map (\<lambda>i. rb_addrs (resolved ! i)) (surviving resolved)"
      using same alive(1) by (simp add: same_backends_def split: if_splits)
    ultimately show thesis using result[OF r d] st by blast
  qed
qed


section \<open>Nesting\<close>

lemma filter_size: "f \<in> set fs \<Longrightarrow> (i, fs) \<in> set (pbg_per_backend_filters bg) \<Longrightarrow> size f < size bg"
proof (cases bg)
  case (PBackendGroup n p t r l s k c w pbf)
  assume f: "f \<in> set fs" and e: "(i, fs) \<in> set (pbg_per_backend_filters bg)"
  have "size f \<le> size_list size fs" by (rule size_list_estimation'[OF f]) simp
  also have "\<dots> < size_prod (\<lambda>_. 0) (size_list size) (i, fs)" by simp
  also have "\<dots> \<le> size_list (size_prod (\<lambda>_. 0) (size_list size)) pbf"
    using e PBackendGroup by (intro size_list_estimation'[of "(i, fs)"]) auto
  finally show ?thesis by (simp add: PBackendGroup)
qed

lemma mirror_size: "pfa_action f = Some (PMirror (Some bg) fr) \<Longrightarrow> size bg < size f"
  by (cases f) simp

text \<open>How many levels of per-backend filters and mirrors a message nests.\<close>

function bg_nest :: "p_backend_group \<Rightarrow> nat" and filter_nest :: "p_filter_action \<Rightarrow> nat" where
  "bg_nest bg = foldr max (map (\<lambda>f. Suc (filter_nest f)) (concat (map snd (pbg_per_backend_filters bg)))) 0"
| "filter_nest f = (case pfa_action f of Some (PMirror (Some bg) _) \<Rightarrow> Suc (bg_nest bg) | _ \<Rightarrow> 0)"
  by pat_completeness auto
termination
  by (relation "measure (\<lambda>x. case x of Inl bg \<Rightarrow> size bg | Inr f \<Rightarrow> size f)") (auto simp: mirror_size filter_size)

declare bg_nest.simps [simp del] filter_nest.simps [simp del]

lemma foldr_max_le: "foldr max ns (0 :: nat) \<le> b \<longleftrightarrow> (\<forall>n\<in>set ns. n \<le> b)"
  by (induction ns) auto

lemma bg_nest_le:
  "bg_nest bg \<le> b \<longleftrightarrow> (\<forall>(i, fs)\<in>set (pbg_per_backend_filters bg). \<forall>f\<in>set fs. filter_nest f < b)"
  by (auto simp: bg_nest.simps[of bg] foldr_max_le Suc_le_eq)

lemma decoded_nest:
  fixes env :: "('b, 'net) wire_env"
  shows "bg_from_wire env bg pool depth = Inr m \<Longrightarrow> depth + bg_nest bg \<le> MAX_MIRROR_DEPTH"
    and "filter_from_wire env f depth pool = Inr a \<Longrightarrow> depth + filter_nest f \<le> MAX_MIRROR_DEPTH"
proof (induction env bg pool depth and env f depth pool arbitrary: m and a rule: bg_from_wire_filter_from_wire.induct)
  case (1 env dto pool depth)
  obtain resolved decoded where r: "traverse (resolve_weighted pool) (pbg_weighted dto) = Inr resolved"
    and d: "decode_per_backend env dto pool depth = Inr decoded" and le: "depth \<le> MAX_MIRROR_DEPTH"
    using 1(2) by (rule bg_from_wire_cases)
  have "filter_nest f < MAX_MIRROR_DEPTH - depth" if e: "(i, fs) \<in> set (pbg_per_backend_filters dto)" and f: "f \<in> set fs" for i fs f
  proof -
    obtain a where "filter_from_wire env f (depth + 1) pool = Inr a"
      using traverse_Inr_set[OF d[unfolded decode_per_backend_def] e] f
      by (auto simp: rbind_Inr_iff dest: traverse_Inr_set)
    then have "depth + 1 + filter_nest f \<le> MAX_MIRROR_DEPTH"
      using 1(1)[OF _ r _ e refl f] le e by fastforce
    then show ?thesis by simp
  qed
  then show ?case using le bg_nest_le[of dto "MAX_MIRROR_DEPTH - depth"] by fastforce
next
  case (2 env f depth pool)
  show ?case
  proof (cases "\<exists>bg fr. pfa_action f = Some (PMirror (Some bg) fr)")
    case True
    then obtain bg fr where m: "pfa_action f = Some (PMirror (Some bg) fr)" by blast
    then have d: "\<not> depth > MAX_MIRROR_DEPTH" using 2(2) by (auto simp: filter_from_wire.simps[of env f] split: if_splits)
    obtain g where "bg_from_wire env bg pool (depth + 1) = Inr g"
      using 2(2) m d by (auto simp: filter_from_wire.simps[of env f] rbind_Inr_iff)
    then have "depth + 1 + bg_nest bg \<le> MAX_MIRROR_DEPTH"
      using 2(1)[OF d, of "PMirror (Some bg) fr" "Some bg" fr bg] m by simp
    then show ?thesis using m by (simp add: filter_nest.simps[of f])
  next
    case False
    then have "filter_nest f = 0" by (auto simp: filter_nest.simps[of f] split: option.split p_action.split)
    then show ?thesis using 2(2) by (auto simp: filter_from_wire.simps[of env f] split: if_splits)
  qed
qed


section \<open>Properties\<close>

text \<open>
  C23: A decoded backend group satisfies the type invariant of the selection code: its backends are the wire
  backends with positive weight and at least one address, in order, and each keeps the filters that were
  attached to its own position on the wire, however many backends before it were dropped.
\<close>

theorem decoded_group_well_formed:
  assumes "bg_from_wire env dto pool depth = Inr m"
  shows "\<exists>resolved decoded. traverse (resolve_weighted pool) (pbg_weighted dto) = Inr resolved \<and>
     decode_per_backend env dto pool depth = Inr decoded \<and> group_inv (mg_group m) \<and>
     map bp_addrs (bg_backends (mg_group m)) = map (\<lambda>i. rb_addrs (resolved ! i)) (surviving resolved) \<and>
     (\<forall>j<length (surviving resolved). filters_for_backend (mg_group m) j = filters_at decoded (surviving resolved ! j)) \<and>
     mg_empty_status m = empty_status_of resolved"
  using assms by (rule decoded_group) (use group_reachable_inv in blast)

text \<open>
  C24: Decoding recurses at most to the mirror depth limit: a route whose filters or per-backend filters nest
  mirrors deeper than that is refused, whatever the rest of the message holds.
\<close>

theorem decoding_depth_bounded:
  assumes "route_entry_from_wire env pool dto = Inr r"
  shows "(\<forall>bg. pre_backend_group dto = Some bg \<longrightarrow> bg_nest bg \<le> MAX_MIRROR_DEPTH) \<and>
     (\<forall>f\<in>set (pre_filters dto). filter_nest f \<le> MAX_MIRROR_DEPTH)"
proof -
  obtain bg m fs where bg: "pre_backend_group dto = Some bg" "bg_from_wire env bg pool 0 = Inr m"
    and f: "traverse (\<lambda>f. filter_from_wire env f 0 pool) (pre_filters dto) = Inr fs"
    using assms by (auto simp: route_entry_from_wire_def build_route_entry_def build_base_entry_def rbind_Inr_iff ok_or_Inr_iff)
  have "filter_nest g \<le> MAX_MIRROR_DEPTH" if "g \<in> set (pre_filters dto)" for g
    using traverse_Inr_set[OF f that] decoded_nest(2)[of env g 0 pool] by auto
  then show ?thesis using bg decoded_nest(1)[OF bg(2)] by simp
qed

section \<open>A group with a dropped backend\<close>

definition plain_wire_env :: "(unit, nat) wire_env" where
  "plain_wire_env = \<lparr>we_header_name = Some, we_header_value = Some, we_header_value_int = (\<lambda>_. []), we_method = Some,
     we_regex_ok = (\<lambda>_. True), we_path_regex_ok = (\<lambda>_. True), we_net = (\<lambda>_. None), we_arc_group = (\<lambda>_. ())\<rparr>"

definition wire_backend :: "u32 \<Rightarrow> p_weighted_backend" where
  "wire_backend w = \<lparr>pwb_addrs = [''10.0.0.1:80''], pwb_weight = w, pwb_endpoint_ref = None\<rparr>"

definition wire_group :: "p_weighted_backend list \<Rightarrow> (u32 \<times> p_filter_action list) list \<Rightarrow> p_backend_group" where
  "wire_group ws pbf = PBackendGroup ''g'' 1 None None (Some \<lparr>plb_algorithm = Some (PRoundRobin True)\<rparr>) None None None ws pbf"

definition wire_rewrite :: p_filter_action where
  "wire_rewrite = PFilterAction (Some (PUrlRewrite \<lparr>puw_path = None, puw_hostname = Some ''h''\<rparr>))"

definition wire_mirror :: "p_backend_group \<Rightarrow> p_filter_action" where
  "wire_mirror bg = PFilterAction (Some (PMirror (Some bg) None))"

text \<open>The first of two backends has weight zero; the second carries a filter.\<close>

definition dropped_first :: p_backend_group where
  "dropped_first = wire_group [wire_backend 0, wire_backend 1] [(1, [wire_rewrite])]"

lemma dropped_first_decoded: "\<not> isl (bg_from_wire plain_wire_env dropped_first [] 0)"
  by code_simp

lemma dropped_first_parts:
  "map_sum id surviving (traverse (resolve_weighted []) (pbg_weighted dropped_first)) = Inr [1]"
  "rmap (\<lambda>d. filters_at d 1) (decode_per_backend plain_wire_env dropped_first [] 0) = Inr (Some [UrlRewrite (Some ''h'') None])"
  by code_simp+

theorem decoded_group_well_formed_witness:
  "\<exists>m. bg_from_wire plain_wire_env dropped_first [] 0 = Inr m \<and> length (bg_backends (mg_group m)) = 1 \<and>
     filters_for_backend (mg_group m) 0 = Some [UrlRewrite (Some ''h'') None]"
proof -
  obtain m where m: "bg_from_wire plain_wire_env dropped_first [] 0 = Inr m"
    using dropped_first_decoded by (auto simp: isl_def split: sum.splits) (metis sum.exhaust)
  from decoded_group_well_formed[OF m] show ?thesis
    using dropped_first_parts m by (auto simp: rmap_Inr_iff dest: arg_cong[of _ _ length])
qed

definition wire_route :: "p_filter_action list \<Rightarrow> p_route_entry" where
  "wire_route fs = \<lparr>pre_kind = 2, pre_path = ''/'', pre_route_id = ''r'', pre_metric_route_id = ''r'', pre_path_pattern = ''/'',
     pre_backend_group = Some (wire_group [wire_backend 1] []), pre_predicates = None, pre_timeouts = None, pre_rate_limit = None,
     pre_auth = [], pre_compression = None, pre_forwarded_for = None, pre_circuit_breaker = None,
     pre_created_at_unix_millis = None, pre_error_status = None, pre_max_body_size = None, pre_access_log_enabled = None,
     pre_filters = fs, pre_allow_source_range = [], pre_deny_source_range = []\<rparr>"

text \<open>Two mirrors deep is accepted.\<close>

definition nested_mirror :: p_filter_action where
  "nested_mirror = wire_mirror (wire_group [wire_backend 1] [(0, [wire_mirror (wire_group [wire_backend 1] [])])])"

lemma nested_mirror_decoded: "\<not> isl (route_entry_from_wire plain_wire_env [] (wire_route [nested_mirror]))"
  by code_simp

theorem decoding_depth_bounded_witness:
  "filter_nest nested_mirror \<le> MAX_MIRROR_DEPTH \<and> filter_nest nested_mirror = 3"
proof -
  obtain r where "route_entry_from_wire plain_wire_env [] (wire_route [nested_mirror]) = Inr r"
    using nested_mirror_decoded by (metis isl_def sum.exhaust)
  from decoding_depth_bounded[OF this] have "filter_nest nested_mirror \<le> MAX_MIRROR_DEPTH" by (simp add: wire_route_def)
  moreover have "filter_nest nested_mirror = 3"
    by (simp add: nested_mirror_def wire_mirror_def wire_group_def filter_nest.simps bg_nest.simps)
  ultimately show ?thesis by simp
qed

end
