(* ===== verification/Discovery_Apply.thy ===== *)
theory Discovery_Apply
  imports Wire_Tls Resource_Key
begin

text \<open>
  The client side of discovery: the materialized resource cache and the staged apply pipeline of
  \<open>crates/coxswain-discovery/src/apply.rs\<close>, with the content hashes of \<open>version.rs\<close>.  A full
  snapshot or a delta is staged, checked, compiled and committed; the operations here are written
  in that order.  Maps and sets keyed by hash are association lists and lists.  SHA-256 and the
  protobuf encoder are third-party operations of a \<open>hash_env\<close>.  A routing cell holds a value; the
  counters its backends advance while serving are not part of what is applied.
\<close>

unbundle bit_operations_syntax

section \<open>Maps\<close>

definition alist_remove :: "'k \<Rightarrow> ('k \<times> 'v) list \<Rightarrow> ('k \<times> 'v) list" where
  "alist_remove k m = filter (\<lambda>(k', _). k' \<noteq> k) m"

text \<open>Equality of \<open>HashMap\<close>s does not see their order.\<close>

definition alist_eq :: "('k \<times> 'v) list \<Rightarrow> ('k \<times> 'v) list \<Rightarrow> bool" where
  "alist_eq m m' \<longleftrightarrow> list_all (\<lambda>k. map_of m k = map_of m' k) (map fst m @ map fst m')"

definition set_insert :: "'a \<Rightarrow> 'a list \<Rightarrow> 'a list" where
  "set_insert x xs = (if x \<in> set xs then xs else xs @ [x])"

section \<open>Content hashes\<close>

record hash_env =
  he_sha256 :: "u8 list \<Rightarrow> u8 list"
  he_encode :: "p_resource \<Rightarrow> u8 list"

definition hex_digit :: "u8 \<Rightarrow> char" where
  "hex_digit d = ''0123456789abcdef'' ! unat d"

definition hex_encode :: "u8 list \<Rightarrow> string" where
  "hex_encode bytes = concat (map (\<lambda>b. [hex_digit (drop_bit 4 b), hex_digit (b AND 0xF)]) bytes)"

definition content_hash_compute :: "hash_env \<Rightarrow> u8 list \<Rightarrow> string" where
  "content_hash_compute he bytes = hex_encode (he_sha256 he bytes)"

definition from_per_resource :: "hash_env \<Rightarrow> string list \<Rightarrow> string" where
  "from_per_resource he hashes = content_hash_compute he (map byte_of (concat (sort hashes)))"

definition resource_hash :: "hash_env \<Rightarrow> p_resource \<Rightarrow> string" where
  "resource_hash he r = hex_encode (he_sha256 he (he_encode he r))"

section \<open>Keys\<close>

datatype route_table = IngressTable | GatewayTable

datatype host_key = HostExact string | HostWildcard string wildcard_kind | HostCatchall

record route_partition_key =
  pk_table :: route_table
  pk_port :: u16
  pk_host :: host_key

datatype resource_id =
    RouteId route_partition_key
  | PassthroughId u16
  | TerminateId u16
  | TcpId u16
  | UdpId u16

definition port_u16 :: "u32 \<Rightarrow> u16 wire_result" where
  "port_u16 port =
     ok_or (UnknownResourceKey ''resource port exceeds the u16 listener-port range'') (u16_try_from port)"

definition wire_from_key_err :: "resource_key_error \<Rightarrow> wire_error" where
  "wire_from_key_err e =
     UnknownResourceKey
       (case e of
          MissingPayload \<Rightarrow> ''resource carries no payload arm (unknown future variant)''
        | MissingHost \<Rightarrow> ''route_host resource missing its host bucket''
        | MissingHostPattern \<Rightarrow> ''route_host resource host carries no pattern''
        | UnspecifiedTable \<Rightarrow> ''route_host resource has an unspecified table kind''
        | UnspecifiedWildcardKind \<Rightarrow> ''route_host wildcard carries an unspecified kind''
        | MalformedKey reason \<Rightarrow> reason
        | MissingQualifier \<Rightarrow> ''resource qualifier is absent or incomplete'')"

definition map_key_err :: "resource_key_error + 'a \<Rightarrow> 'a wire_result" where
  "map_key_err r = map_sum wire_from_key_err id r"

definition host_key_from_wire :: "p_host_pattern \<Rightarrow> host_key wire_result" where
  "host_key_from_wire pat =
     (case pat of
        PExactHost h \<Rightarrow>
          if starts_with h ''*.''
          then Inl (UnknownResourceKey ''exact route host must not start with '*.' '')
          else Inr (HostExact h)
      | PWildcardHost suffix k \<Rightarrow>
          if k = 1 then Inr (HostWildcard suffix SingleLabel)
          else if k = 2 then Inr (HostWildcard suffix MultiLabel)
          else Inl (UnknownResourceKey ''route_host wildcard carries an unspecified kind'')
      | PCatchall _ \<Rightarrow> Inr HostCatchall)"

definition route_partition_key_of :: "p_route_host_resource \<Rightarrow> route_partition_key wire_result" where
  "route_partition_key_of rh =
     rbind (if prh_table rh = 1 then Inr IngressTable else if prh_table rh = 2 then Inr GatewayTable
            else Inl (UnknownResourceKey ''route_host resource has an unspecified table kind'')) (\<lambda>table.
     rbind (ok_or (UnknownResourceKey ''route_host resource missing its host bucket'') (prh_host rh)) (\<lambda>host.
     rbind (ok_or (UnknownResourceKey ''route_host resource host carries no pattern'') (phe_pattern host)) (\<lambda>pat.
     rbind (host_key_from_wire pat) (\<lambda>hk.
     rbind (port_u16 (prh_port rh)) (\<lambda>port.
     Inr \<lparr>pk_table = table, pk_port = port, pk_host = hk\<rparr>)))))"

section \<open>Endpoint references\<close>

definition ref_key :: "p_weighted_backend \<Rightarrow> endpoint_key list" where
  "ref_key wb =
     (case pwb_endpoint_ref wb of
        None \<Rightarrow> []
      | Some r \<Rightarrow>
          (case u16_try_from (pr_port r) of
             None \<Rightarrow> []
           | Some port \<Rightarrow> [endpoint_key_from_wire (pr_namespace r) (pr_service r) (ucast port)]))"

function collect_bg_refs :: "p_backend_group \<Rightarrow> nat \<Rightarrow> endpoint_key list"
and collect_filter_refs :: "p_filter_action \<Rightarrow> nat \<Rightarrow> endpoint_key list" where
  "collect_bg_refs bg depth =
     (if depth > MAX_MIRROR_DEPTH then []
      else concat (map ref_key (pbg_weighted bg)) @
           concat (map (\<lambda>(_, fs). concat (map (\<lambda>f. collect_filter_refs f (depth + 1)) fs))
                     (pbg_per_backend_filters bg)))"
| "collect_filter_refs f depth =
     (if depth > MAX_MIRROR_DEPTH then []
      else case pfa_action f of
             Some (PMirror (Some bg) _) \<Rightarrow> collect_bg_refs bg (depth + 1)
           | _ \<Rightarrow> [])"
  by pat_completeness auto
termination
  by (relation "measure (\<lambda>x. case x of Inl (_, d) \<Rightarrow> MAX_MIRROR_DEPTH + 1 - d
                                       | Inr (_, d) \<Rightarrow> MAX_MIRROR_DEPTH + 1 - d)") auto

declare collect_bg_refs.simps [simp del] collect_filter_refs.simps [simp del]

definition collect_route_refs :: "p_route_entry \<Rightarrow> nat \<Rightarrow> endpoint_key list" where
  "collect_route_refs route depth =
     (case pre_backend_group route of Some bg \<Rightarrow> collect_bg_refs bg depth | None \<Rightarrow> []) @
     concat (map (\<lambda>f. collect_filter_refs f depth) (pre_filters route))"

definition collect_route_host_refs :: "p_route_host_resource \<Rightarrow> nat \<Rightarrow> endpoint_key list" where
  "collect_route_host_refs rh depth =
     (case prh_host rh of
        None \<Rightarrow> []
      | Some host \<Rightarrow> concat (map (\<lambda>route. collect_route_refs route depth) (phe_routes host)))"

definition passthrough_refs :: "p_tls_passthrough_port \<Rightarrow> endpoint_key list" where
  "passthrough_refs pt =
     concat (map (\<lambda>e. case ppe_backend_group e of Some bg \<Rightarrow> collect_bg_refs bg 0 | None \<Rightarrow> []) (ppt_entries pt))"

definition l4_refs :: "p_l4_port \<Rightarrow> endpoint_key list" where
  "l4_refs pt = (case pl4_backend_group pt of Some bg \<Rightarrow> collect_bg_refs bg 0 | None \<Rightarrow> [])"

section \<open>The cache\<close>

record staged =
  st_routes :: "(route_partition_key \<times> p_route_host_resource) list"
  st_tls :: "(u16 \<times> p_port_tls_entry) list"
  st_client_certs :: "(u16 \<times> p_client_cert_port_resource) list"
  st_listener_status :: "(object_key \<times> p_gateway_status_entry) list"
  st_passthrough :: "(u16 \<times> p_tls_passthrough_port) list"
  st_terminate :: "(u16 \<times> p_tls_passthrough_port) list"
  st_tcp :: "(u16 \<times> p_l4_port) list"
  st_udp :: "(u16 \<times> p_l4_port) list"
  st_endpoints :: "(endpoint_key \<times> p_endpoint_resource) list"
  st_refs :: "(resource_id \<times> endpoint_key list) list"
  st_digests :: "(string \<times> string) list"

text \<open>The committed cache has the maps of a staged world, the reverse index and the baseline flag.\<close>

record resource_cache = staged +
  rc_ep_index :: "(endpoint_key \<times> resource_id list) list"
  rc_has_full :: bool

definition staged_default :: staged where
  "staged_default =
     \<lparr>st_routes = [], st_tls = [], st_client_certs = [], st_listener_status = [], st_passthrough = [],
      st_terminate = [], st_tcp = [], st_udp = [], st_endpoints = [], st_refs = [], st_digests = []\<rparr>"

definition resource_cache_new :: resource_cache where
  "resource_cache_new = staged.extend staged_default \<lparr>rc_ep_index = [], rc_has_full = False\<rparr>"

definition staged_from_cache :: "resource_cache \<Rightarrow> staged" where
  "staged_from_cache cache = staged.truncate cache"

record staged_dirty =
  sd_tls :: bool
  sd_client_certs :: bool
  sd_listener_status :: bool
  sd_passthrough :: bool
  sd_terminate :: bool
  sd_tcp :: bool
  sd_udp :: bool

definition staged_dirty_default :: staged_dirty where
  "staged_dirty_default =
     \<lparr>sd_tls = False, sd_client_certs = False, sd_listener_status = False, sd_passthrough = False,
      sd_terminate = False, sd_tcp = False, sd_udp = False\<rparr>"

definition staged_dirty_all :: staged_dirty where
  "staged_dirty_all =
     \<lparr>sd_tls = True, sd_client_certs = True, sd_listener_status = True, sd_passthrough = True,
      sd_terminate = True, sd_tcp = True, sd_udp = True\<rparr>"


section \<open>Staging\<close>

definition set_refs :: "resource_id \<Rightarrow> endpoint_key list \<Rightarrow> staged \<Rightarrow> staged" where
  "set_refs rid keys st = st\<lparr>st_refs := alist_insert rid (remdups keys) (st_refs st)\<rparr>"

definition drop_refs :: "resource_id \<Rightarrow> staged \<Rightarrow> staged" where
  "drop_refs rid st = st\<lparr>st_refs := alist_remove rid (st_refs st)\<rparr>"

definition object_key_or :: "string \<Rightarrow> string \<Rightarrow> object_key wire_result" where
  "object_key_or reason s = ok_or (UnknownResourceKey reason) (object_key_from_str s)"

text \<open>The payload arms of \<open>stage_resource\<close>, after the duplicate check and the digest.\<close>

definition stage_payload :: "p_payload \<Rightarrow> staged \<times> staged_dirty \<Rightarrow> (staged \<times> staged_dirty) wire_result" where
  "stage_payload payload sd =
     (case sd of (st, d) \<Rightarrow>
      case payload of
        PRouteHost rh \<Rightarrow>
          rbind (route_partition_key_of rh) (\<lambda>pk.
          Inr ((set_refs (RouteId pk) (collect_route_host_refs rh 0) st)
                 \<lparr>st_routes := alist_insert pk rh (st_routes st)\<rparr>, d))
      | PTlsPort e \<Rightarrow>
          rbind (port_u16 (ppt_tls_port e)) (\<lambda>port.
          Inr (st\<lparr>st_tls := alist_insert port e (st_tls st)\<rparr>, d\<lparr>sd_tls := True\<rparr>))
      | PClientCertPort r \<Rightarrow>
          rbind (port_u16 (pcp_port r)) (\<lambda>port.
          Inr (st\<lparr>st_client_certs := alist_insert port r (st_client_certs st)\<rparr>, d\<lparr>sd_client_certs := True\<rparr>))
      | PListenerStatus e \<Rightarrow>
          rbind (object_key_or ''listener_status resource carries a malformed object key'' (pgs_object_key e)) (\<lambda>ok.
          Inr (st\<lparr>st_listener_status := alist_insert ok e (st_listener_status st)\<rparr>,
               d\<lparr>sd_listener_status := True\<rparr>))
      | PTlsPassthroughPort pt \<Rightarrow>
          rbind (port_u16 (ppt_port pt)) (\<lambda>port.
          Inr ((set_refs (PassthroughId port) (passthrough_refs pt) st)
                 \<lparr>st_passthrough := alist_insert port pt (st_passthrough st)\<rparr>, d\<lparr>sd_passthrough := True\<rparr>))
      | PTlsTerminatePort pt \<Rightarrow>
          rbind (port_u16 (ppt_port pt)) (\<lambda>port.
          Inr ((set_refs (TerminateId port) (passthrough_refs pt) st)
                 \<lparr>st_terminate := alist_insert port pt (st_terminate st)\<rparr>, d\<lparr>sd_terminate := True\<rparr>))
      | PTcpPort pt \<Rightarrow>
          rbind (port_u16 (pl4_port pt)) (\<lambda>port.
          Inr ((set_refs (TcpId port) (l4_refs pt) st)
                 \<lparr>st_tcp := alist_insert port pt (st_tcp st)\<rparr>, d\<lparr>sd_tcp := True\<rparr>))
      | PUdpPort pt \<Rightarrow>
          rbind (port_u16 (pl4_port pt)) (\<lambda>port.
          Inr ((set_refs (UdpId port) (l4_refs pt) st)
                 \<lparr>st_udp := alist_insert port pt (st_udp st)\<rparr>, d\<lparr>sd_udp := True\<rparr>))
      | PEndpoints e \<Rightarrow>
          rbind (port_u16 (per_port e)) (\<lambda>port.
          Inr (st\<lparr>st_endpoints := alist_insert
                 \<lparr>ek_namespace = per_namespace e, ek_service = per_service e, ek_port = port\<rparr> e
                 (st_endpoints st)\<rparr>, d))
      | PGatewayMeta _ \<Rightarrow>
          Inl (UnknownResourceKey ''GatewayMeta resource has no typed slot in this client's cache''))"

type_synonym stage_state = "(staged \<times> staged_dirty) \<times> string list"

definition stage_resource :: "hash_env \<Rightarrow> stage_state \<Rightarrow> p_resource \<Rightarrow> stage_state wire_result" where
  "stage_resource he s resource =
     (case s of ((st, d), seen) \<Rightarrow>
      rbind (map_key_err (canonical_key resource)) (\<lambda>key.
      if key \<in> set seen
      then Inl (UnknownResourceKey ''message contains a duplicate canonical resource key'')
      else
        (let st = st\<lparr>st_digests := alist_insert key (resource_hash he resource) (st_digests st)\<rparr> in
         rbind (ok_or (UnknownResourceKey ''resource carries no payload arm (unknown future variant)'')
                  (prs_payload resource)) (\<lambda>payload.
         rbind (stage_payload payload (st, d)) (\<lambda>sd.
         Inr (sd, set_insert key seen))))))"

definition stage_full :: "hash_env \<Rightarrow> p_snapshot \<Rightarrow> staged wire_result" where
  "stage_full he msg =
     rmap (\<lambda>s. fst (fst s))
       (fold_result (stage_resource he) ((staged_default, staged_dirty_default), []) (psn_resources msg))"

definition host_of_parsed :: "parsed_host \<Rightarrow> host_key" where
  "host_of_parsed host =
     (case host of
        ParsedExact h \<Rightarrow> HostExact h
      | ParsedWildcard suffix single_label \<Rightarrow>
          HostWildcard suffix (if single_label then SingleLabel else MultiLabel)
      | ParsedCatchall \<Rightarrow> HostCatchall)"

definition remove_from_staged ::
  "staged \<times> staged_dirty \<Rightarrow> string \<Rightarrow> parsed_key \<Rightarrow> (staged \<times> staged_dirty) wire_result" where
  "remove_from_staged sd key_str parsed =
     (case sd of (st0, d) \<Rightarrow>
      let st = st0\<lparr>st_digests := alist_remove key_str (st_digests st0)\<rparr> in
      case parsed of
        ParsedRoute gateway port host \<Rightarrow>
          (let pk = \<lparr>pk_table = (if gateway then GatewayTable else IngressTable), pk_port = port,
                     pk_host = host_of_parsed host\<rparr>
           in Inr (drop_refs (RouteId pk) (st\<lparr>st_routes := alist_remove pk (st_routes st)\<rparr>), d))
      | ParsedTls port \<Rightarrow> Inr (st\<lparr>st_tls := alist_remove port (st_tls st)\<rparr>, d\<lparr>sd_tls := True\<rparr>)
      | ParsedClientCert port \<Rightarrow>
          Inr (st\<lparr>st_client_certs := alist_remove port (st_client_certs st)\<rparr>, d\<lparr>sd_client_certs := True\<rparr>)
      | ParsedListener ok_str \<Rightarrow>
          rbind (object_key_or ''listener tombstone carries a malformed object key'' ok_str) (\<lambda>ok.
          Inr (st\<lparr>st_listener_status := alist_remove ok (st_listener_status st)\<rparr>,
               d\<lparr>sd_listener_status := True\<rparr>))
      | ParsedTlsPassthrough port \<Rightarrow>
          Inr (drop_refs (PassthroughId port) (st\<lparr>st_passthrough := alist_remove port (st_passthrough st)\<rparr>),
               d\<lparr>sd_passthrough := True\<rparr>)
      | ParsedTlsTerminate port \<Rightarrow>
          Inr (drop_refs (TerminateId port) (st\<lparr>st_terminate := alist_remove port (st_terminate st)\<rparr>),
               d\<lparr>sd_terminate := True\<rparr>)
      | ParsedTcp port \<Rightarrow>
          Inr (drop_refs (TcpId port) (st\<lparr>st_tcp := alist_remove port (st_tcp st)\<rparr>), d\<lparr>sd_tcp := True\<rparr>)
      | ParsedUdp port \<Rightarrow>
          Inr (drop_refs (UdpId port) (st\<lparr>st_udp := alist_remove port (st_udp st)\<rparr>), d\<lparr>sd_udp := True\<rparr>)
      | ParsedEndpoints namespace service port \<Rightarrow>
          Inr (st\<lparr>st_endpoints := alist_remove
                 \<lparr>ek_namespace = namespace, ek_service = service, ek_port = port\<rparr> (st_endpoints st)\<rparr>, d)
      | ParsedQualified _ _ _ \<Rightarrow>
          Inl (UnknownResourceKey ''qualified/GatewayMeta tombstone has no typed slot in this client's cache'')
      | ParsedGatewayMeta _ _ \<Rightarrow>
          Inl (UnknownResourceKey ''qualified/GatewayMeta tombstone has no typed slot in this client's cache''))"

definition stage_tombstone ::
  "string list \<Rightarrow> staged \<times> staged_dirty \<Rightarrow> string \<Rightarrow> (staged \<times> staged_dirty) wire_result" where
  "stage_tombstone seen sd removed =
     (if removed \<in> set seen
      then Inl (UnknownResourceKey ''delta key appears in both the upsert and the tombstone set'')
      else rbind (map_key_err (parse_canonical_key removed)) (remove_from_staged sd removed))"

definition stage_delta :: "hash_env \<Rightarrow> resource_cache \<Rightarrow> p_snapshot \<Rightarrow> (staged \<times> staged_dirty) wire_result" where
  "stage_delta he cache msg =
     rbind (fold_result (stage_resource he) ((staged_from_cache cache, staged_dirty_default), [])
              (psn_resources msg)) (\<lambda>s.
     fold_result (stage_tombstone (snd s)) (fst s) (psn_removed_resources msg))"


section \<open>Compiling\<close>

record ('r, 'b, 'net) cells =
  ce_ingress :: "('r, 'b, 'net) routing_table"
  ce_gateway :: "('r, 'b, 'net) routing_table"
  ce_tls :: port_tls_store
  ce_client_certs :: client_cert_store
  ce_status :: "'net status_handle"
  ce_listener_hostnames :: listener_hostnames
  ce_passthrough :: "'b l4_group tls_passthrough_table"
  ce_terminate :: "'b l4_group tls_passthrough_table"
  ce_tcp :: "'b l4_group tcp_route_table"
  ce_udp :: "'b l4_group udp_route_table"

definition cells_new :: "('r, 'b, 'net) cells" where
  "cells_new =
     \<lparr>ce_ingress = \<lparr>rtb_by_port = [], rtb_conflicts = []\<rparr>, ce_gateway = \<lparr>rtb_by_port = [], rtb_conflicts = []\<rparr>,
      ce_tls = [], ce_client_certs = [], ce_status = status_handle_new, ce_listener_hostnames = [],
      ce_passthrough = [], ce_terminate = [], ce_tcp = [], ce_udp = []\<rparr>"

record apply_stats =
  as_partitions_recompiled :: nat
  as_partitions_reused :: nat

definition apply_stats_default :: apply_stats where
  "apply_stats_default = \<lparr>as_partitions_recompiled = 0, as_partitions_reused = 0\<rparr>"

definition endpoint_pool_from_staged :: "(endpoint_key \<times> p_endpoint_resource) list \<Rightarrow> endpoint_pool wire_result" where
  "endpoint_pool_from_staged eps =
     fold_result (\<lambda>pool (key, e). rbind (resolved_endpoints_from_wire e) (\<lambda>r. Inr (alist_insert key r pool))) [] eps"

definition derive_listener_hostnames ::
  "(object_key \<times> 'net gateway_listener_status) list \<Rightarrow> listener_hostnames" where
  "derive_listener_hostnames m =
     listener_hostnames_build
       (foldl (\<lambda>b (_, gw_status).
          foldl (\<lambda>b (_, li). add_listener (bind_port li) (li_hostname li) (is_https_terminate (li_readiness li)) b)
            b (gls_listeners gw_status)) [] m)"

definition build_ep_index ::
  "(resource_id \<times> endpoint_key list) list \<Rightarrow> (endpoint_key \<times> resource_id list) list" where
  "build_ep_index refs =
     foldl (\<lambda>index (rid, keys). foldl (\<lambda>index key. alist_upsert key [] (set_insert rid) index) index keys) [] refs"

definition validate_removed_endpoints_unreferenced ::
  "(endpoint_key \<times> p_endpoint_resource) list \<Rightarrow> staged \<Rightarrow> (endpoint_key \<times> resource_id list) list \<Rightarrow> unit wire_result" where
  "validate_removed_endpoints_unreferenced committed st index =
     (case List.find (\<lambda>key. map_of (st_endpoints st) key = None \<and> map_of index key \<noteq> None)
             (map fst committed) of
        Some key \<Rightarrow>
          Inl (RemovedEndpointStillReferenced
            (ek_namespace key @ ''/'' @ ek_service key @ ''/'' @ dec (uint (ek_port key))))
      | None \<Rightarrow> Inr ())"

definition changed_or_removed_endpoints ::
  "(endpoint_key \<times> p_endpoint_resource) list \<Rightarrow> (endpoint_key \<times> p_endpoint_resource) list \<Rightarrow> endpoint_key list" where
  "changed_or_removed_endpoints committed staged_eps =
     map fst (filter (\<lambda>(key, dto). map_of committed key \<noteq> Some dto) staged_eps) @
     filter (\<lambda>key. map_of staged_eps key = None) (map fst committed)"

record endpoint_dirty =
  ed_routes :: "route_partition_key list"
  ed_passthrough :: bool
  ed_terminate :: bool
  ed_tcp :: bool
  ed_udp :: bool

definition endpoint_dirty_default :: endpoint_dirty where
  "endpoint_dirty_default =
     \<lparr>ed_routes = [], ed_passthrough = False, ed_terminate = False, ed_tcp = False, ed_udp = False\<rparr>"

definition mark_dirty ::
  "(route_partition_key \<times> p_route_host_resource) list \<Rightarrow> endpoint_dirty \<Rightarrow> resource_id \<Rightarrow> endpoint_dirty" where
  "mark_dirty routes d rid =
     (case rid of
        RouteId pk \<Rightarrow> if map_of routes pk \<noteq> None then d\<lparr>ed_routes := set_insert pk (ed_routes d)\<rparr> else d
      | PassthroughId _ \<Rightarrow> d\<lparr>ed_passthrough := True\<rparr>
      | TerminateId _ \<Rightarrow> d\<lparr>ed_terminate := True\<rparr>
      | TcpId _ \<Rightarrow> d\<lparr>ed_tcp := True\<rparr>
      | UdpId _ \<Rightarrow> d\<lparr>ed_udp := True\<rparr>)"

definition index_get :: "(endpoint_key \<times> resource_id list) list \<Rightarrow> endpoint_key \<Rightarrow> resource_id list" where
  "index_get index ek = (case map_of index ek of Some rids \<Rightarrow> rids | None \<Rightarrow> [])"

definition endpoint_dirty_targets ::
  "endpoint_key list \<Rightarrow> staged \<Rightarrow> (endpoint_key \<times> resource_id list) list
     \<Rightarrow> (endpoint_key \<times> resource_id list) list \<Rightarrow> endpoint_dirty" where
  "endpoint_dirty_targets changed_eps st staged_ep_index committed_ep_index =
     (if changed_eps = [] then endpoint_dirty_default
      else foldl (\<lambda>d ek. foldl (mark_dirty (st_routes st)) d
                   (index_get committed_ep_index ek @ index_get staged_ep_index ek))
             endpoint_dirty_default changed_eps)"

definition host_selector :: "host_key \<Rightarrow> string option \<times> wildcard_kind" where
  "host_selector host =
     (case host of
        HostExact h \<Rightarrow> (Some h, MultiLabel)
      | HostWildcard suffix kind \<Rightarrow> (Some (''*.'' @ suffix), kind)
      | HostCatchall \<Rightarrow> (None, MultiLabel))"

definition conflict_host_repr :: "string option \<Rightarrow> string" where
  "conflict_host_repr hostname_opt = (case hostname_opt of Some h \<Rightarrow> h | None \<Rightarrow> ''*'')"

definition carry_conflicts ::
  "route_conflict list \<Rightarrow> u16 \<Rightarrow> string \<Rightarrow> ('r, 'b, 'net) routing_table_builder
     \<Rightarrow> ('r, 'b, 'net) routing_table_builder" where
  "carry_conflicts conflicts port host_repr builder =
     extend_conflicts (filter (\<lambda>c. rcf_port c = port \<and> rcf_host c = host_repr) conflicts) builder"

definition splice_router ::
  "string option \<Rightarrow> wildcard_kind \<Rightarrow> ('r, 'b, 'net) host_router \<Rightarrow> ('r, 'b, 'net) port_table_builder
     \<Rightarrow> ('r, 'b, 'net) port_table_builder" where
  "splice_router hostname_opt kind router pb =
     (case hostname_opt of
        None \<Rightarrow> insert_compiled_catchall router pb
      | Some h \<Rightarrow> if starts_with h ''*.'' then insert_compiled_wildcard_host h kind router pb
                  else insert_compiled_exact_host h router pb)"

definition get_partition ::
  "('r, 'b, 'net) routing_table \<Rightarrow> route_partition_key \<Rightarrow> ('r, 'b, 'net) host_router option" where
  "get_partition t pk = table_get_compiled t (pk_port pk) (fst (host_selector (pk_host pk))) (snd (host_selector (pk_host pk)))"

type_synonym route_map = "(route_partition_key \<times> p_route_host_resource) list"

definition dirty_partitions ::
  "route_table \<Rightarrow> route_map \<Rightarrow> route_map \<Rightarrow> route_partition_key list \<Rightarrow> ('r, 'b, 'net) routing_table
     \<Rightarrow> route_partition_key list" where
  "dirty_partitions which staged_routes committed_routes ep_dirty live =
     map fst (filter (\<lambda>(pk, dto). pk_table pk = which \<and>
        (map_of committed_routes pk \<noteq> Some dto \<or> pk \<in> set ep_dirty \<or> get_partition live pk = None))
       staged_routes)"

definition hosts_by_port ::
  "route_map \<Rightarrow> route_partition_key list \<Rightarrow> (u16 \<times> p_host_entry list) list" where
  "hosts_by_port staged_routes dirty =
     (let entries = List.map_filter (\<lambda>pk. map_option (Pair (pk_port pk))
                      (Option.bind (map_of staged_routes pk) prh_host)) dirty
      in sort_key fst (foldl (\<lambda>m (port, he). alist_upsert port [] (\<lambda>hs. hs @ [he]) m) [] entries))"

type_synonym ('r, 'b, 'net) assembly = "('r, 'b, 'net) routing_table_builder \<times> nat \<times> nat"

definition assemble_partition ::
  "route_partition_key list \<Rightarrow> ('r, 'b, 'net) routing_table option \<Rightarrow> ('r, 'b, 'net) routing_table
     \<Rightarrow> ('r, 'b, 'net) assembly \<Rightarrow> route_partition_key \<Rightarrow> ('r, 'b, 'net) assembly" where
  "assemble_partition dirty fresh live acc pk =
     (case acc of (builder, recompiled, reused) \<Rightarrow>
      let (hostname_opt, kind) = host_selector (pk_host pk);
          host_repr = conflict_host_repr hostname_opt
      in if pk \<in> set dirty then
           (case fresh of
              None \<Rightarrow> acc
            | Some t \<Rightarrow>
                (case get_partition t pk of
                   None \<Rightarrow> acc
                 | Some router \<Rightarrow>
                     (for_port (pk_port pk) (splice_router hostname_opt kind router)
                        (carry_conflicts (rtb_conflicts t) (pk_port pk) host_repr builder),
                      recompiled + 1, reused)))
         else
           (case get_partition live pk of
              None \<Rightarrow> acc
            | Some router \<Rightarrow>
                (for_port (pk_port pk) (splice_router hostname_opt kind router)
                   (carry_conflicts (rtb_conflicts live) (pk_port pk) host_repr builder),
                 recompiled, reused + 1)))"

record ('r, 'b, 'net) route_rebuild =
  rr_table :: "('r, 'b, 'net) routing_table option"
  rr_recompiled :: nat
  rr_reused :: nat

definition rebuild_route_table ::
  "('b, 'net) wire_env \<Rightarrow> ('r, ('b, 'net) route_entry list) matchit \<Rightarrow> route_table \<Rightarrow> route_map \<Rightarrow> route_map
     \<Rightarrow> route_partition_key list \<Rightarrow> ('r, 'b, 'net) routing_table \<Rightarrow> endpoint_pool
     \<Rightarrow> ('r, 'b, 'net) route_rebuild wire_result" where
  "rebuild_route_table env mt which staged_routes committed_routes ep_dirty live pool =
     (let dirty = dirty_partitions which staged_routes committed_routes ep_dirty live;
          staged_keys = filter (\<lambda>pk. pk_table pk = which) (map fst staged_routes);
          removed = list_ex (\<lambda>pk. pk_table pk = which \<and> map_of staged_routes pk = None) (map fst committed_routes)
      in if dirty = [] \<and> \<not> removed then Inr \<lparr>rr_table = None, rr_recompiled = 0, rr_reused = 0\<rparr>
         else
           rbind (if dirty = [] then Inr None
                  else rmap Some (build_route_table env mt (hosts_by_port staged_routes dirty) pool)) (\<lambda>fresh.
           case foldl (assemble_partition dirty fresh live) (routing_table_builder_new, 0, 0) staged_keys of
             (builder, recompiled, reused) \<Rightarrow>
               (case table_build mt (we_path_regex_ok env) builder of
                  Inl e \<Rightarrow> Inl (build_error e)
                | Inr t \<Rightarrow> Inr \<lparr>rr_table = Some t, rr_recompiled = recompiled, rr_reused = reused\<rparr>)))"

definition decode_tls_cell :: "(u16 \<times> p_port_tls_entry) list \<Rightarrow> port_tls_store wire_result" where
  "decode_tls_cell m = port_tls_from_wire (sort_key ppt_tls_port (map snd m))"

definition decode_client_certs_cell :: "(u16 \<times> p_client_cert_port_resource) list \<Rightarrow> client_cert_store wire_result" where
  "decode_client_certs_cell m =
     client_cert_from_wire
       (concat (map (\<lambda>r. map (\<lambda>e. e\<lparr>pcl_entry_port := pcp_port r\<rparr>) (pcp_entries r))
          (sort_key pcp_port (map snd m))))"

definition decode_listener_status_cell ::
  "('b, 'net) wire_env \<Rightarrow> (object_key \<times> p_gateway_status_entry) list
     \<Rightarrow> (object_key \<times> 'net gateway_listener_status) list wire_result" where
  "decode_listener_status_cell env m = listener_status_from_wire env (sort_key pgs_object_key (map snd m))"

definition decode_passthrough_cell ::
  "('b, 'net) wire_env \<Rightarrow> (u16 \<times> p_tls_passthrough_port) list \<Rightarrow> endpoint_pool
     \<Rightarrow> 'b l4_group tls_passthrough_table wire_result" where
  "decode_passthrough_cell env m pool = passthrough_from_wire env pool (sort_key ppt_port (map snd m))"

definition decode_tcp_cell ::
  "('b, 'net) wire_env \<Rightarrow> (u16 \<times> p_l4_port) list \<Rightarrow> endpoint_pool \<Rightarrow> 'b l4_group tcp_route_table wire_result" where
  "decode_tcp_cell env m pool = tcp_table_from_wire env pool (sort_key pl4_port (map snd m))"

definition decode_udp_cell ::
  "('b, 'net) wire_env \<Rightarrow> (u16 \<times> p_l4_port) list \<Rightarrow> endpoint_pool \<Rightarrow> 'b l4_group udp_route_table wire_result" where
  "decode_udp_cell env m pool = udp_table_from_wire env pool (sort_key pl4_port (map snd m))"

section \<open>Applying a message\<close>

text \<open>\<open>cond.then(|| decode).transpose()\<close>.\<close>

definition when_dirty :: "bool \<Rightarrow> 'a wire_result \<Rightarrow> 'a option wire_result" where
  "when_dirty c r = (if c then rmap Some r else Inr None)"

definition or_live :: "'a option \<Rightarrow> 'a \<Rightarrow> 'a" where
  "or_live new live = (case new of Some x \<Rightarrow> x | None \<Rightarrow> live)"

text \<open>Phase C of \<open>apply_message\<close>: the rebuilt cells, before anything is stored.\<close>

record ('r, 'b, 'net) compiled =
  co_ingress :: "('r, 'b, 'net) route_rebuild"
  co_gateway :: "('r, 'b, 'net) route_rebuild"
  co_tls :: "port_tls_store option"
  co_client_certs :: "client_cert_store option"
  co_listener_status :: "((object_key \<times> 'net gateway_listener_status) list \<times> listener_hostnames) option"
  co_passthrough :: "'b l4_group tls_passthrough_table option"
  co_terminate :: "'b l4_group tls_passthrough_table option"
  co_tcp :: "'b l4_group tcp_route_table option"
  co_udp :: "'b l4_group udp_route_table option"

definition compile_phase ::
  "('b, 'net) wire_env \<Rightarrow> ('r, ('b, 'net) route_entry list) matchit \<Rightarrow> resource_cache \<Rightarrow> ('r, 'b, 'net) cells
     \<Rightarrow> staged \<Rightarrow> staged_dirty \<Rightarrow> (endpoint_key \<times> resource_id list) list \<Rightarrow> ('r, 'b, 'net) compiled wire_result" where
  "compile_phase env mt cache cells st d staged_ep_index =
     rbind (endpoint_pool_from_staged (st_endpoints st)) (\<lambda>pool.
     let changed_eps = changed_or_removed_endpoints (st_endpoints cache) (st_endpoints st);
         ep_dirty = endpoint_dirty_targets changed_eps st staged_ep_index (rc_ep_index cache)
     in
     rbind (rebuild_route_table env mt IngressTable (st_routes st) (st_routes cache) (ed_routes ep_dirty)
              (ce_ingress cells) pool) (\<lambda>ingress.
     rbind (rebuild_route_table env mt GatewayTable (st_routes st) (st_routes cache) (ed_routes ep_dirty)
              (ce_gateway cells) pool) (\<lambda>gateway.
     rbind (when_dirty (sd_tls d \<and> \<not> alist_eq (st_tls st) (st_tls cache)) (decode_tls_cell (st_tls st))) (\<lambda>tls.
     rbind (when_dirty (sd_client_certs d \<and> \<not> alist_eq (st_client_certs st) (st_client_certs cache))
              (decode_client_certs_cell (st_client_certs st))) (\<lambda>client_certs.
     rbind (when_dirty (sd_listener_status d \<and> \<not> alist_eq (st_listener_status st) (st_listener_status cache))
              (rmap (\<lambda>m. (m, derive_listener_hostnames m))
                 (decode_listener_status_cell env (st_listener_status st)))) (\<lambda>listener_status.
     rbind (when_dirty (ed_passthrough ep_dirty \<or>
                sd_passthrough d \<and> \<not> alist_eq (st_passthrough st) (st_passthrough cache))
              (decode_passthrough_cell env (st_passthrough st) pool)) (\<lambda>passthrough.
     rbind (when_dirty (ed_terminate ep_dirty \<or>
                sd_terminate d \<and> \<not> alist_eq (st_terminate st) (st_terminate cache))
              (decode_passthrough_cell env (st_terminate st) pool)) (\<lambda>terminate.
     rbind (when_dirty (ed_tcp ep_dirty \<or> sd_tcp d \<and> \<not> alist_eq (st_tcp st) (st_tcp cache))
              (decode_tcp_cell env (st_tcp st) pool)) (\<lambda>tcp.
     rbind (when_dirty (ed_udp ep_dirty \<or> sd_udp d \<and> \<not> alist_eq (st_udp st) (st_udp cache))
              (decode_udp_cell env (st_udp st) pool)) (\<lambda>udp.
     Inr \<lparr>co_ingress = ingress, co_gateway = gateway, co_tls = tls, co_client_certs = client_certs,
          co_listener_status = listener_status, co_passthrough = passthrough, co_terminate = terminate,
          co_tcp = tcp, co_udp = udp\<rparr>))))))))))"

text \<open>Phase D: the cache becomes the staged world and the rebuilt cells are stored.\<close>

definition commit_cells :: "('r, 'b, 'net) compiled \<Rightarrow> ('r, 'b, 'net) cells \<Rightarrow> ('r, 'b, 'net) cells" where
  "commit_cells c cells =
     \<lparr>ce_ingress = or_live (rr_table (co_ingress c)) (ce_ingress cells),
      ce_gateway = or_live (rr_table (co_gateway c)) (ce_gateway cells),
      ce_tls = or_live (co_tls c) (ce_tls cells),
      ce_client_certs = or_live (co_client_certs c) (ce_client_certs cells),
      ce_status = (case co_listener_status c of
                     Some (m, _) \<Rightarrow> store_and_notify m (ce_status cells) | None \<Rightarrow> ce_status cells),
      ce_listener_hostnames = or_live (map_option snd (co_listener_status c)) (ce_listener_hostnames cells),
      ce_passthrough = or_live (co_passthrough c) (ce_passthrough cells),
      ce_terminate = or_live (co_terminate c) (ce_terminate cells),
      ce_tcp = or_live (co_tcp c) (ce_tcp cells),
      ce_udp = or_live (co_udp c) (ce_udp cells)\<rparr>"

definition commit_cache :: "staged \<Rightarrow> (endpoint_key \<times> resource_id list) list \<Rightarrow> resource_cache" where
  "commit_cache st index = staged.extend st \<lparr>rc_ep_index = index, rc_has_full = True\<rparr>"

definition stats_of :: "('r, 'b, 'net) compiled \<Rightarrow> apply_stats" where
  "stats_of c =
     \<lparr>as_partitions_recompiled = rr_recompiled (co_ingress c) + rr_recompiled (co_gateway c),
      as_partitions_reused = rr_reused (co_ingress c) + rr_reused (co_gateway c)\<rparr>"

text \<open>Phase A, with the checks that follow it.\<close>

definition stage_message ::
  "hash_env \<Rightarrow> resource_cache \<Rightarrow> p_snapshot \<Rightarrow> bool
     \<Rightarrow> (staged \<times> staged_dirty \<times> (endpoint_key \<times> resource_id list) list) wire_result" where
  "stage_message he cache msg verify_version =
     rbind (if psn_full msg then rmap (\<lambda>st. (st, staged_dirty_all)) (stage_full he msg)
            else stage_delta he cache msg) (\<lambda>(st, d).
     let index = build_ep_index (st_refs st) in
     rbind (if psn_full msg then Inr ()
            else validate_removed_endpoints_unreferenced (st_endpoints cache) st index) (\<lambda>_.
     let computed = from_per_resource he (map snd (st_digests st)) in
     if verify_version \<and> computed \<noteq> psn_version msg then Inl (VersionMismatch (psn_version msg) computed)
     else Inr (st, d, index)))"

definition apply_message ::
  "hash_env \<Rightarrow> ('b, 'net) wire_env \<Rightarrow> ('r, ('b, 'net) route_entry list) matchit \<Rightarrow> resource_cache \<Rightarrow> p_snapshot
     \<Rightarrow> ('r, 'b, 'net) cells \<Rightarrow> bool \<Rightarrow> bool \<Rightarrow> (resource_cache \<times> ('r, 'b, 'net) cells \<times> apply_stats) wire_result" where
  "apply_message he env mt cache msg cells expect_full verify_version =
     (if \<not> psn_full msg \<and> expect_full then Inl DeltaBeforeFullSnapshot
      else
        rbind (stage_message he cache msg verify_version) (\<lambda>(st, d, index).
        if rc_has_full cache \<and> alist_eq (st_digests st) (st_digests cache)
        then Inr (cache, cells, apply_stats_default)
        else
          rbind (compile_phase env mt cache cells st d index) (\<lambda>c.
          Inr (commit_cache st index, commit_cells c cells, stats_of c))))"

section \<open>The routing applier\<close>

record ('r, 'b, 'net) routing_applier =
  ra_cache :: resource_cache
  ra_cells :: "('r, 'b, 'net) cells"
  ra_publish :: "u64 option"

definition routing_applier_new :: "('r, 'b, 'net) routing_applier" where
  "routing_applier_new = \<lparr>ra_cache = resource_cache_new, ra_cells = cells_new, ra_publish = None\<rparr>"

definition with_publish_index ::
  "u64 \<Rightarrow> ('r, 'b, 'net) routing_applier \<Rightarrow> ('r, 'b, 'net) routing_applier" where
  "with_publish_index seq a = a\<lparr>ra_publish := Some seq\<rparr>"

definition advance_to :: "u64 \<Rightarrow> u64 \<Rightarrow> u64" where
  "advance_to seq current = max current seq"

text \<open>A failed apply returns the applier it was given.\<close>

definition applier_apply ::
  "hash_env \<Rightarrow> ('b, 'net) wire_env \<Rightarrow> ('r, ('b, 'net) route_entry list) matchit \<Rightarrow> ('r, 'b, 'net) routing_applier
     \<Rightarrow> p_snapshot \<Rightarrow> bool \<Rightarrow> ('r, 'b, 'net) routing_applier \<times> apply_stats wire_result" where
  "applier_apply he env mt a msg expect_full =
     (case apply_message he env mt (ra_cache a) msg (ra_cells a) expect_full True of
        Inl e \<Rightarrow> (a, Inl e)
      | Inr (cache, cells, stats) \<Rightarrow>
          (\<lparr>ra_cache = cache, ra_cells = cells,
            ra_publish = map_option (advance_to (psn_publish_seq msg)) (ra_publish a)\<rparr>, Inr stats))"

definition apply_trusted ::
  "hash_env \<Rightarrow> ('b, 'net) wire_env \<Rightarrow> ('r, ('b, 'net) route_entry list) matchit \<Rightarrow> ('r, 'b, 'net) routing_applier
     \<Rightarrow> p_snapshot \<Rightarrow> bool \<Rightarrow> ('r, 'b, 'net) routing_applier \<times> apply_stats wire_result" where
  "apply_trusted he env mt a msg expect_full =
     (case apply_message he env mt (ra_cache a) msg (ra_cells a) expect_full False of
        Inl e \<Rightarrow> (a, Inl e)
      | Inr (cache, cells, stats) \<Rightarrow> (a\<lparr>ra_cache := cache, ra_cells := cells\<rparr>, Inr stats))"

end
