(* ===== verification/Decode_Locality.thy ===== *)
theory Decode_Locality
  imports Discovery_Apply
begin

text \<open>
  Which endpoints a decoded resource depends on.  The reference walk of \<open>apply.rs\<close> and the
  decoders of \<open>wire/routing/decode.rs\<close> are separate recursions over the same messages, bounded by
  the same depth; the lemmas here show that they agree: a decoder reads the endpoint pool only at
  the collected references, and when it succeeds every collected reference is in the pool.
\<close>

named_theorems local_intros \<open>decoders that read the pool only at the collected references\<close>

definition agree :: "endpoint_pool \<Rightarrow> endpoint_pool \<Rightarrow> endpoint_key list \<Rightarrow> bool" where
  "agree pool pool' ks \<longleftrightarrow> (\<forall>k\<in>set ks. map_of pool k = map_of pool' k)"

definition resolves :: "endpoint_pool \<Rightarrow> endpoint_key list \<Rightarrow> bool" where
  "resolves pool ks \<longleftrightarrow> (\<forall>k\<in>set ks. map_of pool k \<noteq> None)"

lemma agree_append [simp]: "agree p p' (xs @ ys) \<longleftrightarrow> agree p p' xs \<and> agree p p' ys"
  by (auto simp: agree_def)

lemma agree_Nil [simp]: "agree p p' []"
  by (simp add: agree_def)

lemma agree_concat: "agree p p' (concat xss) \<Longrightarrow> xs \<in> set xss \<Longrightarrow> agree p p' xs"
  by (auto simp: agree_def)

lemma agree_concat_map: "agree p p' (concat (map f xs)) \<Longrightarrow> x \<in> set xs \<Longrightarrow> agree p p' (f x)"
  by (auto simp: agree_def)

lemma agree_refl [simp]: "agree p p ks"
  by (simp add: agree_def)

lemma resolves_append [simp]: "resolves p (xs @ ys) \<longleftrightarrow> resolves p xs \<and> resolves p ys"
  by (auto simp: resolves_def)

lemma resolves_Nil [simp]: "resolves p []"
  by (simp add: resolves_def)

lemma resolves_concat_map: "(\<And>x. x \<in> set xs \<Longrightarrow> resolves p (f x)) \<Longrightarrow> resolves p (concat (map f xs))"
  by (auto simp: resolves_def)

section \<open>Backend groups and filters\<close>

lemma resolve_weighted_local: "agree pool pool' (ref_key wb) \<Longrightarrow> resolve_weighted pool wb = resolve_weighted pool' wb"
  by (cases "pwb_endpoint_ref wb"; cases "u16_try_from (pr_port (the (pwb_endpoint_ref wb)))")
    (simp_all add: resolve_weighted_def resolve_ref_def ref_key_def agree_def)

lemma resolve_weighted_resolves: "resolve_weighted pool wb = Inr rb \<Longrightarrow> resolves pool (ref_key wb)"
  by (auto simp: resolve_weighted_def resolve_ref_def ref_key_def resolves_def result_simps
        split: option.splits)

lemma bg_filter_local:
  "agree pool pool' (collect_bg_refs dto depth) \<Longrightarrow>
     bg_from_wire env dto pool depth = bg_from_wire env dto pool' depth"
  "agree pool pool' (collect_filter_refs f depth) \<Longrightarrow>
     filter_from_wire env f depth pool = filter_from_wire env f depth pool'"
proof (induction env dto pool depth and env f depth pool rule: bg_from_wire_filter_from_wire.induct)
  case (1 env dto pool depth)
  show ?case
  proof (cases "depth > MAX_MIRROR_DEPTH")
    case False
    have prem: "agree pool pool' (concat (map ref_key (pbg_weighted dto)))"
      "agree pool pool' (concat (map (\<lambda>(_, fs). concat (map (\<lambda>f. collect_filter_refs f (depth + 1)) fs))
                     (pbg_per_backend_filters dto)))"
      using 1(2) False by (simp_all add: collect_bg_refs.simps[of dto])
    have w: "traverse (resolve_weighted pool) (pbg_weighted dto) = traverse (resolve_weighted pool') (pbg_weighted dto)"
      using agree_concat_map[OF prem(1)] by (intro traverse_cong refl resolve_weighted_local)
    have f: "filter_from_wire env f (depth + 1) pool = filter_from_wire env f (depth + 1) pool'"
      if "traverse (resolve_weighted pool) (pbg_weighted dto) = Inr resolved" "(i, fs) \<in> set (pbg_per_backend_filters dto)"
        "f \<in> set fs" for f i fs resolved
    proof -
      have "pbg_per_backend_filters dto \<noteq> []" using that(2) by auto
      moreover have "agree pool pool' (collect_filter_refs f (depth + 1))"
        using agree_concat_map[OF prem(2) that(2)] that(3) by (auto dest: agree_concat_map)
      ultimately show ?thesis using 1(1)[OF False that(1) _ that(2) refl that(3)] by simp
    qed
    show ?thesis
      using False
      unfolding bg_from_wire.simps[of env dto pool] bg_from_wire.simps[of env dto pool'] w[symmetric]
      by (auto intro!: rbind_cong traverse_cong simp: f[simplified])
  qed (simp add: bg_from_wire.simps)
next
  case (2 env f depth pool)
  show ?case
  proof (cases "depth > MAX_MIRROR_DEPTH")
    case False
    have m: "bg_from_wire env bg pool (depth + 1) = bg_from_wire env bg pool' (depth + 1)"
      if "pfa_action f = Some (PMirror (Some bg) fr)" for bg fr
      using 2 False that by (simp add: collect_filter_refs.simps[of f])
    show ?thesis
      using False unfolding filter_from_wire.simps[of env f] 
      by (auto intro!: rbind_cong simp: m[simplified] ok_or_def split: p_action.splits option.splits)
  qed (simp add: filter_from_wire.simps)
qed

lemma bg_filter_resolves:
  "bg_from_wire env dto pool depth = Inr m \<Longrightarrow> resolves pool (collect_bg_refs dto depth)"
  "filter_from_wire env f depth pool = Inr fa \<Longrightarrow> resolves pool (collect_filter_refs f depth)"
proof (induction env dto pool depth and env f depth pool arbitrary: m and fa
    rule: bg_from_wire_filter_from_wire.induct)
  case (1 env dto pool depth)
  from 1(2) have d: "\<not> depth > MAX_MIRROR_DEPTH"
    by (auto simp: bg_from_wire.simps[of env dto] split: if_splits)
  from 1(2) d obtain resolved fs where r: "traverse (resolve_weighted pool) (pbg_weighted dto) = Inr resolved"
    and f: "pbg_per_backend_filters dto \<noteq> [] \<Longrightarrow>
       traverse (\<lambda>(idx, fs). rbind (traverse (\<lambda>f. filter_from_wire env f (depth + 1) pool) fs)
         (\<lambda>filters. Inr (unat idx, filters))) (pbg_per_backend_filters dto) = Inr fs"
    by (cases "pbg_per_backend_filters dto = []")
      (auto simp: bg_from_wire.simps[of env dto] rbind_Inr_iff split: if_splits)
  have w: "resolves pool (ref_key wb)" if "wb \<in> set (pbg_weighted dto)" for wb
    using traverse_Inr_set[OF r that] resolve_weighted_resolves by blast
  have g: "resolves pool (collect_filter_refs f (depth + 1))"
    if i: "(i, gs) \<in> set (pbg_per_backend_filters dto)" and fg: "f \<in> set gs" for i gs f
  proof -
    have ne: "pbg_per_backend_filters dto \<noteq> []" using i by auto
    obtain hs where "traverse (\<lambda>f. filter_from_wire env f (depth + 1) pool) gs = Inr hs"
      using traverse_Inr_set[OF f[OF ne] i] by (auto simp: rbind_Inr_iff)
    then obtain h where "filter_from_wire env f (depth + 1) pool = Inr h"
      using traverse_Inr_set fg by fastforce
    then show ?thesis using 1(1)[OF d r ne i refl fg] by blast
  qed
  show ?case using d w g
    by (auto simp: collect_bg_refs.simps[of dto] intro!: resolves_concat_map)
next
  case (2 env f depth pool)
  show ?case
  proof (cases "\<exists>bg fr. pfa_action f = Some (PMirror (Some bg) fr) \<and> \<not> depth > MAX_MIRROR_DEPTH")
    case True
    then obtain bg fr where m: "pfa_action f = Some (PMirror (Some bg) fr)" and d: "\<not> depth > MAX_MIRROR_DEPTH"
      by blast
    obtain g where "bg_from_wire env bg pool (depth + 1) = Inr g"
      using 2(2) m d by (auto simp: filter_from_wire.simps[of env f] rbind_Inr_iff)
    then have "resolves pool (collect_bg_refs bg (depth + 1))"
      using 2(1)[OF d, of "PMirror (Some bg) fr" "Some bg" fr bg] m by simp
    then show ?thesis using m d by (simp add: collect_filter_refs.simps[of f])
  qed (auto simp: collect_filter_refs.simps[of f] split: option.splits p_action.splits)
qed

section \<open>Routes\<close>

lemma base_entry_local:
  assumes "agree pool pool' (collect_route_refs dto 0)"
  shows "build_base_entry env dto pool = build_base_entry env dto pool'"
proof -
  have b: "bg_from_wire env bg pool 0 = bg_from_wire env bg pool' 0" if "pre_backend_group dto = Some bg" for bg
    using assms that by (intro bg_filter_local) (simp add: collect_route_refs_def)
  have "traverse (\<lambda>f. filter_from_wire env f 0 pool) (pre_filters dto) =
      traverse (\<lambda>f. filter_from_wire env f 0 pool') (pre_filters dto)"
    using assms by (intro traverse_cong refl bg_filter_local)
      (auto simp: collect_route_refs_def dest: agree_concat_map)
  then show ?thesis
    using b unfolding build_base_entry_def by (cases "pre_backend_group dto") simp_all
qed

lemma base_entry_resolves:
  assumes "build_base_entry env dto pool = Inr e"
  shows "resolves pool (collect_route_refs dto 0)"
proof -
  obtain bg m fs where "pre_backend_group dto = Some bg" and b: "bg_from_wire env bg pool 0 = Inr m"
    and f: "traverse (\<lambda>f. filter_from_wire env f 0 pool) (pre_filters dto) = Inr fs"
    using assms by (auto simp: build_base_entry_def rbind_Inr_iff ok_or_Inr_iff)
  then show ?thesis
    using bg_filter_resolves(1)[OF b]
    by (auto simp: collect_route_refs_def intro!: resolves_concat_map
        dest!: traverse_Inr_set[OF f] intro: bg_filter_resolves)
qed

lemma route_entry_local:
  "agree pool pool' (collect_route_refs dto 0) \<Longrightarrow>
     route_entry_from_wire env pool dto = route_entry_from_wire env pool' dto"
  by (simp add: route_entry_from_wire_def build_route_entry_def base_entry_local)

lemma route_entry_resolves:
  "route_entry_from_wire env pool dto = Inr r \<Longrightarrow> resolves pool (collect_route_refs dto 0)"
  by (auto simp: route_entry_from_wire_def build_route_entry_def rbind_Inr_iff dest: base_entry_resolves)

definition host_refs :: "p_host_entry \<Rightarrow> endpoint_key list" where
  "host_refs he = concat (map (\<lambda>route. collect_route_refs route 0) (phe_routes he))"

lemma collect_route_host_refs_host: "prh_host rh = Some he \<Longrightarrow> collect_route_host_refs rh 0 = host_refs he"
  by (simp add: collect_route_host_refs_def host_refs_def)

lemma host_routes_local:
  "agree pool pool' (host_refs he) \<Longrightarrow>
     host_routes_from_wire env level he pool = host_routes_from_wire env level he pool'"
  unfolding host_routes_from_wire_def host_refs_def
  by (intro rbind_cong traverse_cong refl route_entry_local) (auto dest: agree_concat_map)

lemma host_routes_resolves:
  "host_routes_from_wire env level he pool = Inr f \<Longrightarrow> resolves pool (host_refs he)"
  unfolding host_refs_def
  by (intro resolves_concat_map)
    (auto simp: host_routes_from_wire_def rbind_Inr_iff dest!: traverse_Inr_set intro: route_entry_resolves)

section \<open>Layer-4 ports\<close>

lemma passthrough_port_local:
  assumes "\<And>pe. pe \<in> set ports \<Longrightarrow> agree pool pool' (passthrough_refs pe)"
  shows "passthrough_from_wire env pool ports = passthrough_from_wire env pool' ports"
proof -
  have "passthrough_entry_from_wire env pool port b e = passthrough_entry_from_wire env pool' port b e"
    if "pe \<in> set ports" "e \<in> set (ppt_entries pe)" for pe e port b
  proof (cases "ppe_backend_group e")
    case (Some bg)
    have "agree pool pool' (collect_bg_refs bg 0)"
      using assms[OF that(1)] agree_concat_map[OF _ that(2)] Some
      by (fastforce simp: passthrough_refs_def)
    from bg_filter_local(1)[OF this, of env] show ?thesis by (simp add: passthrough_entry_from_wire_def Some)
  qed (simp add: passthrough_entry_from_wire_def)
  then show ?thesis
    unfolding passthrough_from_wire_def by (intro rbind_cong fold_result_cong refl) auto
qed

lemma l4_port_local:
  assumes "\<And>pe. pe \<in> set ports \<Longrightarrow> agree pool pool' (l4_refs pe)"
  shows "tcp_table_from_wire env pool ports = tcp_table_from_wire env pool' ports"
    and "udp_table_from_wire env pool ports = udp_table_from_wire env pool' ports"
proof -
  have "l4_port_from_wire env pool field add b pe = l4_port_from_wire env pool' field add b pe"
    if "pe \<in> set ports" for pe field b and add :: "u16 \<Rightarrow> 'a l4_group \<Rightarrow> 't \<Rightarrow> 't"
    using assms[OF that] bg_filter_local(1)[of pool pool' _ 0 env]
    by (auto simp: l4_port_from_wire_def l4_refs_def intro!: rbind_cong split: option.splits)
  then show "tcp_table_from_wire env pool ports = tcp_table_from_wire env pool' ports"
    and "udp_table_from_wire env pool ports = udp_table_from_wire env pool' ports"
    unfolding tcp_table_from_wire_def udp_table_from_wire_def by (auto intro!: fold_result_cong)
qed

lemma fold_result_each:
  "fold_result f s xs = Inr t \<Longrightarrow> x \<in> set xs \<Longrightarrow> \<exists>u v. f u x = Inr v"
  by (induction xs arbitrary: s) (auto simp: rbind_Inr_iff)

lemma passthrough_resolves:
  assumes "passthrough_from_wire env pool ports = Inr t" and "pe \<in> set ports"
  shows "resolves pool (passthrough_refs pe)"
proof -
  obtain b where "fold_result (\<lambda>builder pe. rbind (narrow_u16 (ppt_port pe) ''tls_passthrough_table.ports.port'')
      (\<lambda>port. fold_result (passthrough_entry_from_wire env pool port) builder (ppt_entries pe))) [] ports = Inr b"
    using assms(1) by (auto simp: passthrough_from_wire_def rbind_Inr_iff)
  from fold_result_each[OF this assms(2)] obtain port u v
    where "fold_result (passthrough_entry_from_wire env pool port) u (ppt_entries pe) = Inr v"
    by (auto simp: rbind_Inr_iff)
  note each = fold_result_each[OF this]
  have "resolves pool (collect_bg_refs bg 0)" if "e \<in> set (ppt_entries pe)" "ppe_backend_group e = Some bg" for e bg
    using each[OF that(1)] that(2)
    by (auto simp: passthrough_entry_from_wire_def rbind_Inr_iff intro: bg_filter_resolves)
  then show ?thesis
    unfolding passthrough_refs_def by (intro resolves_concat_map) (auto split: option.split)
qed

lemma l4_resolves:
  assumes "fold_result (l4_port_from_wire env pool field add) s ports = Inr t" and "pe \<in> set ports"
  shows "resolves pool (l4_refs pe)"
  using fold_result_each[OF assms]
  by (auto simp: l4_port_from_wire_def l4_refs_def rbind_Inr_iff intro: bg_filter_resolves split: option.splits)

end
