(* ===== verification/Route_Rebuild.thy ===== *)
theory Route_Rebuild
  imports Decode_Locality
begin

text \<open>
  The partitioned rebuild of a routing table (\<open>rebuild_route_table\<close> of \<open>apply.rs\<close>): a table is viewed
  as a map from \<open>(port, host key)\<close> to compiled routers, and the rebuild, which compiles the dirty
  partitions in a throwaway table and splices the clean ones from the live table, is shown to
  produce the view that compiling every staged partition on its own would give.
\<close>

section \<open>Views\<close>

definition canonical_host :: "host_key \<Rightarrow> bool" where
  "canonical_host hk =
     (case hk of
        HostExact h \<Rightarrow> \<not> starts_with h ''*.'' | HostWildcard s _ \<Rightarrow> \<not> starts_with s ''*.'' | HostCatchall \<Rightarrow> True)"

definition wildcard_map :: "(string \<times> wildcard_kind \<times> 'h) list \<Rightarrow> ((string \<times> wildcard_kind) \<times> 'h) list" where
  "wildcard_map ws = map (\<lambda>(s, k, r). ((s, k), r)) ws"

definition port_view :: "('r, 'b, 'net) port_routing_table \<Rightarrow> host_key \<Rightarrow> ('r, 'b, 'net) host_router option" where
  "port_view pt hk =
     (case hk of
        HostExact h \<Rightarrow> map_of (pt_exact_hosts pt) h
      | HostWildcard s k \<Rightarrow> map_of (wildcard_map (pt_wildcard_hosts pt)) (s, k)
      | HostCatchall \<Rightarrow> pt_catchall pt)"

definition table_view :: "('r, 'b, 'net) routing_table \<Rightarrow> u16 \<Rightarrow> host_key \<Rightarrow> ('r, 'b, 'net) host_router option" where
  "table_view t port hk = Option.bind (map_of (rtb_by_port t) port) (\<lambda>pt. port_view pt hk)"

lemma trim_start_star_id: "\<not> starts_with s ''*.'' \<Longrightarrow> trim_start_star s = s"
  by (induction s rule: trim_start_star.induct) auto

lemma trim_start_star_wildcard [simp]: "trim_start_star (CHR ''*'' # CHR ''.'' # s) = trim_start_star s"
  by simp

lemma wildcard_map_find:
  "map_option (\<lambda>(_, _, r). r) (List.find (\<lambda>(s', k', _). s' = s \<and> k' = k) ws) = map_of (wildcard_map ws) (s, k)"
  by (induction ws) (auto simp: wildcard_map_def)

lemma get_compiled_view:
  assumes "canonical_host hk"
  shows "port_get_compiled pt (fst (host_selector hk)) (snd (host_selector hk)) = port_view pt hk"
proof (cases hk)
  case (HostWildcard s k)
  then show ?thesis
    using assms wildcard_map_find[of s k "pt_wildcard_hosts pt"]
    by (simp add: port_get_compiled_def host_selector_def port_view_def canonical_host_def trim_start_star_id)
qed (use assms in \<open>simp_all add: port_get_compiled_def host_selector_def port_view_def canonical_host_def\<close>)

lemma get_partition_view:
  "canonical_host (pk_host pk) \<Longrightarrow> get_partition t pk = table_view t (pk_port pk) (pk_host pk)"
  by (simp add: get_partition_def table_get_compiled_def table_view_def get_compiled_view split: option.split)

lemma wildcard_map_wf_sort:
  assumes "distinct (map fst (wildcard_map ws))"
  shows "map_of (wildcard_map (sort_key f ws)) = map_of (wildcard_map ws)"
    and "distinct (map fst (wildcard_map (sort_key f ws)))"
proof -
  have "mset (map fst (wildcard_map (sort_key f ws))) = mset (map fst (wildcard_map ws))"
    by (simp add: wildcard_map_def image_mset.compositionality)
  then show d: "distinct (map fst (wildcard_map (sort_key f ws)))"
    using assms mset_eq_imp_distinct_iff by blast
  show "map_of (wildcard_map (sort_key f ws)) = map_of (wildcard_map ws)"
    by (rule map_of_inject_set[THEN iffD2, OF d assms]) (simp add: wildcard_map_def)
qed

section \<open>Compiling one host\<close>

definition compile_host ::
  "('b, 'net) wire_env \<Rightarrow> ('r, ('b, 'net) route_entry list) matchit \<Rightarrow> endpoint_pool \<Rightarrow> p_host_entry
     \<Rightarrow> (('r, 'b, 'net) host_router \<times> route_conflict list) wire_result" where
  "compile_host env mt pool he =
     rbind (normalize_level_from_wire (phe_normalize_level he)) (\<lambda>level.
     rbind (host_routes_from_wire env level he pool) (\<lambda>f.
     map_sum build_error id (host_router_build mt (we_path_regex_ok env) (f host_router_builder_default))))"

definition host_key_of :: "p_host_entry \<Rightarrow> host_key option" where
  "host_key_of he =
     (case phe_pattern he of
        None \<Rightarrow> None
      | Some pat \<Rightarrow> (case host_key_from_wire pat of Inl _ \<Rightarrow> None | Inr hk \<Rightarrow> Some hk))"

definition host_builder :: "('b, 'net) wire_env \<Rightarrow> endpoint_pool \<Rightarrow> p_host_entry \<Rightarrow> ('b, 'net) host_router_builder wire_result" where
  "host_builder env pool he =
     rbind (normalize_level_from_wire (phe_normalize_level he)) (\<lambda>level.
     rbind (host_routes_from_wire env level he pool) (\<lambda>f. Inr (f host_router_builder_default)))"

lemma compile_host_builder:
  "compile_host env mt pool he =
     rbind (host_builder env pool he) (\<lambda>hb. map_sum build_error id (host_router_build mt (we_path_regex_ok env) hb))"
  by (cases "host_routes_from_wire env (projr (normalize_level_from_wire (phe_normalize_level he))) he pool")
    (simp_all add: compile_host_def host_builder_def normalize_level_from_wire_def)

lemma compile_host_local:
  "agree pool pool' (host_refs he) \<Longrightarrow> compile_host env mt pool he = compile_host env mt pool' he"
  by (simp add: compile_host_def host_routes_local)

lemma compile_host_resolves: "compile_host env mt pool he = Inr r \<Longrightarrow> resolves pool (host_refs he)"
  by (auto simp: compile_host_def rbind_Inr_iff intro: host_routes_resolves)

section \<open>The throwaway table\<close>

definition slot :: "host_key \<Rightarrow> ('r, 'b, 'net) port_table_builder \<Rightarrow> ('b, 'net) host_router_builder option" where
  "slot hk b =
     (case hk of
        HostExact h \<Rightarrow> map_of (pb_exact_hosts b) h
      | HostWildcard s k \<Rightarrow> map_of (pb_wildcard_hosts b) (s, k)
      | HostCatchall \<Rightarrow> pb_catchall b)"

definition uncompiled :: "('r, 'b, 'net) port_table_builder \<Rightarrow> bool" where
  "uncompiled b \<longleftrightarrow> pb_compiled_exact_hosts b = [] \<and> pb_compiled_wildcard_hosts b = [] \<and>
     pb_compiled_catchall b = None \<and> alist_wf (pb_wildcard_hosts b)"

lemma uncompiled_default [simp]: "uncompiled port_table_builder_default"
  by (simp add: uncompiled_def port_table_builder_default_def)

lemma slot_default [simp]: "slot hk port_table_builder_default = None"
  by (cases hk) (simp_all add: slot_def port_table_builder_default_def)

lemma host_entry_slot:
  assumes "host_entry_from_wire env he pb pool = Inr pb'" and "host_key_of he = Some hk" "canonical_host hk"
    and "slot hk pb = None" and "uncompiled pb"
  shows "\<exists>hb. host_builder env pool he = Inr hb \<and> (\<forall>hk'. slot hk' pb' = (if hk' = hk then Some hb else slot hk' pb)) \<and> uncompiled pb'"
proof -
  obtain pat where pat: "phe_pattern he = Some pat" "host_key_from_wire pat = Inr hk"
    using assms(2) by (auto simp: host_key_of_def split: option.splits sum.splits)
  obtain level where l: "normalize_level_from_wire (phe_normalize_level he) = Inr level"
    by (simp add: normalize_level_from_wire_def)
  obtain f where f: "host_routes_from_wire env level he pool = Inr f"
    using assms(1) pat l by (auto simp: host_entry_from_wire_def rbind_Inr_iff split: p_host_pattern.splits)
  have hb: "host_builder env pool he = Inr (f host_router_builder_default)"
    using l f by (simp add: host_builder_def)
  have "(\<forall>hk'. slot hk' pb' = (if hk' = hk then Some (f host_router_builder_default) else slot hk' pb)) \<and> uncompiled pb'"
  proof (cases pat)
    case (PExactHost h)
    then have "hk = HostExact h" "pb' = exact_host h f pb"
      using pat assms(1) l f by (auto simp: host_entry_from_wire_def host_key_from_wire_def split: if_splits)
    then show ?thesis using assms(4,5)
      by (auto simp: slot_def exact_host_def uncompiled_def alist_simps split: host_key.splits)
  next
    case (PWildcardHost s k)
    then obtain kind where "hk = HostWildcard s kind" "pb' = wildcard_host (''*.'' @ s) kind f pb"
      using pat assms(1) l f
      by (auto simp: host_entry_from_wire_def host_key_from_wire_def wildcard_kind_from_wire_def split: if_splits)
    then show ?thesis using assms(3,4,5)
      by (auto simp: slot_def wildcard_host_def uncompiled_def canonical_host_def trim_start_star_id alist_simps
          split: host_key.splits)
  next
    case (PCatchall c)
    then have "hk = HostCatchall" "pb' = catchall_host f pb"
      using pat assms(1) l f by (auto simp: host_entry_from_wire_def host_key_from_wire_def)
    then show ?thesis using assms(4,5)
      by (auto simp: slot_def catchall_host_def uncompiled_def split: host_key.splits)
  qed
  then show ?thesis using hb by blast
qed

lemma hosts_slot:
  assumes "fold_result (\<lambda>pb he. host_entry_from_wire env he pb pool) pb hosts = Inr pb'"
    and "\<forall>he\<in>set hosts. \<exists>hk. host_key_of he = Some hk \<and> canonical_host hk \<and> slot hk pb = None"
    and "distinct (map host_key_of hosts)" and "uncompiled pb"
  shows "uncompiled pb' \<and>
     (\<forall>he\<in>set hosts. \<exists>hb. host_builder env pool he = Inr hb \<and> slot (the (host_key_of he)) pb' = Some hb) \<and>
     (\<forall>hk. Some hk \<notin> host_key_of ` set hosts \<longrightarrow> slot hk pb' = slot hk pb)"
  using assms
proof (induction hosts arbitrary: pb)
  case (Cons he hosts)
  obtain hk where hk: "host_key_of he = Some hk" "canonical_host hk" "slot hk pb = None"
    using Cons.prems(2) by auto
  obtain pb1 where s: "host_entry_from_wire env he pb pool = Inr pb1"
    and r: "fold_result (\<lambda>pb he. host_entry_from_wire env he pb pool) pb1 hosts = Inr pb'"
    using Cons.prems(1) by (auto simp: rbind_Inr_iff)
  obtain hb where hb: "host_builder env pool he = Inr hb"
    "\<And>hk'. slot hk' pb1 = (if hk' = hk then Some hb else slot hk' pb)" "uncompiled pb1"
    using host_entry_slot[OF s hk Cons.prems(4)] by blast
  have new: "Some hk \<notin> host_key_of ` set hosts" using Cons.prems(3) hk(1) by auto
  have "\<forall>he\<in>set hosts. \<exists>hk'. host_key_of he = Some hk' \<and> canonical_host hk' \<and> slot hk' pb1 = None"
  proof
    fix x assume x: "x \<in> set hosts"
    then obtain hk' where h: "host_key_of x = Some hk'" "canonical_host hk'" "slot hk' pb = None"
      using Cons.prems(2) by auto
    then have "hk' \<noteq> hk" using new x by (metis image_eqI)
    then show "\<exists>hk'. host_key_of x = Some hk' \<and> canonical_host hk' \<and> slot hk' pb1 = None" using h hb(2) by auto
  qed
  from Cons.IH[OF r this _ hb(3)] Cons.prems(3) have ih: "uncompiled pb'"
    "\<forall>he\<in>set hosts. \<exists>hb. host_builder env pool he = Inr hb \<and> slot (the (host_key_of he)) pb' = Some hb"
    "\<forall>hk. Some hk \<notin> host_key_of ` set hosts \<longrightarrow> slot hk pb' = slot hk pb1"
    by auto
  have "slot hk pb' = Some hb" using ih(3) new hb(2) by simp
  then show ?case using ih hb hk by auto
qed auto

lemma build_hosts_each:
  "build_hosts mt regex_ok port sh hs = Inr (rs, cs) \<Longrightarrow> map_of hs k = Some hb \<Longrightarrow>
     \<exists>r cs. host_router_build mt regex_ok hb = Inr (r, cs) \<and> map_of rs k = Some r"
proof (induction hs arbitrary: rs cs)
  case (Cons h hs)
  then show ?case by (cases h) (auto split: sum.splits if_splits)
qed simp

lemma build_hosts_keys: "build_hosts mt regex_ok port sh hs = Inr (rs, cs) \<Longrightarrow> map fst rs = map fst hs"
proof (induction hs arbitrary: rs cs)
  case (Cons h hs)
  then show ?case by (cases h) (auto split: sum.splits if_splits)
qed simp

lemma wildcard_map_inv: "wildcard_map (map (\<lambda>((s, k), r). (s, k, r)) ws) = ws"
  by (induction ws) (auto simp: wildcard_map_def)

lemma port_build_view:
  assumes "port_build mt regex_ok port b = Inr (pt, cs)" and "uncompiled b" and "slot hk b = Some hb"
  shows "\<exists>r cs. host_router_build mt regex_ok hb = Inr (r, cs) \<and> port_view pt hk = Some r"
proof -
  obtain ex cs1 wi cs2 where ex: "build_hosts mt regex_ok port (\<lambda>h. h) (pb_exact_hosts b) = Inr (ex, cs1)"
    and wi: "build_hosts mt regex_ok port (\<lambda>(suffix, _). ''*.'' @ suffix) (pb_wildcard_hosts b) = Inr (wi, cs2)"
    using assms(1) by (auto simp: port_build_def split: sum.splits)
  note parts = assms(1)[unfolded port_build_def ex wi] assms(2)[unfolded uncompiled_def]
  show ?thesis
  proof (cases hk)
    case (HostExact h)
    have "pt_exact_hosts pt = ex" using parts by (auto split: sum.splits option.splits)
    then show ?thesis using build_hosts_each[OF ex, of h hb] assms(3) HostExact by (simp add: slot_def port_view_def)
  next
    case (HostWildcard s k)
    have pt: "pt_wildcard_hosts pt = sort_key wildcard_rank (map (\<lambda>((s, k), r). (s, k, r)) wi)"
      using parts by (auto split: sum.splits option.splits)
    have "distinct (map fst wi)" using parts(2) build_hosts_keys[OF wi] by (simp add: alist_wf_def)
    then have "map_of (wildcard_map (pt_wildcard_hosts pt)) = map_of wi"
      unfolding pt by (subst wildcard_map_wf_sort(1)) (simp_all add: wildcard_map_inv)
    then show ?thesis using build_hosts_each[OF wi, of "(s, k)" hb] assms(3) HostWildcard
      by (simp add: slot_def port_view_def)
  next
    case HostCatchall
    then show ?thesis using parts assms(3)
      by (auto simp: slot_def port_view_def split: sum.splits option.splits)
  qed
qed

text \<open>The ports of a table are compiled one by one.\<close>

lemma build_ports_each:
  assumes "build_ports mt regex_ok ps t = Inr t'" and "alist_wf ps"
  shows "(\<forall>p pb. map_of ps p = Some pb \<longrightarrow> (\<exists>pt cs. port_build mt regex_ok p pb = Inr (pt, cs) \<and> map_of (rtb_by_port t') p = Some pt)) \<and>
     (\<forall>p. map_of ps p = None \<longrightarrow> map_of (rtb_by_port t') p = map_of (rtb_by_port t) p)"
  using assms
proof (induction ps arbitrary: t)
  case (Cons e ps)
  obtain p pb where e: "e = (p, pb)" by force
  obtain pt cs where b: "port_build mt regex_ok p pb = Inr (pt, cs)"
    and r: "build_ports mt regex_ok ps (t\<lparr>rtb_by_port := alist_insert p pt (rtb_by_port t), rtb_conflicts := rtb_conflicts t @ cs\<rparr>) = Inr t'"
    using Cons.prems(1) by (auto simp: e split: sum.splits)
  have "map_of ps p = None" "alist_wf ps" using Cons.prems(2) by (auto simp: e alist_wf_def map_of_eq_None_iff)
  then show ?case using Cons.IH[OF r] b by (auto simp: e alist_simps)
qed simp

lemma table_build_each:
  assumes "table_build mt regex_ok b = Inr t" and "alist_wf (tb_by_port b)"
  shows "map_of (tb_by_port b) p = Some pb \<Longrightarrow> \<exists>pt cs. port_build mt regex_ok p pb = Inr (pt, cs) \<and> map_of (rtb_by_port t) p = Some pt"
    and "map_of (tb_by_port b) p = None \<Longrightarrow> map_of (rtb_by_port t) p = None"
  using build_ports_each[OF assms(1)[unfolded table_build_def] assms(2)] by auto

lemma ports_from_wire_each:
  assumes "fold_result (port_from_wire env pool) b ps = Inr b'" and "alist_wf ps"
    and "\<forall>p\<in>fst ` set ps. map_of (tb_by_port b) p = None" and "alist_wf (tb_by_port b)"
  shows "alist_wf (tb_by_port b') \<and>
     (\<forall>p hosts. map_of ps p = Some hosts \<longrightarrow> (\<exists>pb. map_of (tb_by_port b') p = Some pb \<and>
        fold_result (\<lambda>pb he. host_entry_from_wire env he pb pool) port_table_builder_default hosts = Inr pb)) \<and>
     (\<forall>p. map_of ps p = None \<longrightarrow> map_of (tb_by_port b') p = map_of (tb_by_port b) p)"
  using assms
proof (induction ps arbitrary: b)
  case (Cons e ps)
  obtain p hosts where e: "e = (p, hosts)" by force
  have none: "map_of (tb_by_port b) p = None" using Cons.prems(3) by (simp add: e)
  obtain pb where pb: "fold_result (\<lambda>pb he. host_entry_from_wire env he pb pool) port_table_builder_default hosts = Inr pb"
    and r: "fold_result (port_from_wire env pool) (for_port p (\<lambda>_. pb) b) ps = Inr b'"
    using Cons.prems(1) none by (auto simp: e port_from_wire_def[of env pool b "(p, hosts)"] rbind_Inr_iff)
  have ps: "map_of ps p = None" "p \<notin> fst ` set ps" "alist_wf ps"
    using Cons.prems(2) by (auto simp: e alist_wf_def map_of_eq_None_iff)
  have "\<forall>q\<in>fst ` set ps. map_of (tb_by_port (for_port p (\<lambda>_. pb) b)) q = None"
    using Cons.prems(3) ps(2) by (auto simp: e for_port_def alist_simps)
  moreover have "alist_wf (tb_by_port (for_port p (\<lambda>_. pb) b))" using Cons.prems(4) by (simp add: for_port_def)
  ultimately show ?case using Cons.IH[OF r ps(3)] ps(1) pb by (auto simp: e for_port_def alist_simps)
qed auto

section \<open>Grouping by port\<close>

definition push_all :: "('k \<times> 'a) list \<Rightarrow> ('k \<times> 'a list) list" where
  "push_all es = foldl (\<lambda>m (k, x). alist_upsert k [] (\<lambda>xs. xs @ [x]) m) [] es"

lemma push_all_snoc: "push_all (es @ [(k, x)]) = alist_upsert k [] (\<lambda>xs. xs @ [x]) (push_all es)"
  by (simp add: push_all_def)

lemma push_all_wf: "alist_wf (push_all es)"
proof (induction es rule: rev_induct)
  case (snoc e es)
  then show ?case by (cases e) (simp add: push_all_snoc)
qed (simp add: push_all_def)

lemma map_of_push_all:
  "map_of (push_all es) k = (let xs = map snd (filter (\<lambda>e. fst e = k) es) in if xs = [] then None else Some xs)"
proof (induction es rule: rev_induct)
  case (snoc e es)
  then show ?case by (cases e) (auto simp: push_all_snoc alist_simps Let_def split: if_splits)
qed (simp add: push_all_def)

text \<open>A well-keyed route map: one entry per key, each under the key its own message has.\<close>

definition keyed_routes :: "route_map \<Rightarrow> bool" where
  "keyed_routes routes \<longleftrightarrow> alist_wf routes \<and>
     (\<forall>(pk, rh)\<in>set routes. route_partition_key_of rh = Inr pk \<and> canonical_host (pk_host pk))"

lemma route_partition_key_host:
  "route_partition_key_of rh = Inr pk \<Longrightarrow> \<exists>he. prh_host rh = Some he \<and> host_key_of he = Some (pk_host pk)"
  by (auto simp: route_partition_key_of_def host_key_of_def rbind_Inr_iff ok_or_Inr_iff)

definition host_at :: "route_map \<Rightarrow> route_partition_key \<Rightarrow> p_host_entry option" where
  "host_at routes pk = Option.bind (map_of routes pk) prh_host"

lemma host_at_keyed:
  assumes "keyed_routes routes" "map_of routes pk = Some rh"
  shows "\<exists>he. host_at routes pk = Some he \<and> prh_host rh = Some he \<and> host_key_of he = Some (pk_host pk) \<and> canonical_host (pk_host pk)"
proof -
  have "route_partition_key_of rh = Inr pk" "canonical_host (pk_host pk)"
    using assms map_of_SomeD unfolding keyed_routes_def by fastforce+
  then show ?thesis using route_partition_key_host assms(2) by (fastforce simp: host_at_def)
qed

lemma hosts_by_port_alt:
  "hosts_by_port routes dirty = sort_key fst (push_all (List.map_filter (\<lambda>pk. map_option (Pair (pk_port pk)) (host_at routes pk)) dirty))"
  by (simp add: hosts_by_port_def push_all_def host_at_def Let_def)

lemma hosts_by_port_wf: "alist_wf (hosts_by_port routes dirty)"
proof -
  have "mset (map fst (hosts_by_port routes dirty)) =
      mset (map fst (push_all (List.map_filter (\<lambda>pk. map_option (Pair (pk_port pk)) (host_at routes pk)) dirty)))"
    by (simp add: hosts_by_port_alt)
  then show ?thesis
    using push_all_wf mset_eq_imp_distinct_iff unfolding alist_wf_def by blast
qed

lemma hosts_on_port:
  assumes "\<forall>pk\<in>set dirty. host_at routes pk = Some (h pk)"
  shows "map snd (filter (\<lambda>e. fst e = port) (List.map_filter (\<lambda>pk. map_option (Pair (pk_port pk)) (host_at routes pk)) dirty)) =
         map h (filter (\<lambda>pk. pk_port pk = port) dirty)"
  using assms by (induction dirty) (auto simp: List.map_filter_simps)

lemma map_of_hosts_by_port:
  assumes "\<forall>pk\<in>set dirty. host_at routes pk = Some (h pk)" and "pk \<in> set dirty"
  shows "map_of (hosts_by_port routes dirty) (pk_port pk) = Some (map h (filter (\<lambda>q. pk_port q = pk_port pk) dirty))"
proof -
  have "filter (\<lambda>q. pk_port q = pk_port pk) dirty \<noteq> []" using assms(2) by (auto simp: filter_empty_conv)
  then show ?thesis
    unfolding hosts_by_port_alt map_of_sort_key[OF push_all_wf] map_of_push_all hosts_on_port[OF assms(1)]
    by (simp add: Let_def)
qed

lemma fresh_table_view:
  assumes "build_route_table env mt (hosts_by_port routes dirty) pool = Inr t" and "keyed_routes routes"
    and "distinct dirty" "\<forall>pk\<in>set dirty. pk_table pk = which \<and> map_of routes pk \<noteq> None" and pk: "pk \<in> set dirty"
  shows "\<exists>he r cs. host_at routes pk = Some he \<and> compile_host env mt pool he = Inr (r, cs) \<and>
           table_view t (pk_port pk) (pk_host pk) = Some r"
proof -
  define h where "h q = the (host_at routes q)" for q
  have h: "host_at routes q = Some (h q) \<and> host_key_of (h q) = Some (pk_host q) \<and> canonical_host (pk_host q)"
    if "q \<in> set dirty" for q
    using host_at_keyed[OF assms(2)] assms(4) that by (fastforce simp: h_def)
  let ?hosts = "map h (filter (\<lambda>q. pk_port q = pk_port pk) dirty)"
  have hosts: "map_of (hosts_by_port routes dirty) (pk_port pk) = Some ?hosts"
    using map_of_hosts_by_port[of dirty routes h pk] h pk by blast
  obtain b where b: "fold_result (port_from_wire env pool) routing_table_builder_new (hosts_by_port routes dirty) = Inr b"
    and bt: "(case table_build mt (we_path_regex_ok env) b of Inl e \<Rightarrow> Inl (build_error e) | Inr t \<Rightarrow> Inr t) = Inr t"
    using assms(1) by (auto simp: build_route_table_def rbind_Inr_iff)
  have t: "table_build mt (we_path_regex_ok env) b = Inr t" using bt by (simp split: sum.splits)
  have "alist_wf (tb_by_port b)" and "\<exists>pb. map_of (tb_by_port b) (pk_port pk) = Some pb \<and>
      fold_result (\<lambda>pb he. host_entry_from_wire env he pb pool) port_table_builder_default ?hosts = Inr pb"
    using ports_from_wire_each[OF b hosts_by_port_wf] hosts by (auto simp: routing_table_builder_new_def)
  then obtain pb where wf: "alist_wf (tb_by_port b)" and pb: "map_of (tb_by_port b) (pk_port pk) = Some pb"
    and f: "fold_result (\<lambda>pb he. host_entry_from_wire env he pb pool) port_table_builder_default ?hosts = Inr pb"
    by blast
  have inj: "p = q" if "p \<in> set dirty" "q \<in> set dirty" "pk_port p = pk_port q" "host_key_of (h p) = host_key_of (h q)" for p q
    using that h assms(4) by (metis option.inject route_partition_key.equality unit.exhaust)
  have "distinct (map host_key_of ?hosts)"
    unfolding map_map by (rule distinct_map[THEN iffD2]) (use assms(3) inj in \<open>auto simp: inj_on_def\<close>)
  then obtain hb where hb: "host_builder env pool (h pk) = Inr hb" "slot (pk_host pk) pb = Some hb" and u: "uncompiled pb"
    using hosts_slot[OF f] h pk by fastforce
  obtain pt cs where pt: "port_build mt (we_path_regex_ok env) (pk_port pk) pb = Inr (pt, cs)" "map_of (rtb_by_port t) (pk_port pk) = Some pt"
    using table_build_each(1)[OF t wf pb] by blast
  obtain r cs' where "host_router_build mt (we_path_regex_ok env) hb = Inr (r, cs')" "port_view pt (pk_host pk) = Some r"
    using port_build_view[OF pt(1) u hb(2)] by blast
  then show ?thesis using h[OF pk] hb(1) pt(2) by (auto simp: compile_host_builder table_view_def)
qed

section \<open>The spliced table\<close>

definition cslot :: "host_key \<Rightarrow> ('r, 'b, 'net) port_table_builder \<Rightarrow> ('r, 'b, 'net) host_router option" where
  "cslot hk b =
     (case hk of
        HostExact h \<Rightarrow> map_of (pb_compiled_exact_hosts b) h
      | HostWildcard s k \<Rightarrow> map_of (wildcard_map (pb_compiled_wildcard_hosts b)) (s, k)
      | HostCatchall \<Rightarrow> pb_compiled_catchall b)"

definition spliced :: "('r, 'b, 'net) port_table_builder \<Rightarrow> bool" where
  "spliced b \<longleftrightarrow> pb_exact_hosts b = [] \<and> pb_wildcard_hosts b = [] \<and> pb_catchall b = None \<and>
     alist_wf (pb_compiled_exact_hosts b) \<and> alist_wf (wildcard_map (pb_compiled_wildcard_hosts b))"

lemma spliced_default [simp]: "spliced port_table_builder_default"
  by (simp add: spliced_def port_table_builder_default_def wildcard_map_def)

lemma cslot_default [simp]: "cslot hk port_table_builder_default = None"
  by (cases hk) (simp_all add: cslot_def port_table_builder_default_def wildcard_map_def)

lemma wildcard_map_append [simp]: "wildcard_map (ws @ ws') = wildcard_map ws @ wildcard_map ws'"
  by (simp add: wildcard_map_def)

lemma splice_router_cslot:
  assumes "canonical_host hk" "cslot hk pb = None" "spliced pb"
  shows "cslot hk' (splice_router (fst (host_selector hk)) (snd (host_selector hk)) r pb) =
           (if hk' = hk then Some r else cslot hk' pb) \<and>
         spliced (splice_router (fst (host_selector hk)) (snd (host_selector hk)) r pb)"
proof (cases hk)
  case (HostExact h)
  then show ?thesis using assms
    by (auto simp: splice_router_def host_selector_def canonical_host_def insert_compiled_exact_host_def cslot_def
        spliced_def alist_simps split: host_key.splits)
next
  case (HostWildcard s k)
  have "(s, k) \<notin> fst ` set (wildcard_map (pb_compiled_wildcard_hosts pb))"
    using assms(2) HostWildcard by (simp add: cslot_def map_of_eq_None_iff)
  then show ?thesis using assms HostWildcard
    by (auto simp: splice_router_def host_selector_def canonical_host_def insert_compiled_wildcard_host_def cslot_def
        spliced_def trim_start_star_id map_add_def alist_wf_def wildcard_map_def[of "[_]"]
        split: host_key.splits option.splits)
next
  case HostCatchall
  then show ?thesis using assms
    by (auto simp: splice_router_def host_selector_def insert_compiled_catchall_def cslot_def spliced_def
        split: host_key.splits)
qed

definition port_wf :: "('r, 'b, 'net) port_routing_table \<Rightarrow> bool" where
  "port_wf pt \<longleftrightarrow> alist_wf (wildcard_map (pt_wildcard_hosts pt)) \<and> sorted (map wildcard_rank (pt_wildcard_hosts pt))"

lemma map_of_rev_wf: "alist_wf m \<Longrightarrow> map_of (rev m) = map_of m"
  by (intro map_of_inject_set[THEN iffD2]) (simp_all add: alist_wf_def rev_map[symmetric])

lemma spliced_build:
  assumes "spliced pb"
  shows "\<exists>pt. port_build mt regex_ok port pb = Inr (pt, []) \<and> port_wf pt \<and> (\<forall>hk. port_view pt hk = cslot hk pb)"
proof -
  let ?pt = "\<lparr>pt_exact_hosts = foldl (\<lambda>m (h, r). alist_insert h r m) [] (pb_compiled_exact_hosts pb),
              pt_wildcard_hosts = sort_key wildcard_rank (pb_compiled_wildcard_hosts pb),
              pt_catchall = pb_compiled_catchall pb\<rparr>"
  have "port_build mt regex_ok port pb = Inr (?pt, [])"
    using assms by (simp add: port_build_def spliced_def split: option.split)
  moreover have "port_wf ?pt"
    using assms wildcard_map_wf_sort(2) by (auto simp: port_wf_def spliced_def alist_wf_def)
  moreover have "port_view ?pt hk = cslot hk pb" for hk
    using assms wildcard_map_wf_sort(1)[of "pb_compiled_wildcard_hosts pb" wildcard_rank]
    by (cases hk) (auto simp: port_view_def cslot_def spliced_def alist_wf_def map_of_foldl_insert map_of_rev_wf
        split: option.splits)
  ultimately show ?thesis by blast
qed

definition builder_view :: "('r, 'b, 'net) routing_table_builder \<Rightarrow> u16 \<Rightarrow> host_key \<Rightarrow> ('r, 'b, 'net) host_router option" where
  "builder_view b port hk = Option.bind (map_of (tb_by_port b) port) (cslot hk)"

definition spliced_builder :: "('r, 'b, 'net) routing_table_builder \<Rightarrow> bool" where
  "spliced_builder b \<longleftrightarrow> alist_wf (tb_by_port b) \<and> (\<forall>pb\<in>snd ` set (tb_by_port b). spliced pb)"

definition table_wf :: "('r, 'b, 'net) routing_table \<Rightarrow> bool" where
  "table_wf t \<longleftrightarrow> (\<forall>p pt. map_of (rtb_by_port t) p = Some pt \<longrightarrow> port_wf pt)"

lemma spliced_ports_build:
  assumes "\<forall>pb\<in>snd ` set ps. spliced pb"
  shows "\<exists>t'. build_ports mt regex_ok ps t = Inr t'"
  using assms
proof (induction ps arbitrary: t)
  case (Cons e ps)
  obtain p pb where e: "e = (p, pb)" by force
  obtain pt where "port_build mt regex_ok p pb = Inr (pt, [])" using spliced_build[of pb] Cons.prems e by force
  then show ?case using Cons by (simp add: e)
qed simp

lemma spliced_table_build:
  assumes "spliced_builder b"
  shows "\<exists>t. table_build mt regex_ok b = Inr t \<and> table_wf t \<and> table_view t = builder_view b"
proof -
  have wf: "alist_wf (tb_by_port b)" using assms by (simp add: spliced_builder_def)
  have all: "spliced pb" if "map_of (tb_by_port b) p = Some pb" for p pb
    using assms imageI[OF map_of_SomeD[OF that], of snd] by (auto simp: spliced_builder_def)
  obtain t where t: "table_build mt regex_ok b = Inr t"
    using spliced_ports_build[of "tb_by_port b" mt regex_ok] assms by (auto simp: table_build_def spliced_builder_def)
  have at: "\<exists>pt. map_of (rtb_by_port t) p = Some pt \<and> port_wf pt \<and> (\<forall>hk. port_view pt hk = cslot hk pb)"
    if pb: "map_of (tb_by_port b) p = Some pb" for p pb
  proof -
    obtain pt where b: "port_build mt regex_ok p pb = Inr (pt, [])" "port_wf pt" "\<forall>hk. port_view pt hk = cslot hk pb"
      using spliced_build[OF all[OF pb], of mt regex_ok p] by blast
    moreover have "map_of (rtb_by_port t) p = Some pt" using table_build_each(1)[OF t wf pb] b(1) by simp
    ultimately show ?thesis by blast
  qed
  have "table_view t p hk = builder_view b p hk" for p hk
  proof (cases "map_of (tb_by_port b) p")
    case None
    then show ?thesis using table_build_each(2)[OF t wf] by (simp add: table_view_def builder_view_def)
  next
    case (Some pb)
    from at[OF this] Some show ?thesis by (auto simp: table_view_def builder_view_def)
  qed
  moreover have "table_wf t"
    unfolding table_wf_def
  proof (intro allI impI)
    fix p pt assume "map_of (rtb_by_port t) p = Some pt"
    moreover from this obtain pb where "map_of (tb_by_port b) p = Some pb"
      using table_build_each(2)[OF t wf, of p] by (cases "map_of (tb_by_port b) p") auto
    ultimately show "port_wf pt" using at by fastforce
  qed
  ultimately show ?thesis using t by blast
qed

section \<open>Assembly\<close>

definition pick ::
  "route_partition_key list \<Rightarrow> ('r, 'b, 'net) routing_table option \<Rightarrow> ('r, 'b, 'net) routing_table
     \<Rightarrow> route_partition_key \<Rightarrow> ('r, 'b, 'net) host_router option" where
  "pick dirty fresh live pk =
     (if pk \<in> set dirty then Option.bind fresh (\<lambda>t. get_partition t pk) else get_partition live pk)"

lemma assemble_partition_pick:
  "assemble_partition dirty fresh live (b, rec, reu) pk =
     (case pick dirty fresh live pk of
        None \<Rightarrow> (b, rec, reu)
      | Some r \<Rightarrow>
          (for_port (pk_port pk) (splice_router (fst (host_selector (pk_host pk))) (snd (host_selector (pk_host pk))) r)
             (carry_conflicts (rtb_conflicts (if pk \<in> set dirty then the fresh else live)) (pk_port pk)
                (conflict_host_repr (fst (host_selector (pk_host pk)))) b),
           if pk \<in> set dirty then rec + 1 else rec, if pk \<in> set dirty then reu else reu + 1))"
  by (cases "host_selector (pk_host pk)")
    (auto simp: assemble_partition_def pick_def split: option.splits)

lemma pk_eq_iff: "q = pk \<longleftrightarrow> pk_table q = pk_table pk \<and> pk_port q = pk_port pk \<and> pk_host q = pk_host pk"
  for q pk :: route_partition_key
  by auto

lemma splice_step:
  assumes "spliced_builder b" "canonical_host hk" "builder_view b port hk = None"
  shows "spliced_builder (for_port port (splice_router (fst (host_selector hk)) (snd (host_selector hk)) r) (extend_conflicts cs b)) \<and>
     (\<forall>p h. builder_view (for_port port (splice_router (fst (host_selector hk)) (snd (host_selector hk)) r) (extend_conflicts cs b)) p h =
        (if p = port \<and> h = hk then Some r else builder_view b p h))"
proof -
  define pb where "pb = (case map_of (tb_by_port b) port of Some pb \<Rightarrow> pb | None \<Rightarrow> port_table_builder_default)"
  have pb: "spliced pb" "cslot hk pb = None"
    using assms(1,3) map_of_SomeD unfolding pb_def spliced_builder_def builder_view_def
    by (fastforce split: option.splits)+
  let ?f = "splice_router (fst (host_selector hk)) (snd (host_selector hk)) r"
  have cs: "cslot h (?f pb) = (if h = hk then Some r else cslot h pb)" "spliced (?f pb)" for h
    using splice_router_cslot[OF assms(2) pb(2,1)] by auto
  have m: "map_of (tb_by_port (for_port port ?f (extend_conflicts cs b))) p =
      (if p = port then Some (?f pb) else map_of (tb_by_port b) p)" for p
    by (auto simp: for_port_def extend_conflicts_def alist_simps pb_def split: option.splits)
  have wf: "alist_wf (tb_by_port (for_port port ?f (extend_conflicts cs b)))"
    using assms(1) by (simp add: for_port_def extend_conflicts_def spliced_builder_def)
  have "spliced x" if "(p, x) \<in> set (tb_by_port (for_port port ?f (extend_conflicts cs b)))" for p x
  proof -
    have "map_of (tb_by_port (for_port port ?f (extend_conflicts cs b))) p = Some x"
      using wf that by (simp add: alist_wf_def)
    then show ?thesis using m cs(2) assms(1) map_of_SomeD
      by (fastforce simp: spliced_builder_def split: if_splits)
  qed
  moreover have "builder_view (for_port port ?f (extend_conflicts cs b)) p h =
      (if p = port \<and> h = hk then Some r else builder_view b p h)" for p h
    using m cs(1) by (auto simp: builder_view_def pb_def split: option.splits)
  ultimately show ?thesis using wf by (auto simp: spliced_builder_def)
qed

definition assembled ::
  "route_table \<Rightarrow> route_partition_key list \<Rightarrow> (route_partition_key \<Rightarrow> ('r, 'b, 'net) host_router option)
     \<Rightarrow> ('r, 'b, 'net) routing_table_builder \<Rightarrow> bool" where
  "assembled which keys view b \<longleftrightarrow> spliced_builder b \<and>
     (\<forall>q. pk_table q = which \<longrightarrow> builder_view b (pk_port q) (pk_host q) = (if q \<in> set keys then view q else None))"

lemma assembled_skip: "assembled which keys view b \<Longrightarrow> view pk = None \<Longrightarrow> assembled which (keys @ [pk]) view b"
  by (auto simp: assembled_def)

lemma assembled_splice:
  assumes "assembled which keys view b" "view pk = Some r" "pk_table pk = which" "canonical_host (pk_host pk)" "pk \<notin> set keys"
  shows "assembled which (keys @ [pk]) view
     (for_port (pk_port pk) (splice_router (fst (host_selector (pk_host pk))) (snd (host_selector (pk_host pk))) r) (extend_conflicts cs b))"
proof -
  have "spliced_builder b" "builder_view b (pk_port pk) (pk_host pk) = None"
    using assms(1,3,5) by (auto simp: assembled_def)
  note one = splice_step[OF this(1) assms(4) this(2), of r cs]
  let ?b = "for_port (pk_port pk) (splice_router (fst (host_selector (pk_host pk))) (snd (host_selector (pk_host pk))) r) (extend_conflicts cs b)"
  have "builder_view ?b (pk_port q) (pk_host q) = (if q \<in> set (keys @ [pk]) then view q else None)"
    if q: "pk_table q = which" for q
  proof (cases "q = pk")
    case False
    then have "\<not> (pk_port q = pk_port pk \<and> pk_host q = pk_host pk)" using q assms(3) by (simp add: pk_eq_iff[of q pk])
    then have "builder_view ?b (pk_port q) (pk_host q) = builder_view b (pk_port q) (pk_host q)" using one by metis
    then show ?thesis using False assms(1) q by (simp add: assembled_def)
  qed (use one assms(2) in simp)
  then show ?thesis using one unfolding assembled_def by blast
qed

lemma assembly_view:
  assumes "\<forall>pk\<in>set keys. pk_table pk = which \<and> canonical_host (pk_host pk)" and "distinct keys"
    and "foldl (assemble_partition dirty fresh live) (routing_table_builder_new, 0, 0) keys = (b, rec, reu)"
  shows "assembled which keys (pick dirty fresh live) b"
  using assms
proof (induction keys arbitrary: b rec reu rule: rev_induct)
  case Nil
  then show ?case by (auto simp: assembled_def spliced_builder_def builder_view_def routing_table_builder_new_def)
next
  case (snoc pk keys)
  obtain b0 rec0 reu0 where f: "foldl (assemble_partition dirty fresh live) (routing_table_builder_new, 0, 0) keys = (b0, rec0, reu0)"
    by (metis prod_cases3)
  have ih: "assembled which keys (pick dirty fresh live) b0" using snoc.IH[OF _ _ f] snoc.prems by auto
  have step: "assemble_partition dirty fresh live (b0, rec0, reu0) pk = (b, rec, reu)"
    using snoc.prems(3) f by simp
  show ?case
  proof (cases "pick dirty fresh live pk")
    case None
    then show ?thesis using assembled_skip[OF ih] step by (simp add: assemble_partition_pick)
  next
    case (Some r)
    then show ?thesis using assembled_splice[OF ih Some] snoc.prems step
      by (auto simp: assemble_partition_pick carry_conflicts_def)
  qed
qed

lemma assembly_counts:
  assumes "foldl (assemble_partition dirty fresh live) (b0, m, n) keys = (b, rec, reu)"
  shows "rec = m + length (filter (\<lambda>pk. pk \<in> set dirty \<and> pick dirty fresh live pk \<noteq> None) keys) \<and>
     reu = n + length (filter (\<lambda>pk. pk \<notin> set dirty \<and> pick dirty fresh live pk \<noteq> None) keys)"
  using assms
proof (induction keys arbitrary: b0 m n)
  case (Cons pk keys)
  show ?case
    using Cons.prems
    by (cases "pick dirty fresh live pk"; cases "pk \<in> set dirty")
      (auto simp: assemble_partition_pick dest!: Cons.IH)
qed simp

section \<open>The rebuild\<close>

text \<open>What a table should serve: each partition compiled on its own against the endpoint pool.\<close>

definition served ::
  "('b, 'net) wire_env \<Rightarrow> ('r, ('b, 'net) route_entry list) matchit \<Rightarrow> endpoint_pool \<Rightarrow> route_map
     \<Rightarrow> route_partition_key \<Rightarrow> ('r, 'b, 'net) host_router option" where
  "served env mt pool routes pk =
     Option.bind (host_at routes pk) (\<lambda>he.
       case compile_host env mt pool he of Inl _ \<Rightarrow> None | Inr (r, _) \<Rightarrow> Some r)"

definition serves ::
  "('b, 'net) wire_env \<Rightarrow> ('r, ('b, 'net) route_entry list) matchit \<Rightarrow> endpoint_pool \<Rightarrow> route_map
     \<Rightarrow> route_table \<Rightarrow> ('r, 'b, 'net) routing_table \<Rightarrow> bool" where
  "serves env mt pool routes which t \<longleftrightarrow> table_wf t \<and>
     (\<forall>pk. pk_table pk = which \<longrightarrow>
        table_view t (pk_port pk) (pk_host pk) = served env mt pool routes pk \<and>
        (map_of routes pk \<noteq> None \<longrightarrow> served env mt pool routes pk \<noteq> None))"

lemma served_None: "map_of routes pk = None \<Longrightarrow> served env mt pool routes pk = None"
  by (simp add: served_def host_at_def)

lemma dirty_partitions_iff:
  assumes "alist_wf routes"
  shows "pk \<in> set (dirty_partitions which routes committed ep_dirty live) \<longleftrightarrow>
     pk_table pk = which \<and> map_of routes pk \<noteq> None \<and>
     (map_of committed pk \<noteq> map_of routes pk \<or> pk \<in> set ep_dirty \<or> get_partition live pk = None)"
proof -
  let ?P = "\<lambda>dto. pk_table pk = which \<and> (map_of committed pk \<noteq> Some dto \<or> pk \<in> set ep_dirty \<or> get_partition live pk = None)"
  have "pk \<in> set (dirty_partitions which routes committed ep_dirty live) \<longleftrightarrow> (\<exists>dto. (pk, dto) \<in> set routes \<and> ?P dto)"
    by (simp add: dirty_partitions_def image_iff split_paired_Bex_Sigma Bex_def)
  also have "\<dots> \<longleftrightarrow> (\<exists>dto. map_of routes pk = Some dto \<and> ?P dto)"
    using assms by (simp add: alist_wf_def)
  finally show ?thesis by (cases "map_of routes pk") simp_all
qed

lemma dirty_partitions_distinct:
  "alist_wf routes \<Longrightarrow> distinct (dirty_partitions which routes committed ep_dirty live)"
  unfolding dirty_partitions_def alist_wf_def by (rule distinct_map_filter)

lemma rebuild_cases:
  assumes "rebuild_route_table env mt which routes committed ep_dirty live pool = Inr rr"
    and "dirty = dirty_partitions which routes committed ep_dirty live"
    and "keys = filter (\<lambda>pk. pk_table pk = which) (map fst routes)"
    and "\<not> (dirty = [] \<and> \<not> list_ex (\<lambda>pk. pk_table pk = which \<and> map_of routes pk = None) (map fst committed))"
  shows "\<exists>fr b m n t. (if dirty = [] then Inr None
          else rmap Some (build_route_table env mt (hosts_by_port routes dirty) pool)) = Inr fr \<and>
       foldl (assemble_partition dirty fr live) (routing_table_builder_new, 0, 0) keys = (b, m, n) \<and>
       table_build mt (we_path_regex_ok env) b = Inr t \<and> rr = \<lparr>rr_table = Some t, rr_recompiled = m, rr_reused = n\<rparr>"
proof -
  obtain fr where fr: "(if dirty = [] then Inr None
          else rmap Some (build_route_table env mt (hosts_by_port routes dirty) pool)) = Inr fr"
    and f: "(case foldl (assemble_partition dirty fr live) (routing_table_builder_new, 0, 0) keys of
             (builder, recompiled, reused) \<Rightarrow>
               (case table_build mt (we_path_regex_ok env) builder of
                  Inl e \<Rightarrow> Inl (build_error e)
                | Inr t \<Rightarrow> Inr \<lparr>rr_table = Some t, rr_recompiled = recompiled, rr_reused = reused\<rparr>)) = Inr rr"
    using assms(1,4) unfolding rebuild_route_table_def Let_def assms(2,3)[symmetric] if_not_P[OF assms(4)] rbind_Inr_iff
    by blast
  obtain b m n where k: "foldl (assemble_partition dirty fr live) (routing_table_builder_new, 0, 0) keys = (b, m, n)"
    by (metis prod_cases3)
  show ?thesis using fr f k by (cases "table_build mt (we_path_regex_ok env) b") auto
qed

text \<open>
  The situation of a rebuild: the staged routes sit under their keys, the live table serves the
  committed ones, and a partition that is neither changed nor marked refers to unchanged endpoints.
\<close>

definition rebuild_from ::
  "('b, 'net) wire_env \<Rightarrow> ('r, ('b, 'net) route_entry list) matchit \<Rightarrow> route_table \<Rightarrow> endpoint_pool \<Rightarrow> endpoint_pool
     \<Rightarrow> route_map \<Rightarrow> route_map \<Rightarrow> route_partition_key list \<Rightarrow> ('r, 'b, 'net) routing_table \<Rightarrow> bool" where
  "rebuild_from env mt which pool0 pool routes committed ep_dirty live \<longleftrightarrow>
     keyed_routes routes \<and> serves env mt pool0 committed which live \<and>
     (\<forall>pk rh. map_of routes pk = Some rh \<longrightarrow> map_of committed pk = Some rh \<longrightarrow> pk \<notin> set ep_dirty \<longrightarrow>
        agree pool0 pool (collect_route_host_refs rh 0))"

lemma rebuild_from_keyed:
  assumes "rebuild_from env mt which pool0 pool routes committed ep_dirty live"
  shows "keyed_routes routes" "alist_wf routes" "map_of routes pk \<noteq> None \<Longrightarrow> canonical_host (pk_host pk)"
proof -
  show k: "keyed_routes routes" using assms by (simp add: rebuild_from_def)
  then show "alist_wf routes" by (simp add: keyed_routes_def)
  show "map_of routes pk \<noteq> None \<Longrightarrow> canonical_host (pk_host pk)" using host_at_keyed[OF k] by fastforce
qed

lemma rebuild_clean:
  assumes rf: "rebuild_from env mt which pool0 pool routes committed ep_dirty live"
    and pk: "pk \<notin> set (dirty_partitions which routes committed ep_dirty live)" "pk_table pk = which" "map_of routes pk = Some rh"
  shows "get_partition live pk = served env mt pool routes pk \<and> served env mt pool routes pk \<noteq> None"
proof -
  note k = rebuild_from_keyed[OF rf]
  have c: "map_of committed pk = Some rh" "pk \<notin> set ep_dirty" "get_partition live pk \<noteq> None"
    using pk by (auto simp: dirty_partitions_iff[OF k(2)])
  obtain he where he: "host_at routes pk = Some he" "prh_host rh = Some he"
    using host_at_keyed[OF k(1) pk(3)] by blast
  have "agree pool0 pool (collect_route_host_refs rh 0)"
    using rf pk(3) c(1,2) unfolding rebuild_from_def by blast
  then have "agree pool0 pool (host_refs he)" unfolding collect_route_host_refs_host[OF he(2)] .
  then have "served env mt pool0 committed pk = served env mt pool routes pk"
    using he c(1) by (simp add: served_def host_at_def compile_host_local)
  moreover have "table_view live (pk_port pk) (pk_host pk) = served env mt pool0 committed pk"
    using rf pk(2) by (simp add: rebuild_from_def serves_def)
  ultimately show ?thesis using c(3) get_partition_view[OF k(3), of pk live] pk(3) by simp
qed

lemma rebuild_fresh:
  assumes rf: "rebuild_from env mt which pool0 pool routes committed ep_dirty live"
    and t: "build_route_table env mt (hosts_by_port routes (dirty_partitions which routes committed ep_dirty live)) pool = Inr t"
    and pk: "pk \<in> set (dirty_partitions which routes committed ep_dirty live)"
  shows "get_partition t pk = served env mt pool routes pk \<and> served env mt pool routes pk \<noteq> None"
proof -
  note k = rebuild_from_keyed[OF rf]
  have "distinct (dirty_partitions which routes committed ep_dirty live)"
    "\<forall>pk\<in>set (dirty_partitions which routes committed ep_dirty live). pk_table pk = which \<and> map_of routes pk \<noteq> None"
    using dirty_partitions_distinct[OF k(2)] by (auto simp: dirty_partitions_iff[OF k(2)])
  from fresh_table_view[OF t k(1) this pk] show ?thesis
    using get_partition_view[OF k(3), of pk t] pk by (auto simp: served_def dirty_partitions_iff[OF k(2)])
qed

lemma rebuild_pick:
  assumes rf: "rebuild_from env mt which pool0 pool routes committed ep_dirty live"
    and d: "dirty = dirty_partitions which routes committed ep_dirty live"
    and fr: "(if dirty = [] then Inr None else rmap Some (build_route_table env mt (hosts_by_port routes dirty) pool)) = Inr fr"
    and pk: "pk_table pk = which" "map_of routes pk \<noteq> None"
  shows "pick dirty fr live pk = served env mt pool routes pk \<and> served env mt pool routes pk \<noteq> None"
  using fr rebuild_fresh[OF rf, of _ pk] rebuild_clean[OF rf _ pk(1)] pk(2)
  by (auto simp: pick_def rmap_Inr_iff d split: if_splits)

lemma rebuild_unchanged:
  assumes rf: "rebuild_from env mt which pool0 pool routes committed ep_dirty live"
    and nil: "dirty_partitions which routes committed ep_dirty live = []"
    and rem: "\<not> list_ex (\<lambda>pk. pk_table pk = which \<and> map_of routes pk = None) (map fst committed)"
  shows "serves env mt pool routes which live"
proof -
  have live: "serves env mt pool0 committed which live" using rf by (simp add: rebuild_from_def)
  have gone: "map_of committed pk = None" if "map_of routes pk = None" "pk_table pk = which" for pk
    using rem that by (auto simp: list_ex_iff map_of_eq_None_iff)
  have "table_view live (pk_port pk) (pk_host pk) = served env mt pool routes pk \<and>
      (map_of routes pk \<noteq> None \<longrightarrow> served env mt pool routes pk \<noteq> None)" if pk: "pk_table pk = which" for pk
  proof (cases "map_of routes pk")
    case None
    then show ?thesis using live pk gone by (simp add: serves_def served_None)
  next
    case (Some rh)
    then show ?thesis
      using rebuild_clean[OF rf _ pk Some] nil get_partition_view[OF rebuild_from_keyed(3)[OF rf], of pk live] by simp
  qed
  then show ?thesis using live unfolding serves_def by blast
qed

lemma assembled_serves:
  assumes as: "assembled which (filter (\<lambda>pk. pk_table pk = which) (map fst routes)) view b"
    and t: "table_build mt regex_ok b = Inr t"
    and view: "\<And>pk. pk_table pk = which \<Longrightarrow> map_of routes pk \<noteq> None \<Longrightarrow>
                 view pk = served env mt pool routes pk \<and> served env mt pool routes pk \<noteq> None"
  shows "serves env mt pool routes which t"
proof -
  obtain t' where "table_build mt regex_ok b = Inr t'" "table_wf t'" "table_view t' = builder_view b"
    using spliced_table_build as unfolding assembled_def by blast
  then have tv: "table_wf t" "table_view t = builder_view b" using t by simp_all
  have "table_view t (pk_port pk) (pk_host pk) = served env mt pool routes pk \<and>
      (map_of routes pk \<noteq> None \<longrightarrow> served env mt pool routes pk \<noteq> None)" if pk: "pk_table pk = which" for pk
  proof (cases "map_of routes pk")
    case None
    then have "pk \<notin> set (filter (\<lambda>pk. pk_table pk = which) (map fst routes))" by (simp add: map_of_eq_None_iff)
    then show ?thesis using as pk None by (simp add: tv(2) assembled_def served_None)
  next
    case (Some rh)
    then have "pk \<in> set (filter (\<lambda>pk. pk_table pk = which) (map fst routes))" using pk map_of_SomeD[OF Some] by force
    then show ?thesis using as pk view[OF pk] Some by (simp add: tv(2) assembled_def)
  qed
  then show ?thesis using tv(1) by (simp add: serves_def)
qed

lemma rebuild_serves:
  assumes r: "rebuild_route_table env mt which routes committed ep_dirty live pool = Inr rr"
    and rf: "rebuild_from env mt which pool0 pool routes committed ep_dirty live"
  shows "serves env mt pool routes which (or_live (rr_table rr) live)"
proof -
  define dirty where "dirty = dirty_partitions which routes committed ep_dirty live"
  define keys where "keys = filter (\<lambda>pk. pk_table pk = which) (map fst routes)"
  note k = rebuild_from_keyed[OF rf]
  show ?thesis
  proof (cases "dirty = [] \<and> \<not> list_ex (\<lambda>pk. pk_table pk = which \<and> map_of routes pk = None) (map fst committed)")
    case True
    then have "or_live (rr_table rr) live = live"
      using r by (auto simp: rebuild_route_table_def Let_def dirty_def or_live_def)
    then show ?thesis using rebuild_unchanged[OF rf] True by (simp add: dirty_def)
  next
    case False
    have keys: "distinct keys" "\<forall>pk\<in>set keys. pk_table pk = which \<and> canonical_host (pk_host pk)"
      using k(2,3) by (auto simp: keys_def alist_wf_def map_of_eq_None_iff)
    obtain fr b m n t where fr: "(if dirty = [] then Inr None
          else rmap Some (build_route_table env mt (hosts_by_port routes dirty) pool)) = Inr fr"
      and f: "foldl (assemble_partition dirty fr live) (routing_table_builder_new, 0, 0) keys = (b, m, n)"
      and t: "table_build mt (we_path_regex_ok env) b = Inr t" "rr_table rr = Some t"
      using rebuild_cases[OF r dirty_def keys_def False] by auto
    have "serves env mt pool routes which t"
      by (rule assembled_serves[OF assembly_view[OF keys(2,1) f, unfolded keys_def] t(1) rebuild_pick[OF rf dirty_def fr]])
    then show ?thesis using t(2) by (simp add: or_live_def)
  qed
qed

text \<open>Exactly the dirty partitions are recompiled; a rebuilt table reuses every other one.\<close>

lemma rebuild_counts:
  assumes r: "rebuild_route_table env mt which routes committed ep_dirty live pool = Inr rr"
    and rf: "rebuild_from env mt which pool0 pool routes committed ep_dirty live"
  shows "rr_recompiled rr = length (dirty_partitions which routes committed ep_dirty live)"
    and "rr_table rr \<noteq> None \<Longrightarrow>
      rr_recompiled rr + rr_reused rr = length (filter (\<lambda>pk. pk_table pk = which) (map fst routes))"
proof -
  define dirty where "dirty = dirty_partitions which routes committed ep_dirty live"
  define keys where "keys = filter (\<lambda>pk. pk_table pk = which) (map fst routes)"
  note k = rebuild_from_keyed[OF rf]
  have "rr_recompiled rr = length dirty \<and> (rr_table rr \<noteq> None \<longrightarrow> rr_recompiled rr + rr_reused rr = length keys)"
  proof (cases "dirty = [] \<and> \<not> list_ex (\<lambda>pk. pk_table pk = which \<and> map_of routes pk = None) (map fst committed)")
    case True
    then show ?thesis using r by (auto simp: rebuild_route_table_def Let_def dirty_def)
  next
    case False
    obtain fr b m n t where fr: "(if dirty = [] then Inr None
          else rmap Some (build_route_table env mt (hosts_by_port routes dirty) pool)) = Inr fr"
      and f: "foldl (assemble_partition dirty fr live) (routing_table_builder_new, 0, 0) keys = (b, m, n)"
      and rr: "rr = \<lparr>rr_table = Some t, rr_recompiled = m, rr_reused = n\<rparr>"
      using rebuild_cases[OF r dirty_def keys_def False] by blast
    have "pick dirty fr live pk \<noteq> None" if "pk \<in> set keys" for pk
      using rebuild_pick[OF rf dirty_def fr, of pk] that by (auto simp: keys_def map_of_eq_None_iff)
    then have m: "m = length (filter (\<lambda>pk. pk \<in> set dirty) keys)" and n: "n = length (filter (\<lambda>pk. pk \<notin> set dirty) keys)"
      using assembly_counts[OF f] by (auto cong: filter_cong)
    have "pk \<in> set keys" if "pk \<in> set dirty" for pk
      using that[unfolded dirty_def dirty_partitions_iff[OF k(2)]] by (simp add: keys_def map_of_eq_None_iff)
    then have "set (filter (\<lambda>pk. pk \<in> set dirty) keys) = set dirty" by auto
    moreover have "distinct dirty" "distinct keys"
      using k(2) dirty_partitions_distinct[OF k(2)] by (simp_all add: dirty_def keys_def alist_wf_def)
    ultimately have "length (filter (\<lambda>pk. pk \<in> set dirty) keys) = length dirty"
      by (metis distinct_card distinct_filter)
    then show ?thesis using m n sum_length_filter_compl[of "\<lambda>pk. pk \<in> set dirty" keys] by (simp add: rr)
  qed
  then show "rr_recompiled rr = length (dirty_partitions which routes committed ep_dirty live)"
    and "rr_table rr \<noteq> None \<Longrightarrow> rr_recompiled rr + rr_reused rr = length (filter (\<lambda>pk. pk_table pk = which) (map fst routes))"
    by (simp_all add: dirty_def keys_def)
qed

end
