(* ===== verification/Tls_Transport.thy ===== *)
theory Tls_Transport
  imports Route_Rebuild
begin

text \<open>
  TLS material between the controller and the data plane: what the encoders of
  \<open>crates/coxswain-discovery/src/wire/tls.rs\<close> send is decoded into stores that answer every
  lookup as the controller's stores do.
\<close>

section \<open>Client-certificate requirements\<close>

lemma client_cert_state_round_trip [simp]: "client_cert_state_from_wire (client_cert_state_to_wire s) = s"
  by (cases s) (simp_all add: client_cert_state_from_wire_def client_cert_state_to_wire_def client_cert_config_new_def
      with_insecure_fallback_def)

lemma ucast_u16 [simp]: "ucast (ucast (p :: u16) :: u32) = p" "(ucast (p :: u16) :: u32) \<le> 65535"
proof -
  show "ucast (ucast p :: u32) = p" by transfer (simp add: min_def)
  show "(ucast p :: u32) \<le> 65535" using uint_lt2p[of p] by (simp add: word_le_def uint_up_ucast is_up)
qed

lemma narrow_ucast [simp]: "narrow_u16 (ucast (p :: u16)) field = Inr p"
  by (simp add: narrow_u16_def u16_try_from_def)

text \<open>The patterns a port's configurations are sent under, in the order they are sent.\<close>

definition sent_patterns :: "host_client_cert_configs \<Rightarrow> (string \<times> client_cert_config_state) list" where
  "sent_patterns m =
     sort_key fst (hcc_exact m @ map (\<lambda>(suffix, s). (''*.'' @ suffix, s)) (hcc_wildcard m)) @
     (case hcc_default m of Some s \<Rightarrow> [([], s)] | None \<Rightarrow> [])"

lemma client_cert_entries_decoded:
  "fold_result client_cert_entry_from_wire b (client_cert_port_entries port m) =
     Inr (foldl (\<lambda>b (p, c). add_client_cert port p c b) b (sent_patterns m))"
proof -
  let ?mk = "\<lambda>(p, s). \<lparr>pcl_host_pattern = p, pcl_state = Some (client_cert_state_to_wire s), pcl_entry_port = ucast port\<rparr>"
  have "client_cert_port_entries port m = map ?mk (sent_patterns m)"
    by (simp add: client_cert_port_entries_def sent_patterns_def split: option.split)
  moreover have "fold_result client_cert_entry_from_wire b (map ?mk l) = Inr (foldl (\<lambda>b (p, c). add_client_cert port p c b) b l)" for l
    by (induction l arbitrary: b) (auto simp: client_cert_entry_from_wire_def ok_or_def)
  ultimately show ?thesis by simp
qed


definition sent_configs :: "client_cert_store \<Rightarrow> (u16 \<times> string \<times> client_cert_config_state) list" where
  "sent_configs s = concat (map (\<lambda>(port, m). map (Pair port) (sent_patterns m)) s)"

lemma client_cert_store_decoded:
  "client_cert_from_wire (concat (map (\<lambda>(port, m). client_cert_port_entries port m) s)) =
     Inr (client_cert_store_build (register_configs (sent_configs s)))"
proof -
  have one: "foldl (\<lambda>b (port, p, c). add_client_cert port p c b) b (map (Pair port) l) =
      foldl (\<lambda>b (p, c). add_client_cert port p c b) b l" for port l b
    by (induction l arbitrary: b) auto
  have "fold_result client_cert_entry_from_wire b (concat (map (\<lambda>(port, m). client_cert_port_entries port m) s)) =
      Inr (foldl (\<lambda>b (port, p, c). add_client_cert port p c b) b (sent_configs s))" for b
  proof (induction s arbitrary: b)
    case (Cons e s)
    then show ?case by (cases e) (simp add: fold_result_append client_cert_entries_decoded sent_configs_def one)
  qed (simp add: sent_configs_def)
  then show ?thesis by (simp add: client_cert_from_wire_def register_configs_def)
qed

lemma on_port_sent: "alist_wf s \<Longrightarrow> on_port port (sent_configs s) = (case map_of s port of Some m \<Rightarrow> sent_patterns m | None \<Rightarrow> [])"
proof (induction s)
  case (Cons e s)
  obtain p m where e: "e = (p, m)" by force
  have "on_port port (map (Pair p) l) = (if p = port then l else [])" for l by (induction l) (auto simp: on_port_def)
  moreover have "on_port port (xs @ ys) = on_port port xs @ on_port port ys" for xs ys :: "(u16 \<times> string \<times> client_cert_config_state) list"
    by (simp add: on_port_def)
  moreover have "port \<notin> fst ` set s \<Longrightarrow> map_of s port = None" by (simp add: map_of_eq_None_iff)
  ultimately show ?case using Cons by (auto simp: e sent_configs_def alist_wf_def split: option.splits)
qed (simp add: sent_configs_def on_port_def)

text \<open>What the builder guarantees of a port's configurations: patterns are unique and exact names are exact.\<close>

definition configs_ok :: "host_client_cert_configs \<Rightarrow> bool" where
  "configs_ok m \<longleftrightarrow> alist_wf (hcc_exact m) \<and> alist_wf (hcc_wildcard m) \<and>
     (\<forall>h\<in>set (map fst (hcc_exact m)). \<not> is_default h \<and> \<not> starts_with h ''*.'')"

lemma map_of_keys_iff: "map_of m k \<noteq> None \<longleftrightarrow> k \<in> set (map fst m)"
  by (simp add: map_of_eq_None_iff)

lemma exact_names: "configs_ok m \<Longrightarrow> map_of (hcc_exact m) h = Some v \<Longrightarrow> \<not> is_default h \<and> \<not> starts_with h ''*.''"
  by (drule map_of_SomeD) (force simp: configs_ok_def)

lemma alist_wf_sort_key [simp]: "alist_wf (sort_key f m) \<longleftrightarrow> alist_wf m"
proof -
  have "mset (map fst (sort_key f m)) = mset (map fst m)" by (simp only: mset_map mset_sort)
  from mset_eq_imp_distinct_iff[OF this] show ?thesis by (simp only: alist_wf_def)
qed

lemma sent_patterns_wf: "configs_ok m \<Longrightarrow> alist_wf (sent_patterns m)"
proof -
  assume ok: "configs_ok m"
  let ?l = "hcc_exact m @ map (\<lambda>(suffix, s). (''*.'' @ suffix, s)) (hcc_wildcard m)"
  have w: "map fst (map (\<lambda>(suffix, s). (''*.'' @ suffix, s)) (hcc_wildcard m)) = map ((@) ''*.'') (map fst (hcc_wildcard m))" by auto
  have "distinct (map fst ?l)"
    using ok unfolding map_append w
    by (auto simp: configs_ok_def alist_wf_def distinct_map starts_with_iff inj_on_def)
  moreover have "mset (map fst (sort_key fst ?l)) = mset (map fst ?l)" by (simp only: mset_map mset_sort)
  ultimately have "distinct (map fst (sort_key fst ?l))" using mset_eq_imp_distinct_iff by blast
  moreover have "[] \<notin> set (map fst (sort_key fst ?l))" using ok by (force simp: configs_ok_def is_default_def)
  ultimately show ?thesis by (simp add: alist_wf_def sent_patterns_def split: option.split)
qed


lemma map_of_prefixed: "map_of (map (\<lambda>(k, v). (pre @ k, v)) m) (pre @ k) = map_of m k"
  by (induction m) auto

lemma map_of_prefixed_None: "\<not> starts_with h pre \<Longrightarrow> map_of (map (\<lambda>(k, v). (pre @ k, v)) m) h = None"
  by (induction m) (auto simp: starts_with_iff)

lemma sent_lookup:
  assumes ok: "configs_ok m"
  shows "\<not> is_default h \<Longrightarrow> \<not> starts_with h ''*.'' \<Longrightarrow> map_of (sent_patterns m) h = map_of (hcc_exact m) h"
    and "map_of (sent_patterns m) (''*.'' @ d) = map_of (hcc_wildcard m) d"
    and "map_option snd (List.find (\<lambda>(p, _). is_default p) (rev (sent_patterns m))) = hcc_default m"
proof -
  let ?w = "map (\<lambda>(suffix, s). (''*.'' @ suffix, s)) (hcc_wildcard m)"
  let ?l = "hcc_exact m @ ?w"
  let ?d = "case hcc_default m of Some s \<Rightarrow> [([], s)] | None \<Rightarrow> []"
  have wf: "alist_wf (sort_key fst ?l @ ?d)" using sent_patterns_wf[OF ok] by (simp only: sent_patterns_def)
  have "mset (map fst (sort_key fst ?l)) = mset (map fst ?l)" by (simp only: mset_map mset_sort)
  from mset_eq_imp_distinct_iff[OF this] have "alist_wf ?l"
    using wf unfolding alist_wf_def map_append[of fst "sort_key fst ?l"] distinct_append by (elim conjE) (rule iffD1)
  then have l: "map_of (sort_key fst ?l) = map_of ?l" by (rule map_of_sort_key)
  have s: "map_of (sent_patterns m) k = (case map_of (hcc_exact m) k of Some v \<Rightarrow> Some v | None \<Rightarrow> map_of ?w k)"
    if "k \<noteq> []" for k
    unfolding sent_patterns_def map_of_append l map_add_def by (cases "hcc_default m") (simp_all add: that split: option.split)
  show "map_of (sent_patterns m) h = map_of (hcc_exact m) h" if h: "\<not> is_default h" "\<not> starts_with h ''*.''"
  proof -
    have "h \<noteq> []" using h(1) by (simp add: is_default_def)
    then show ?thesis unfolding s[OF \<open>h \<noteq> []\<close>] map_of_prefixed_None[OF h(2)] by (simp split: option.split)
  qed
  have x: "map_of (hcc_exact m) (''*.'' @ d) = None"
    using exact_names[OF ok] by (cases "map_of (hcc_exact m) (''*.'' @ d)") (auto simp: starts_with_iff)
  show "map_of (sent_patterns m) (''*.'' @ d) = map_of (hcc_wildcard m) d"
    using s[of "''*.'' @ d"] unfolding x map_of_prefixed by simp
  have "List.find (\<lambda>(p, _). is_default p) (rev (sort_key fst ?l)) = None"
    using ok by (auto simp: find_None_iff configs_ok_def is_default_def)
  then show "map_option snd (List.find (\<lambda>(p, _). is_default p) (rev (sent_patterns m))) = hcc_default m"
    unfolding sent_patterns_def by (cases "hcc_default m") (simp_all add: is_default_def)
qed


lemma sent_configs_lookup:
  assumes wf: "alist_wf s" and ok: "\<And>port m. map_of s port = Some m \<Longrightarrow> configs_ok m"
  shows "find_config (client_cert_store_build (register_configs (sent_configs s))) port h = find_config s port h"
proof (cases "map_of s port")
  case None
  then show ?thesis
    unfolding find_config_by_pattern Let_def on_port_sent[OF wf] by (cases "parent_name h") (simp_all add: find_config_def)
next
  case (Some m)
  note l = sent_lookup[OF ok[OF Some]]
  have rev: "map_of (rev (sent_patterns m)) = map_of (sent_patterns m)" by (rule map_of_rev_wf[OF sent_patterns_wf[OF ok[OF Some]]])
  have own: "(if is_default h \<or> starts_with h ''*.'' then None else map_of (sent_patterns m) h) = map_of (hcc_exact m) h"
    using l(1)[of h] exact_names[OF ok[OF Some]] by (cases "map_of (hcc_exact m) h") auto
  have "find_config s port h = host_find_config m h" by (simp add: find_config_def Some)
  also have "\<dots> = find_config (client_cert_store_build (register_configs (sent_configs s))) port h"
    unfolding find_config_by_pattern Let_def on_port_sent[OF wf] Some option.case rev l(2,3) own mtls.lookup_by_name ..
  finally show ?thesis ..
qed

lemma built_configs_ok:
  "alist_wf (client_cert_store_build (register_configs rs))"
  "map_of (client_cert_store_build (register_configs rs)) port = Some m \<Longrightarrow> configs_ok m"
proof -
  have "alist_wf (register_configs rs)"
  proof (induction rs rule: rev_induct)
    case (snoc r rs)
    then show ?case by (cases r) (simp add: register_configs_def add_client_cert_def)
  qed (simp add: register_configs_def)
  then show "alist_wf (client_cert_store_build (register_configs rs))"
    by (simp add: alist_wf_def client_cert_store_build_def comp_def case_prod_unfold)
  have x: "alist_wf (hcb_exact (host_configs_of l))" for l
  proof (induction l rule: rev_induct)
    case (snoc r l)
    then show ?case by (cases r) (auto simp: host_configs_of_snoc host_add_config_def alist_wf_insert_l4 split: option.split)
  qed (simp add: host_configs_of_def host_configs_builder_default_def)
  have keys: "\<not> is_default h \<and> \<not> starts_with h ''*.''" if "h \<in> set (map fst (hcb_exact (host_configs_of l)))" for h l
    using that[folded map_of_keys_iff] host_configs_of_exact[of l h] by (simp split: if_splits)
  assume m: "map_of (client_cert_store_build (register_configs rs)) port = Some m"
  have "map_of (client_cert_store_build b) port = map_option host_configs_build (map_of b port)" for b
    unfolding client_cert_store_build_def by (induction b) auto
  then have "m = host_configs_build (host_configs_of (on_port port rs))"
    using m by (auto simp: register_configs_port split: if_splits)
  then show "configs_ok m"
    using host_configs_of_wildcard[of "on_port port rs"] x keys
    by (auto simp: configs_ok_def host_configs_build_def alist_wf_sort_key)
qed


text \<open>The client's cache of a family of resources, by port.\<close>

definition cached_client_certs :: "p_resource list \<Rightarrow> (u16 \<times> p_client_cert_port_resource) list" where
  "cached_client_certs rs =
     List.map_filter (\<lambda>r. case prs_payload r of
        Some (PClientCertPort e) \<Rightarrow> map_option (\<lambda>port. (port, e)) (u16_try_from (pcp_port e)) | _ \<Rightarrow> None) rs"

lemma insort_key_map: "insort_key f (g x) (map g xs) = map g (insort_key (f \<circ> g) x xs)"
  by (induction xs) auto

lemma sort_key_map: "sort_key f (map g xs) = map g (sort_key (f \<circ> g) xs)"
  by (induction xs) (simp_all add: insort_key_map comp_def)

lemma client_cert_cell_decoded:
  "\<exists>s'. mset s' = mset s \<and> decode_client_certs_cell (cached_client_certs (client_cert_resources s)) =
     Inr (client_cert_store_build (register_configs (sent_configs s')))"
proof -
  let ?mk = "\<lambda>(port :: u16, m). \<lparr>pcp_port = ucast port, pcp_entries = client_cert_port_entries port m\<rparr> :: p_client_cert_port_resource"
  have "map snd (cached_client_certs (client_cert_resources s)) = map ?mk s"
    by (induction s) (auto simp: cached_client_certs_def client_cert_resources_def plain_resource_def u16_try_from_def map_filter_simps)
  then have "sort_key pcp_port (map snd (cached_client_certs (client_cert_resources s))) = map ?mk (sort_key (pcp_port \<circ> ?mk) s)"
    by (simp only: sort_key_map)
  moreover have "map (\<lambda>e. e\<lparr>pcl_entry_port := ucast port\<rparr>) (client_cert_port_entries port m) = client_cert_port_entries port m" for port m
    by (auto simp: client_cert_port_entries_def split: option.split)
  ultimately have "decode_client_certs_cell (cached_client_certs (client_cert_resources s)) =
      client_cert_from_wire (concat (map (\<lambda>(port, m). client_cert_port_entries port m) (sort_key (pcp_port \<circ> ?mk) s)))"
    by (simp add: decode_client_certs_cell_def comp_def case_prod_unfold)
  then show ?thesis
    unfolding client_cert_store_decoded by (intro exI[of _ "sort_key (pcp_port \<circ> ?mk) s"] conjI mset_sort)
qed

lemma client_cert_cell_lookup:
  assumes wf: "alist_wf s" and ok: "\<And>port m. map_of s port = Some m \<Longrightarrow> configs_ok m"
  shows "\<exists>t. decode_client_certs_cell (cached_client_certs (client_cert_resources s)) = Inr t \<and>
     (\<forall>port h. find_config t port h = find_config s port h)"
proof -
  obtain s' where s': "mset s' = mset s" and d: "decode_client_certs_cell (cached_client_certs (client_cert_resources s)) =
      Inr (client_cert_store_build (register_configs (sent_configs s')))"
    using client_cert_cell_decoded by blast
  have "distinct (map fst s')" using wf mset_eq_imp_distinct_iff[of "map fst s'" "map fst s"] s' by (simp add: alist_wf_def)
  moreover from this have m: "map_of s' = map_of s" using wf mset_eq_setD[OF s'] by (intro map_of_inject_set[THEN iffD2]) (simp_all add: alist_wf_def)
  ultimately have "find_config (client_cert_store_build (register_configs (sent_configs s'))) port h = find_config s' port h" for port h
    by (intro sent_configs_lookup ok) (simp_all add: alist_wf_def)
  then show ?thesis using d by (simp add: find_config_def m)
qed


section \<open>Server certificates\<close>

text \<open>
  Expiries travel as whole seconds since the epoch; every X.509 expiry is a whole number of seconds.
\<close>

definition cert_travels :: "tls_cert \<Rightarrow> bool" where
  "cert_travels c = (case tc_not_after c of None \<Rightarrow> True | Some t \<Rightarrow> 0 \<le> t \<and> t mod 10 ^ 9 = 0 \<and> t < 2 ^ 63 * 10 ^ 9)"

lemma cert_round_trip:
  assumes "cert_travels c"
  shows "cert_from_wire (tls_cert_to_wire c) = Inr c"
proof -
  have "opt_traverse (\<lambda>s :: u64. if uint s < 2 ^ 63 then Inr (uint s * 10 ^ 9) else Inl Panicked)
      (ptc_not_after_unix_secs (tls_cert_to_wire c)) = Inr (tc_not_after c)"
  proof (cases "tc_not_after c")
    case (Some t)
    then have t: "0 \<le> t" "t mod 10 ^ 9 = 0" "t < 2 ^ 63 * 10 ^ 9" using assms by (simp_all add: cert_travels_def)
    then have "t div 10 ^ 9 < 2 ^ 63" "0 \<le> t div 10 ^ 9" by (simp_all add: div_less_iff_less_mult pos_imp_zdiv_nonneg_iff)
    then have "uint (word_of_int (t div 10 ^ 9) :: u64) = t div 10 ^ 9" by (simp add: uint_word_of_int)
    moreover have "t div 10 ^ 9 * 10 ^ 9 = t" using t(2) by (metis add.right_neutral div_mult_mod_eq)
    ultimately show ?thesis using t \<open>t div 10 ^ 9 < 2 ^ 63\<close> by (simp add: tls_cert_to_wire_def Some)
  qed (simp add: tls_cert_to_wire_def)
  then show ?thesis
    by (cases "tc_key_algorithm c")
      (simp_all add: cert_from_wire_def Let_def tls_cert_to_wire_def key_algorithm_to_wire_def with_key_algorithm_def
        with_not_after_def tls_cert_new_def)
qed


definition sent_under :: "(string \<Rightarrow> string) \<Rightarrow> (string \<times> tls_cert list) list \<Rightarrow> (string \<times> tls_cert) list" where
  "sent_under pat m = concat (map (\<lambda>(h, cs). map (Pair (pat h)) cs) m)"

definition sent_certs :: "tls_store \<Rightarrow> (string \<times> tls_cert) list" where
  "sent_certs s = sent_under (\<lambda>h. h) (sort_key fst (ts_exact s)) @ sent_under ((@) ''*.'') (sort_key fst (ts_wildcard s)) @ map (Pair []) (ts_default s)"

lemma add_wire_certs_decoded:
  assumes "\<forall>c\<in>set cs. cert_travels c"
  shows "add_wire_certs p b (map tls_cert_to_wire cs) = Inr (foldl (\<lambda>b (p, c). add_cert p c b) b (map (Pair p) cs))"
  using assms unfolding add_wire_certs_def by (induction cs arbitrary: b) (simp_all add: cert_round_trip)

lemma wire_entries_decoded:
  assumes "\<forall>(h, cs)\<in>set m. \<forall>c\<in>set cs. cert_travels c"
  shows "fold_result (\<lambda>b e. add_wire_certs (pat (pce_host_pattern e)) b (pce_certs e)) b
      (map (\<lambda>(h, certs). \<lparr>pce_host_pattern = h, pce_certs = map tls_cert_to_wire certs\<rparr>) m) =
     Inr (foldl (\<lambda>b (p, c). add_cert p c b) b (sent_under pat m))"
  using assms
proof (induction m arbitrary: b)
  case (Cons e m)
  then show ?case by (cases e) (simp add: add_wire_certs_decoded sent_under_def)
qed (simp add: sent_under_def)

definition store_travels :: "tls_store \<Rightarrow> bool" where
  "store_travels s \<longleftrightarrow> (\<forall>(h, cs)\<in>set (ts_exact s) \<union> set (ts_wildcard s). \<forall>c\<in>set cs. cert_travels c) \<and>
     (\<forall>c\<in>set (ts_default s). cert_travels c)"

lemma tls_store_decoded:
  assumes "store_travels s"
  shows "tls_from_wire (tls_to_wire s) = Inr (tls_store_build (register_certs (sent_certs s)))"
proof -
  have m: "\<forall>(h, cs)\<in>set (sort_key fst (ts_exact s)). \<forall>c\<in>set cs. cert_travels c"
    "\<forall>(h, cs)\<in>set (sort_key fst (ts_wildcard s)). \<forall>c\<in>set cs. cert_travels c" "\<forall>c\<in>set (ts_default s). cert_travels c"
    using assms by (auto simp: store_travels_def)
  show ?thesis
    unfolding tls_from_wire_def tls_to_wire_def p_tls_store.simps
      wire_entries_decoded[OF m(1), of "\<lambda>h. h"] rbind_simps
      wire_entries_decoded[OF m(2)] add_wire_certs_decoded[OF m(3)]
    by (simp add: register_certs_def sent_certs_def)
qed

text \<open>What the builder guarantees of a store: unique patterns, exact names, and prepared certificate lists.\<close>

definition store_ok :: "tls_store \<Rightarrow> bool" where
  "store_ok s \<longleftrightarrow> alist_wf (ts_exact s) \<and> alist_wf (ts_wildcard s) \<and>
     (\<forall>(h, cs)\<in>set (ts_exact s). \<not> is_default h \<and> \<not> starts_with h ''*.'' \<and> cs \<noteq> [] \<and> prepare_certs cs = cs) \<and>
     (\<forall>(h, cs)\<in>set (ts_wildcard s). cs \<noteq> [] \<and> prepare_certs cs = cs) \<and> prepare_certs (ts_default s) = ts_default s"

lemma certs_for_append: "certs_for P (xs @ ys) = certs_for P xs @ certs_for P ys"
  by (simp add: certs_for_def)

lemma certs_for_pair: "certs_for P (map (Pair p) cs) = (if P p then cs else [])"
  by (induction cs) (auto simp: certs_for_def)

lemma certs_for_under_None: "\<forall>h\<in>set (map fst m). \<not> P (pat h) \<Longrightarrow> certs_for P (sent_under pat m) = []"
proof (induction m)
  case (Cons e m)
  then show ?case by (cases e) (simp add: sent_under_def certs_for_append certs_for_pair)
qed (simp add: sent_under_def certs_for_def)

lemma certs_for_under:
  assumes "alist_wf m" "inj pat"
  shows "certs_for (\<lambda>p. p = pat h) (sent_under pat m) = (case map_of m h of Some cs \<Rightarrow> cs | None \<Rightarrow> [])"
  using assms(1)
proof (induction m)
  case (Cons e m)
  obtain k cs where e: "e = (k, cs)" by force
  have "h = k \<Longrightarrow> map_of m h = None" using Cons.prems by (simp add: alist_wf_def e map_of_eq_None_iff)
  moreover have "pat k = pat h \<longleftrightarrow> k = h" using assms(2) by (simp add: inj_eq)
  ultimately show ?case
    using Cons by (auto simp: e sent_under_def certs_for_append certs_for_pair alist_wf_def split: option.split)
qed (simp add: sent_under_def certs_for_def)


lemma prepare_certs_idem [simp]: "prepare_certs (prepare_certs cs) = prepare_certs cs"
proof -
  have distinct: "sorted_wrt (\<lambda>a b. \<not> tls_cert_eq a b) kept \<Longrightarrow> sorted_wrt (\<lambda>a b. \<not> tls_cert_eq a b) (dedup_loop kept l)" for kept l
    by (induction kept l rule: dedup_loop.induct) (auto simp: sorted_wrt_append list_ex_iff)
  have keep: "sorted_wrt (\<lambda>a b. \<not> tls_cert_eq a b) (kept @ l) \<Longrightarrow> dedup_loop kept l = kept @ l" for kept l
    by (induction kept l rule: dedup_loop.induct) (auto simp: sorted_wrt_append list_ex_iff)
  have perm: "sorted_wrt (\<lambda>a b. \<not> tls_cert_eq a b) l'"
    if "sorted_wrt (\<lambda>a b. \<not> tls_cert_eq a b) l" "mset l' = mset l" for l l'
  proof -
    have iff: "sorted_wrt (\<lambda>a b. \<not> tls_cert_eq a b) xs \<longleftrightarrow> distinct (map (\<lambda>c. (tc_cert_pem c, tc_key_pem c)) xs)" for xs
      by (induction xs) (auto simp: tls_cert_eq_def)
    have "mset (map (\<lambda>c. (tc_cert_pem c, tc_key_pem c)) l') = mset (map (\<lambda>c. (tc_cert_pem c, tc_key_pem c)) l)"
      by (simp only: mset_map that(2))
    from mset_eq_imp_distinct_iff[OF this] show ?thesis using that(1) unfolding iff by (rule iffD2)
  qed
  let ?d = "dedup_cert_vec cs"
  have "sorted_wrt (\<lambda>a b. \<not> tls_cert_eq a b) ?d" unfolding dedup_cert_vec_def by (rule distinct) simp
  then have "sorted_wrt (\<lambda>a b. \<not> tls_cert_eq a b) (sort_cert_vec ?d)"
    by (rule perm) (simp add: sort_cert_vec_def)
  then have "dedup_cert_vec (sort_cert_vec ?d) = sort_cert_vec ?d" using keep[of "[]"] by (simp add: dedup_cert_vec_def)
  then show ?thesis by (simp add: prepare_certs_def sort_cert_vec_def sort_key_id_if_sorted)
qed

lemma sent_certs_lookup:
  assumes ok: "store_ok s"
  shows "find_certs (tls_store_build (register_certs (sent_certs s))) h = find_certs s h"
proof -
  have wf: "alist_wf (sort_key fst (ts_exact s))" "alist_wf (sort_key fst (ts_wildcard s))" using ok by (simp_all add: store_ok_def)
  have m: "map_of (sort_key fst (ts_exact s)) = map_of (ts_exact s)" "map_of (sort_key fst (ts_wildcard s)) = map_of (ts_wildcard s)"
    using ok by (simp_all add: store_ok_def map_of_sort_key)
  have inj: "inj (\<lambda>h :: string. h)" "inj ((@) ''*.'')" by (simp_all add: inj_def)
  have own: "certs_for (\<lambda>p. p = h) (sent_certs s) = (case map_of (ts_exact s) h of Some cs \<Rightarrow> cs | None \<Rightarrow> [])"
    if h: "\<not> is_default h" "\<not> starts_with h ''*.''"
  proof -
    have "certs_for (\<lambda>p. p = h) (sent_under ((@) ''*.'') (sort_key fst (ts_wildcard s))) = []"
      using h(2) by (intro certs_for_under_None) (auto simp: starts_with_iff)
    then show ?thesis using certs_for_under[OF wf(1) inj(1), of h] h(1)
      by (auto simp: sent_certs_def certs_for_append certs_for_pair is_default_def m)
  qed
  have names: "\<not> is_default k \<and> \<not> starts_with k ''*.'' \<and> cs \<noteq> [] \<and> prepare_certs cs = cs" if "map_of (ts_exact s) k = Some cs" for k cs
    using ok map_of_SomeD[OF that] by (auto simp: store_ok_def)
  have keys: "\<not> is_default k \<and> \<not> starts_with k ''*.''" if "k \<in> set (map fst (sort_key fst (ts_exact s)))" for k
    using ok that by (auto simp: store_ok_def)
  have wild: "certs_for (\<lambda>p. p = ''*.'' @ d) (sent_certs s) = (case map_of (ts_wildcard s) d of Some cs \<Rightarrow> cs | None \<Rightarrow> [])" for d
  proof -
    have "certs_for (\<lambda>p. p = ''*.'' @ d) (sent_under (\<lambda>h. h) (sort_key fst (ts_exact s))) = []"
      using keys by (intro certs_for_under_None) (auto simp: starts_with_iff)
    then show ?thesis using certs_for_under[OF wf(2) inj(2), of d]
      by (simp add: sent_certs_def certs_for_append certs_for_pair m del: append.simps)
  qed
  have dflt: "certs_for is_default (sent_certs s) = ts_default s"
  proof -
    have "certs_for is_default (sent_under (\<lambda>h. h) (sort_key fst (ts_exact s))) = []"
      "certs_for is_default (sent_under ((@) ''*.'') (sort_key fst (ts_wildcard s))) = []"
      using keys by (intro certs_for_under_None; auto simp: is_default_def)+
    then show ?thesis by (simp add: sent_certs_def certs_for_append certs_for_pair is_default_def[of "[]"])
  qed
  let ?t = "tls_store_build (register_certs (sent_certs s))"
  have exact: "map_of (ts_exact ?t) h = map_of (ts_exact s) h"
  proof (cases "is_default h \<or> starts_with h ''*.''")
    case True
    then show ?thesis using names[of h] unfolding registered_exact by (cases "map_of (ts_exact s) h") auto
  next
    case False
    then show ?thesis using own names[of h] unfolding registered_exact by (cases "map_of (ts_exact s) h") auto
  qed
  have wildcard: "map_of (ts_wildcard ?t) d = map_of (ts_wildcard s) d" for d
    using ok map_of_SomeD[of "ts_wildcard s" d] unfolding registered_wildcard wild by (auto simp: store_ok_def split: option.splits)
  have "ts_default ?t = ts_default s" unfolding registered_default dflt using ok by (simp add: store_ok_def)
  then have "Some (find_certs ?t h) = Some (find_certs s h)" by (intro certs.lookup_local exact wildcard) simp
  then show ?thesis by simp
qed


lemma alist_wf_map_values: "alist_wf (map (\<lambda>(k, v). (k, f v)) m) \<longleftrightarrow> alist_wf m"
  by (simp add: alist_wf_def comp_def case_prod_unfold)

lemma built_store_ok: "store_ok (tls_store_build (register_certs rs))"
proof -
  let ?t = "tls_store_build (register_certs rs)"
  have "alist_wf (tsb_exact (register_certs rs))"
  proof (induction rs rule: rev_induct)
    case (snoc r rs)
    then show ?case by (cases r) (auto simp: register_certs_snoc add_cert_def split: option.split)
  qed (simp add: register_certs_def tls_store_builder_new_def)
  then have wf: "alist_wf (ts_exact ?t)" "alist_wf (ts_wildcard ?t)"
    using alist_wf_register[of rs] by (simp_all add: tls_store_build_def alist_wf_map_values)
  have "\<not> is_default h \<and> \<not> starts_with h ''*.'' \<and> cs \<noteq> [] \<and> prepare_certs cs = cs" if "(h, cs) \<in> set (ts_exact ?t)" for h cs
  proof -
    have "map_of (ts_exact ?t) h = Some cs" using that wf(1) by (simp add: alist_wf_def)
    then show ?thesis unfolding registered_exact by (auto split: if_splits)
  qed
  moreover have "cs \<noteq> [] \<and> prepare_certs cs = cs" if "(d, cs) \<in> set (ts_wildcard ?t)" for d cs
  proof -
    have "map_of (ts_wildcard ?t) d = Some cs" using that wf(2) by (simp add: alist_wf_def)
    then show ?thesis unfolding registered_wildcard by (auto split: if_splits)
  qed
  ultimately show ?thesis unfolding store_ok_def registered_default using wf by (auto simp: prepare_certs_idem)
qed

lemma prepare_certs_subset: "c \<in> set (prepare_certs cs) \<Longrightarrow> c \<in> set cs"
proof -
  have "set (dedup_loop kept l) \<subseteq> set kept \<union> set l" for kept l
    by (induction kept l rule: dedup_loop.induct) auto
  from this[of "[]" cs] show "c \<in> set (prepare_certs cs) \<Longrightarrow> c \<in> set cs"
    by (auto simp: prepare_certs_def sort_cert_vec_def dedup_cert_vec_def)
qed

lemma certs_for_subset: "c \<in> set (certs_for P rs) \<Longrightarrow> c \<in> snd ` set rs"
  by (auto simp: certs_for_def)

lemma built_store_travels:
  assumes "\<forall>c\<in>snd ` set rs. cert_travels c"
  shows "store_travels (tls_store_build (register_certs rs))"
proof -
  let ?t = "tls_store_build (register_certs rs)"
  have ok: "alist_wf (ts_exact ?t)" "alist_wf (ts_wildcard ?t)" using built_store_ok[of rs] by (simp_all add: store_ok_def)
  have p: "cert_travels c" if "c \<in> set (prepare_certs (certs_for P rs))" for c P
    using assms certs_for_subset[OF prepare_certs_subset[OF that]] by (rule bspec)
  have "cert_travels c" if e: "(h, cs) \<in> set (ts_exact ?t)" "c \<in> set cs" for h cs c
  proof -
    have "map_of (ts_exact ?t) h = Some cs" using e(1) ok(1) by (simp add: alist_wf_def)
    then show ?thesis using e(2) p unfolding registered_exact by (auto split: if_splits)
  qed
  moreover have "cert_travels c" if e: "(d, cs) \<in> set (ts_wildcard ?t)" "c \<in> set cs" for d cs c
  proof -
    have "map_of (ts_wildcard ?t) d = Some cs" using e(1) ok(2) by (simp add: alist_wf_def)
    then show ?thesis using e(2) p unfolding registered_wildcard by (auto split: if_splits)
  qed
  ultimately show ?thesis unfolding store_travels_def registered_default using p by auto
qed

section \<open>Ports\<close>

definition register_port_certs :: "(u16 \<times> string \<times> tls_cert) list \<Rightarrow> port_tls_store_builder" where
  "register_port_certs rs = foldl (\<lambda>b (port, p, c). port_add_cert port p c b) [] rs"

lemma register_port_certs_port:
  "map_of (register_port_certs rs) port = (if on_port port rs = [] then None else Some (register_certs (on_port port rs))) \<and>
   alist_wf (register_port_certs rs)"
proof (induction rs rule: rev_induct)
  case (snoc r rs)
  obtain q p c where r: "r = (q, p, c)" by (cases r)
  have "register_port_certs (rs @ [r]) = port_add_cert q p c (register_port_certs rs)"
    by (simp add: register_port_certs_def r)
  then show ?case using snoc
    by (auto simp: r port_add_cert_def map_of_alist_upsert on_port_snoc register_certs_def)
qed (simp add: register_port_certs_def on_port_def)

definition cached_tls_ports :: "p_resource list \<Rightarrow> (u16 \<times> p_port_tls_entry) list" where
  "cached_tls_ports rs =
     List.map_filter (\<lambda>r. case prs_payload r of
        Some (PTlsPort e) \<Rightarrow> map_option (\<lambda>port. (port, e)) (u16_try_from (ppt_tls_port e)) | _ \<Rightarrow> None) rs"

lemma traverse_map_Inr: "(\<And>x. x \<in> set xs \<Longrightarrow> f x = Inr (g x)) \<Longrightarrow> traverse f xs = Inr (map g xs)"
  by (induction xs) auto

lemma traverse_map: "traverse f (map g xs) = traverse (\<lambda>x. f (g x)) xs"
  by (induction xs) auto

lemma map_of_insert_distinct:
  "distinct (map fst kvs) \<Longrightarrow> map_of (foldl (\<lambda>m (k, v). alist_insert k v m) acc kvs) k =
     (case map_of kvs k of Some v \<Rightarrow> Some v | None \<Rightarrow> map_of acc k)"
proof (induction kvs arbitrary: acc)
  case (Cons e kvs)
  obtain k' v where e: "e = (k', v)" by force
  have "map_of kvs k' = None" using Cons.prems by (simp add: e map_of_eq_None_iff)
  then show ?case using Cons by (auto simp: e alist_simps split: option.split)
qed simp

lemma tls_cell_decoded:
  assumes wf: "alist_wf s" and t: "\<forall>(port, t)\<in>set s. store_travels t \<and> store_ok t"
  shows "\<exists>d. decode_tls_cell (cached_tls_ports (port_tls_resources s)) = Inr d \<and>
     (\<forall>port h. map_option (\<lambda>t. find_certs t h) (map_of d port) = map_option (\<lambda>t. find_certs t h) (map_of s port))"
proof -
  let ?mk = "\<lambda>(port :: u16, t). \<lparr>ppt_tls_port = ucast port, ppt_store = Some (tls_to_wire t)\<rparr> :: p_port_tls_entry"
  let ?dec = "\<lambda>t. tls_store_build (register_certs (sent_certs t))"
  let ?s = "sort_key (ppt_tls_port \<circ> ?mk) s"
  have "map snd (cached_tls_ports (port_tls_resources s)) = map ?mk s"
    by (induction s) (auto simp: cached_tls_ports_def port_tls_resources_def plain_resource_def u16_try_from_def map_filter_simps)
  then have "sort_key ppt_tls_port (map snd (cached_tls_ports (port_tls_resources s))) = map ?mk ?s" by (simp only: sort_key_map)
  moreover have "traverse port_tls_entry_from_wire (map ?mk ?s) = Inr (map (\<lambda>(port, t). (port, ?dec t)) ?s)"
    unfolding traverse_map using t
    by (intro traverse_map_Inr) (auto simp: port_tls_entry_from_wire_def tls_store_decoded)
  moreover have dist: "distinct (map fst (map (\<lambda>(port, t). (port, ?dec t)) ?s))"
    unfolding alist_wf_def[symmetric] using wf by (simp only: alist_wf_map_values alist_wf_sort_key)
  ultimately have "decode_tls_cell (cached_tls_ports (port_tls_resources s)) =
      Inr (from_port_stores (map (\<lambda>(port, t). (port, ?dec t)) ?s))"
    by (simp add: decode_tls_cell_def port_tls_from_wire_def)
  moreover have "map_option (\<lambda>t. find_certs t h) (map_of (from_port_stores (map (\<lambda>(port, t). (port, ?dec t)) ?s)) port) =
      map_option (\<lambda>t. find_certs t h) (map_of s port)" for port h
  proof -
    have "map_of (from_port_stores (map (\<lambda>(port, t). (port, ?dec t)) ?s)) port = map_of (map (\<lambda>(port, t). (port, ?dec t)) ?s) port"
      unfolding from_port_stores_def
      by (subst map_of_insert_distinct)
         (simp_all only: dist, simp split: option.split)
    also have "\<dots> = map_option ?dec (map_of ?s port)" by (simp add: map_of_map)
    also have "\<dots> = map_option ?dec (map_of s port)" by (simp only: map_of_sort_key[OF wf])
    finally show ?thesis using t map_of_SomeD[of s port] by (cases "map_of s port") (auto simp: sent_certs_lookup)
  qed
  ultimately show ?thesis by blast
qed

lemma built_port_stores:
  "alist_wf (port_tls_store_build (register_port_certs rs))"
  "(port, t) \<in> set (port_tls_store_build (register_port_certs rs)) \<Longrightarrow>
     t = tls_store_build (register_certs (on_port port rs))"
proof -
  have wf: "alist_wf (register_port_certs rs)" using register_port_certs_port by blast
  then show "alist_wf (port_tls_store_build (register_port_certs rs))"
    by (simp add: port_tls_store_build_def alist_wf_map_values)
  assume "(port, t) \<in> set (port_tls_store_build (register_port_certs rs))"
  then obtain b where "(port, b) \<in> set (register_port_certs rs)" and t: "t = tls_store_build b"
    by (auto simp: port_tls_store_build_def)
  then have "map_of (register_port_certs rs) port = Some b" using wf by (simp add: alist_wf_def)
  then show "t = tls_store_build (register_certs (on_port port rs))"
    using register_port_certs_port[of rs port] t by (simp split: if_splits)
qed

section \<open>The round trips\<close>

text \<open>C19: The client-certificate requirements a gateway registers reach the proxy unchanged: encoding
  the store into one resource per port and decoding the cell from the cached resources succeeds,
  and the decoded store answers every handshake (listener port and server name) as the original.\<close>

theorem client_cert_round_trip:
  "\<exists>t. decode_client_certs_cell (cached_client_certs (client_cert_resources
           (client_cert_store_build (register_configs rs)))) = Inr t \<and>
     (\<forall>port h. find_config t port h = find_config (client_cert_store_build (register_configs rs)) port h)"
  by (rule client_cert_cell_lookup) (rule built_configs_ok(1), erule built_configs_ok(2))

text \<open>C15: Every certificate registered for a listener port reaches the proxy, provided its expiry is a
  whole second between the epoch and the largest signed 64-bit second: the per-port resources
  decode, and on each port the decoded store offers the same certificates, in the same order, for
  every server name.\<close>

theorem tls_round_trip:
  assumes "\<forall>(port, p, c)\<in>set rs. cert_travels c"
  shows "\<exists>d. decode_tls_cell (cached_tls_ports (port_tls_resources (port_tls_store_build (register_port_certs rs)))) = Inr d \<and>
     (\<forall>port h. map_option (\<lambda>t. find_certs t h) (map_of d port) =
        map_option (\<lambda>t. find_certs t h) (map_of (port_tls_store_build (register_port_certs rs)) port))"
proof (rule tls_cell_decoded[OF built_port_stores(1)], clarify)
  fix port t
  assume "(port, t) \<in> set (port_tls_store_build (register_port_certs rs))"
  then have t: "t = tls_store_build (register_certs (on_port port rs))" by (rule built_port_stores(2))
  have "\<forall>c\<in>snd ` set (on_port port rs). cert_travels c" using assms by (auto simp: on_port_def)
  then show "store_travels t \<and> store_ok t" unfolding t using built_store_ok built_store_travels by blast
qed

definition demo_cert :: "u8 \<Rightarrow> string \<Rightarrow> int option \<Rightarrow> tls_cert" where
  "demo_cert k src expiry = \<lparr>tc_cert_pem = [k], tc_key_pem = [k], tc_source = src, tc_not_after = expiry, tc_key_algorithm = Rsa\<rparr>"

theorem tls_round_trip_witness:
  "\<exists>d. decode_tls_cell (cached_tls_ports (port_tls_resources (port_tls_store_build (register_port_certs
        [(443, ''a.test'', demo_cert 1 ''ns/a'' (Some (10 ^ 9))), (443, ''*.test'', demo_cert 2 ''ns/b'' None)])))) = Inr d \<and>
     map_option (\<lambda>t. find_certs t ''a.test'') (map_of d 443) = Some [demo_cert 1 ''ns/a'' (Some (10 ^ 9))] \<and>
     map_option (\<lambda>t. find_certs t ''b.test'') (map_of d 443) = Some [demo_cert 2 ''ns/b'' None]"
proof -
  let ?rs = "[(443, ''a.test'', demo_cert 1 ''ns/a'' (Some (10 ^ 9))), (443, ''*.test'', demo_cert 2 ''ns/b'' None)]"
  have "\<forall>(port, p, c)\<in>set ?rs. cert_travels c" by (simp add: cert_travels_def demo_cert_def)
  from tls_round_trip[OF this] obtain d where d:
    "decode_tls_cell (cached_tls_ports (port_tls_resources (port_tls_store_build (register_port_certs ?rs)))) = Inr d"
    "\<And>port h. map_option (\<lambda>t. find_certs t h) (map_of d port) =
        map_option (\<lambda>t. find_certs t h) (map_of (port_tls_store_build (register_port_certs ?rs)) port)"
    by blast
  have e1: "map_option (\<lambda>t. find_certs t ''a.test'') (map_of (port_tls_store_build (register_port_certs ?rs)) 443) =
      Some [demo_cert 1 ''ns/a'' (Some (10 ^ 9))]" by code_simp
  have e2: "map_option (\<lambda>t. find_certs t ''b.test'') (map_of (port_tls_store_build (register_port_certs ?rs)) 443) =
      Some [demo_cert 2 ''ns/b'' None]" by code_simp
  show ?thesis by (rule exI[of _ d]) (simp only: d e1 e2 simp_thms)
qed

end
