(* ===== verification/Discovery_Sync.thy ===== *)
theory Discovery_Sync
  imports Route_Rebuild
begin

text \<open>
  The invariant of the discovery client (\<open>apply.rs\<close>: ``cache \<equiv> cells \<equiv> last Acked''): after any
  sequence of messages, accepted or refused, every routing cell is what compiling the cached
  resources on their own gives, and the endpoint index is the reverse of their references.  A
  client fed by deltas therefore serves the same routes as one fed by a full snapshot.
\<close>

section \<open>Maps\<close>

lemma map_of_alist_remove [alist_simps]: "map_of (alist_remove k m) = (map_of m)(k := None)"
proof
  show "map_of (alist_remove k m) x = ((map_of m)(k := None)) x" for x
    unfolding alist_remove_def by (induction m) auto
qed

lemma alist_wf_remove [simp]: "alist_wf m \<Longrightarrow> alist_wf (alist_remove k m)"
  unfolding alist_remove_def alist_wf_def by (rule distinct_map_filter)

lemma alist_eq_iff: "alist_eq m m' \<longleftrightarrow> map_of m = map_of m'"
proof
  assume e: "alist_eq m m'"
  show "map_of m = map_of m'"
  proof
    show "map_of m k = map_of m' k" for k
    proof (cases "k \<in> set (map fst m @ map fst m')")
      case True
      then show ?thesis using e unfolding alist_eq_def list_all_iff by blast
    next
      case False
      then have "map_of m k = None" "map_of m' k = None" by (auto simp: map_of_eq_None_iff)
      then show ?thesis by simp
    qed
  qed
qed (simp add: alist_eq_def list_all_iff)

lemma set_insert_set [simp]: "set (set_insert x xs) = insert x (set xs)"
  by (auto simp: set_insert_def)

text \<open>The values of two equal maps, sorted by a field that determines the key.\<close>

definition key_field :: "('v \<Rightarrow> 'f) \<Rightarrow> ('f \<Rightarrow> 'k option) \<Rightarrow> ('k \<times> 'v) list \<Rightarrow> bool" where
  "key_field f key m \<longleftrightarrow> alist_wf m \<and> (\<forall>(k, v)\<in>set m. key (f v) = Some k)"

lemma key_field_inj:
  assumes "key_field f key m"
  shows "distinct (map f (map snd m))" and "inj_on f (snd ` set m)"
proof -
  have k: "the (key (f v)) = k" if "(k, v) \<in> set m" for k v using assms that by (force simp: key_field_def)
  have "map (\<lambda>x. the (key x)) (map f (map snd m)) = map fst m"
    unfolding map_map by (rule map_cong) (auto simp: k)
  then have "distinct (map (\<lambda>x. the (key x)) (map f (map snd m)))"
    using assms by (simp only: key_field_def alist_wf_def)
  then show d: "distinct (map f (map snd m))" unfolding distinct_map[of _ "map f (map snd m)"] by blast
  then have "inj_on f (set (map snd m))" unfolding distinct_map[of f] by blast
  then show "inj_on f (snd ` set m)" by simp
qed

lemma sorted_values_unique:
  assumes "key_field f key m" "key_field f key m'" "map_of m = map_of m'"
  shows "sort_key f (map snd m) = sort_key (f :: 'v \<Rightarrow> 'f::linorder) (map snd m')"
proof -
  have s: "set m = set m'"
    using assms by (metis alist_wf_def key_field_def map_of_inject_set)
  have d: "distinct (map f (sort_key f (map snd n)))" if "key_field f key n" for n
  proof -
    have "mset (map f (sort_key f (map snd n))) = mset (map f (map snd n))" by (simp add: image_mset.compositionality)
    then show ?thesis using key_field_inj(1)[OF that] mset_eq_imp_distinct_iff by blast
  qed
  have "map f (sort_key f (map snd m)) = map f (sort_key f (map snd m'))"
    by (rule sorted_distinct_set_unique) (use d assms(1,2) s in \<open>simp_all add: sorted_sort_key\<close>)
  then show ?thesis
    by (rule map_inj_on) (use key_field_inj(2)[OF assms(1)] s in simp)
qed

section \<open>Staged worlds\<close>

lemma port_u16_Inr: "port_u16 v = Inr p \<longleftrightarrow> u16_try_from v = Some p"
  by (simp add: port_u16_def ok_or_Inr_iff)

definition refs_of :: "'z staged_scheme \<Rightarrow> resource_id \<Rightarrow> endpoint_key list option" where
  "refs_of st rid =
     (case rid of
        RouteId pk \<Rightarrow> map_option (\<lambda>rh. remdups (collect_route_host_refs rh 0)) (map_of (st_routes st) pk)
      | PassthroughId p \<Rightarrow> map_option (\<lambda>pt. remdups (passthrough_refs pt)) (map_of (st_passthrough st) p)
      | TerminateId p \<Rightarrow> map_option (\<lambda>pt. remdups (passthrough_refs pt)) (map_of (st_terminate st) p)
      | TcpId p \<Rightarrow> map_option (\<lambda>pt. remdups (l4_refs pt)) (map_of (st_tcp st) p)
      | UdpId p \<Rightarrow> map_option (\<lambda>pt. remdups (l4_refs pt)) (map_of (st_udp st) p))"

definition staged_ok :: "'z staged_scheme \<Rightarrow> bool" where
  "staged_ok st \<longleftrightarrow>
     keyed_routes (st_routes st) \<and>
     key_field ppt_tls_port u16_try_from (st_tls st) \<and>
     key_field pcp_port u16_try_from (st_client_certs st) \<and>
     key_field pgs_object_key object_key_from_str (st_listener_status st) \<and>
     key_field ppt_port u16_try_from (st_passthrough st) \<and>
     key_field ppt_port u16_try_from (st_terminate st) \<and>
     key_field pl4_port u16_try_from (st_tcp st) \<and>
     key_field pl4_port u16_try_from (st_udp st) \<and>
     alist_wf (st_endpoints st) \<and> alist_wf (st_digests st) \<and> alist_wf (st_refs st) \<and>
     map_of (st_refs st) = refs_of st"

lemma set_alist_insert: "(k, v) \<in> set (alist_insert k' v' m) \<Longrightarrow> (k, v) = (k', v') \<or> (k, v) \<in> set m"
  unfolding alist_insert_def by (induction m) (auto split: if_splits)

lemma set_alist_remove: "(k, v) \<in> set (alist_remove k' m) \<Longrightarrow> (k, v) \<in> set m"
  by (auto simp: alist_remove_def)

lemma key_field_insert: "key_field f key m \<Longrightarrow> key (f v) = Some k \<Longrightarrow> key_field f key (alist_insert k v m)"
  by (auto simp: key_field_def dest!: set_alist_insert)

lemma key_field_remove: "key_field f key m \<Longrightarrow> key_field f key (alist_remove k m)"
  by (auto simp: key_field_def dest!: set_alist_remove)

lemma keyed_routes_insert:
  "keyed_routes m \<Longrightarrow> route_partition_key_of rh = Inr pk \<Longrightarrow> canonical_host (pk_host pk) \<Longrightarrow> keyed_routes (alist_insert pk rh m)"
  by (auto simp: keyed_routes_def dest!: set_alist_insert)

lemma keyed_routes_remove: "keyed_routes m \<Longrightarrow> keyed_routes (alist_remove pk m)"
  by (auto simp: keyed_routes_def dest!: set_alist_remove)

lemmas staged_insert = key_field_insert keyed_routes_insert
lemmas staged_remove = key_field_remove keyed_routes_remove

text \<open>
  No wildcard suffix is itself a wildcard.  The builders strip every leading \<open>*.\<close>, so such a
  suffix would name the bucket of another partition.
\<close>

definition plain_wildcards :: "p_snapshot \<Rightarrow> bool" where
  "plain_wildcards msg =
     list_all (\<lambda>r. case prs_payload r of
        Some (PRouteHost rh) \<Rightarrow>
          (case Option.bind (prh_host rh) phe_pattern of
             Some (PWildcardHost s _) \<Rightarrow> \<not> starts_with s ''*.'' | _ \<Rightarrow> True)
      | _ \<Rightarrow> True) (psn_resources msg)"

lemma plain_canonical:
  assumes "plain_wildcards msg" "r \<in> set (psn_resources msg)" "prs_payload r = Some (PRouteHost rh)"
    "route_partition_key_of rh = Inr pk"
  shows "canonical_host (pk_host pk)"
proof -
  obtain he pat where h: "prh_host rh = Some he" "phe_pattern he = Some pat" "host_key_from_wire pat = Inr (pk_host pk)"
    using assms(4) by (auto simp: route_partition_key_of_def rbind_Inr_iff ok_or_Inr_iff)
  moreover have "case pat of PWildcardHost s _ \<Rightarrow> \<not> starts_with s ''*.'' | _ \<Rightarrow> True"
    using assms(1-3) h(1,2) by (auto simp: plain_wildcards_def list_all_iff split: p_host_pattern.splits)
  ultimately show ?thesis
    by (cases pat; cases "pk_host pk")
      (auto simp: host_key_from_wire_def canonical_host_def split: if_splits)
qed

lemma stage_payload_ok:
  assumes "stage_payload payload (st, d) = Inr (st', d')" and "staged_ok st"
    and "\<And>rh pk. payload = PRouteHost rh \<Longrightarrow> route_partition_key_of rh = Inr pk \<Longrightarrow> canonical_host (pk_host pk)"
  shows "staged_ok st'"
proof (cases payload)
  case (PRouteHost rh)
  then obtain pk where "route_partition_key_of rh = Inr pk"
    "st' = (set_refs (RouteId pk) (collect_route_host_refs rh 0) st)\<lparr>st_routes := alist_insert pk rh (st_routes st)\<rparr>"
    using assms(1) by (auto simp: stage_payload_def rbind_Inr_iff)
  then show ?thesis using assms(2,3) PRouteHost
    by (auto simp: staged_ok_def set_refs_def refs_of_def fun_eq_iff alist_simps intro: staged_insert
        split: resource_id.splits)
next
  case (PTlsPort e)
  then show ?thesis using assms(1,2)
    by (auto simp: stage_payload_def rbind_Inr_iff port_u16_Inr staged_ok_def refs_of_def fun_eq_iff
        intro: staged_insert split: resource_id.splits)
next
  case (PClientCertPort e)
  then show ?thesis using assms(1,2)
    by (auto simp: stage_payload_def rbind_Inr_iff port_u16_Inr staged_ok_def refs_of_def fun_eq_iff
        intro: staged_insert split: resource_id.splits)
next
  case (PListenerStatus e)
  then show ?thesis using assms(1,2)
    by (auto simp: stage_payload_def rbind_Inr_iff object_key_or_def ok_or_Inr_iff staged_ok_def refs_of_def fun_eq_iff
        intro: staged_insert split: resource_id.splits)
next
  case (PTlsPassthroughPort e)
  then show ?thesis using assms(1,2)
    by (auto simp: stage_payload_def rbind_Inr_iff port_u16_Inr staged_ok_def set_refs_def refs_of_def fun_eq_iff alist_simps
        intro: staged_insert split: resource_id.splits)
next
  case (PTlsTerminatePort e)
  then show ?thesis using assms(1,2)
    by (auto simp: stage_payload_def rbind_Inr_iff port_u16_Inr staged_ok_def set_refs_def refs_of_def fun_eq_iff alist_simps
        intro: staged_insert split: resource_id.splits)
next
  case (PTcpPort e)
  then show ?thesis using assms(1,2)
    by (auto simp: stage_payload_def rbind_Inr_iff port_u16_Inr staged_ok_def set_refs_def refs_of_def fun_eq_iff alist_simps
        intro: staged_insert split: resource_id.splits)
next
  case (PUdpPort e)
  then show ?thesis using assms(1,2)
    by (auto simp: stage_payload_def rbind_Inr_iff port_u16_Inr staged_ok_def set_refs_def refs_of_def fun_eq_iff alist_simps
        intro: staged_insert split: resource_id.splits)
next
  case (PEndpoints e)
  then show ?thesis using assms(1,2)
    by (auto simp: stage_payload_def rbind_Inr_iff staged_ok_def refs_of_def fun_eq_iff split: resource_id.splits)
qed (use assms(1) in \<open>simp add: stage_payload_def\<close>)

lemma staged_ok_digests: "staged_ok st \<Longrightarrow> alist_wf m \<Longrightarrow> staged_ok (st\<lparr>st_digests := m\<rparr>)"
  by (simp add: staged_ok_def refs_of_def fun_eq_iff split: resource_id.splits)

lemma staged_ok_default: "staged_ok staged_default"
  by (auto simp: staged_ok_def staged_default_def keyed_routes_def key_field_def refs_of_def fun_eq_iff
      split: resource_id.splits)

lemma staged_ok_cache: "staged_ok (staged_from_cache cache) \<longleftrightarrow> staged_ok cache"
  by (simp add: staged_ok_def staged_from_cache_def staged.defs refs_of_def fun_eq_iff split: resource_id.splits)

lemma staged_ok_commit: "staged_ok (commit_cache st index) \<longleftrightarrow> staged_ok st"
  by (simp add: staged_ok_def commit_cache_def staged.defs refs_of_def fun_eq_iff split: resource_id.splits)

lemma remove_from_staged_ok:
  assumes "remove_from_staged (st, d) key parsed = Inr (st', d')" and "staged_ok st"
  shows "staged_ok st'"
  using assms
  by (cases parsed)
    (auto simp: remove_from_staged_def Let_def rbind_Inr_iff drop_refs_def staged_ok_def refs_of_def fun_eq_iff alist_simps
      intro: staged_remove split: resource_id.splits)

text \<open>An untouched coarse cell keeps the committed resources.\<close>

definition untouched :: "'y staged_scheme \<Rightarrow> staged \<Rightarrow> staged_dirty \<Rightarrow> bool" where
  "untouched c st d \<longleftrightarrow>
     (\<not> sd_tls d \<longrightarrow> st_tls st = st_tls c) \<and>
     (\<not> sd_client_certs d \<longrightarrow> st_client_certs st = st_client_certs c) \<and>
     (\<not> sd_listener_status d \<longrightarrow> st_listener_status st = st_listener_status c) \<and>
     (\<not> sd_passthrough d \<longrightarrow> st_passthrough st = st_passthrough c) \<and>
     (\<not> sd_terminate d \<longrightarrow> st_terminate st = st_terminate c) \<and>
     (\<not> sd_tcp d \<longrightarrow> st_tcp st = st_tcp c) \<and>
     (\<not> sd_udp d \<longrightarrow> st_udp st = st_udp c)"

lemma untouched_all: "untouched c st staged_dirty_all"
  by (simp add: untouched_def staged_dirty_all_def)

lemma untouched_refl: "untouched st st d"
  by (simp add: untouched_def)

lemma untouched_upd:
  assumes "untouched c st d"
  shows "untouched c (st\<lparr>st_digests := m1\<rparr>) d" "untouched c (st\<lparr>st_refs := m2\<rparr>) d"
    "untouched c (st\<lparr>st_routes := m3\<rparr>) d" "untouched c (st\<lparr>st_endpoints := m4\<rparr>) d"
    "untouched c (st\<lparr>st_tls := m5\<rparr>) (d\<lparr>sd_tls := True\<rparr>)"
    "untouched c (st\<lparr>st_client_certs := m6\<rparr>) (d\<lparr>sd_client_certs := True\<rparr>)"
    "untouched c (st\<lparr>st_listener_status := m7\<rparr>) (d\<lparr>sd_listener_status := True\<rparr>)"
    "untouched c (st\<lparr>st_passthrough := m8\<rparr>) (d\<lparr>sd_passthrough := True\<rparr>)"
    "untouched c (st\<lparr>st_terminate := m8\<rparr>) (d\<lparr>sd_terminate := True\<rparr>)"
    "untouched c (st\<lparr>st_tcp := m9\<rparr>) (d\<lparr>sd_tcp := True\<rparr>)"
    "untouched c (st\<lparr>st_udp := m9\<rparr>) (d\<lparr>sd_udp := True\<rparr>)"
  using assms by (simp_all add: untouched_def)

lemma untouched_from_cache: "untouched c (staged_from_cache c) d"
  by (simp add: untouched_def staged_from_cache_def staged.defs)

lemma stage_payload_untouched:
  assumes "stage_payload payload (st, d) = Inr (st', d')" and "untouched c st d"
  shows "untouched c st' d'"
  using assms
  by (cases payload)
    (auto simp: stage_payload_def rbind_Inr_iff set_refs_def intro!: untouched_upd)

lemma remove_from_staged_untouched:
  assumes "remove_from_staged (st, d) key parsed = Inr (st', d')" and "untouched c st d"
  shows "untouched c st' d'"
  using assms
  by (cases parsed)
    (auto simp: remove_from_staged_def Let_def rbind_Inr_iff drop_refs_def intro!: untouched_upd)

lemma stage_resource_ok:
  assumes "stage_resource he ((st, d), seen) r = Inr ((st', d'), seen')" and "staged_ok st" "untouched c st d"
    and "plain_wildcards msg" "r \<in> set (psn_resources msg)"
  shows "staged_ok st' \<and> untouched c st' d'"
proof -
  obtain key payload where p: "prs_payload r = Some payload"
    and s: "stage_payload payload (st\<lparr>st_digests := alist_insert key (resource_hash he r) (st_digests st)\<rparr>, d) = Inr (st', d')"
    using assms(1) by (auto simp: stage_resource_def rbind_Inr_iff ok_or_Inr_iff split: if_splits)
  have "staged_ok (st\<lparr>st_digests := alist_insert key (resource_hash he r) (st_digests st)\<rparr>)"
    using staged_ok_digests[OF assms(2)] assms(2) by (simp add: staged_ok_def)
  then have "staged_ok st'"
    using stage_payload_ok[OF s] plain_canonical[OF assms(4,5)] p by auto
  moreover have "untouched c st' d'"
    by (rule stage_payload_untouched[OF s untouched_upd(1)[OF assms(3)]])
  ultimately show ?thesis ..
qed

lemma stage_resources_ok:
  assumes "fold_result (stage_resource he) ((st, d), []) (psn_resources msg) = Inr ((st', d'), seen)"
    and "staged_ok st" "untouched c st d" "plain_wildcards msg"
  shows "staged_ok st' \<and> untouched c st' d'"
proof -
  let ?P = "\<lambda>s :: stage_state. staged_ok (fst (fst s)) \<and> untouched c (fst (fst s)) (snd (fst s))"
  have "?P ((st', d'), seen)"
  proof (rule fold_result_invariant[OF assms(1), of ?P])
    show "?P ((st, d), [])" using assms(2,3) by simp
    fix s :: stage_state and r s' assume "r \<in> set (psn_resources msg)" "?P s" "stage_resource he s r = Inr s'"
    then show "?P s'" using stage_resource_ok[OF _ _ _ assms(4)] by (cases s; cases s') fastforce
  qed
  then show ?thesis by simp
qed

lemma stage_delta_ok:
  assumes "stage_delta he cache msg = Inr (st, d)" and "staged_ok cache" "plain_wildcards msg"
  shows "staged_ok st \<and> untouched cache st d"
proof -
  obtain st1 d1 seen where f: "fold_result (stage_resource he) ((staged_from_cache cache, staged_dirty_default), [])
        (psn_resources msg) = Inr ((st1, d1), seen)"
    and t: "fold_result (stage_tombstone seen) (st1, d1) (psn_removed_resources msg) = Inr (st, d)"
    using assms(1) by (auto simp: stage_delta_def rbind_Inr_iff)
  have one: "staged_ok st1 \<and> untouched cache st1 d1"
    using stage_resources_ok[OF f _ untouched_from_cache assms(3)] assms(2) by (simp add: staged_ok_cache)
  let ?P = "\<lambda>s. staged_ok (fst s) \<and> untouched cache (fst s) (snd s)"
  have "?P (st, d)"
  proof (rule fold_result_invariant[OF t, of ?P])
    show "?P (st1, d1)" using one by simp
    fix s r s' assume "?P s" "stage_tombstone seen s r = Inr s'"
    then show "?P s'"
      by (cases s; cases s')
        (auto simp: stage_tombstone_def rbind_Inr_iff split: if_splits
          dest: remove_from_staged_ok remove_from_staged_untouched)
  qed
  then show ?thesis by simp
qed

lemma stage_message_ok:
  assumes "stage_message he cache msg verify = Inr (st, d, index)" and "staged_ok cache" "plain_wildcards msg"
  shows "staged_ok st" "untouched cache st d" "index = build_ep_index (st_refs st)"
    and "verify \<Longrightarrow> from_per_resource he (map snd (st_digests st)) = psn_version msg"
proof -
  have stage: "(if psn_full msg then rmap (\<lambda>st. (st, staged_dirty_all)) (stage_full he msg) else stage_delta he cache msg) = Inr (st, d)"
    and rest: "index = build_ep_index (st_refs st)" "verify \<Longrightarrow> from_per_resource he (map snd (st_digests st)) = psn_version msg"
    using assms(1) by (auto simp: stage_message_def rbind_Inr_iff Let_def split: if_splits)
  have "staged_ok st \<and> untouched cache st d"
  proof (cases "psn_full msg")
    case True
    then obtain d' seen where f: "fold_result (stage_resource he) ((staged_default, staged_dirty_default), [])
        (psn_resources msg) = Inr ((st, d'), seen)" and "d = staged_dirty_all"
      using stage by (auto simp: stage_full_def rmap_Inr_iff)
    then show ?thesis
      using stage_resources_ok[OF f staged_ok_default untouched_refl assms(3)] by (simp add: untouched_all)
  next
    case False
    then show ?thesis using stage stage_delta_ok[OF _ assms(2,3)] by simp
  qed
  then show "staged_ok st" "untouched cache st d" "index = build_ep_index (st_refs st)"
    and "verify \<Longrightarrow> from_per_resource he (map snd (st_digests st)) = psn_version msg"
    using rest by auto
qed

section \<open>Endpoints\<close>

lemma pool_lookup:
  assumes "endpoint_pool_from_staged eps = Inr pool" and "alist_wf eps"
  shows "map_of pool k = map_option (\<lambda>e. projr (resolved_endpoints_from_wire e)) (map_of eps k)"
proof -
  have "map_of pool' k = (case map_of eps k of Some e \<Rightarrow> Some (projr (resolved_endpoints_from_wire e)) | None \<Rightarrow> map_of acc k)"
    if "fold_result (\<lambda>pool (key, e). rbind (resolved_endpoints_from_wire e) (\<lambda>r. Inr (alist_insert key r pool))) acc eps = Inr pool'"
      "alist_wf eps" for acc pool'
    using that
  proof (induction eps arbitrary: acc)
    case (Cons x eps)
    obtain key e where x: "x = (key, e)" by force
    obtain r where r: "resolved_endpoints_from_wire e = Inr r"
      and f: "fold_result (\<lambda>pool (key, e). rbind (resolved_endpoints_from_wire e) (\<lambda>r. Inr (alist_insert key r pool)))
        (alist_insert key r acc) eps = Inr pool'"
      using Cons.prems(1) by (auto simp: x rbind_Inr_iff)
    have "alist_wf eps" "map_of eps key = None" using Cons.prems(2) by (auto simp: x alist_wf_def map_of_eq_None_iff)
    then show ?case using Cons.IH[OF f] r by (auto simp: x alist_simps split: option.splits)
  qed simp
  from this[OF assms(1)[unfolded endpoint_pool_from_staged_def] assms(2)] show ?thesis
    by (simp split: option.splits)
qed

lemma index_add_all:
  "set (index_get (foldl (\<lambda>index key. alist_upsert key [] (set_insert rid) index) index keys) k) =
     set (index_get index k) \<union> (if k \<in> set keys then {rid} else {})"
proof (induction keys arbitrary: index)
  case (Cons key keys)
  show ?case unfolding foldl_Cons Cons.IH by (auto simp: index_get_def alist_simps split: option.splits)
qed simp

lemma index_get_build:
  "rid \<in> set (index_get (build_ep_index refs) k) \<longleftrightarrow> (\<exists>keys. (rid, keys) \<in> set refs \<and> k \<in> set keys)"
proof -
  have "rid \<in> set (index_get (foldl (\<lambda>index (rid, keys). foldl (\<lambda>index key. alist_upsert key [] (set_insert rid) index) index keys) index refs) k)
      \<longleftrightarrow> rid \<in> set (index_get index k) \<or> (\<exists>keys. (rid, keys) \<in> set refs \<and> k \<in> set keys)" for index
  proof (induction refs arbitrary: index)
    case (Cons r refs)
    show ?case unfolding foldl_Cons Cons.IH by (cases r) (auto simp: index_add_all)
  qed simp
  from this[of "[]"] show ?thesis by (simp add: build_ep_index_def index_get_def)
qed

lemma refs_of_index:
  assumes "staged_ok st"
  shows "rid \<in> set (index_get (build_ep_index (st_refs st)) k) \<longleftrightarrow> (\<exists>keys. refs_of st rid = Some keys \<and> k \<in> set keys)"
proof -
  have "(rid, keys) \<in> set (st_refs st) \<longleftrightarrow> refs_of st rid = Some keys" for keys
    using assms by (metis alist_wf_def map_of_eq_Some_iff staged_ok_def)
  then show ?thesis by (simp add: index_get_build)
qed

lemma changed_endpoints_iff:
  assumes "alist_wf eps'"
  shows "k \<in> set (changed_or_removed_endpoints eps eps') \<longleftrightarrow> map_of eps k \<noteq> map_of eps' k"
proof -
  have "k \<in> fst ` {x \<in> set eps'. case x of (key, dto) \<Rightarrow> map_of eps key \<noteq> Some dto} \<longleftrightarrow>
      (\<exists>dto. map_of eps' k = Some dto \<and> map_of eps k \<noteq> Some dto)"
    using assms by (force simp: alist_wf_def image_iff)
  then show ?thesis
    by (cases "map_of eps' k") (auto simp: changed_or_removed_endpoints_def dom_map_of_conv_image_fst[symmetric] domIff)
qed

lemma mark_dirty_all:
  "set (ed_routes (foldl (mark_dirty routes) d rids)) =
     set (ed_routes d) \<union> {pk. RouteId pk \<in> set rids \<and> map_of routes pk \<noteq> None}"
  "ed_passthrough (foldl (mark_dirty routes) d rids) \<longleftrightarrow> ed_passthrough d \<or> (\<exists>p. PassthroughId p \<in> set rids)"
  "ed_terminate (foldl (mark_dirty routes) d rids) \<longleftrightarrow> ed_terminate d \<or> (\<exists>p. TerminateId p \<in> set rids)"
  "ed_tcp (foldl (mark_dirty routes) d rids) \<longleftrightarrow> ed_tcp d \<or> (\<exists>p. TcpId p \<in> set rids)"
  "ed_udp (foldl (mark_dirty routes) d rids) \<longleftrightarrow> ed_udp d \<or> (\<exists>p. UdpId p \<in> set rids)"
  by (induction rids arbitrary: d) (auto simp: mark_dirty_def split: resource_id.splits)

lemma endpoint_dirty_targets_alt:
  "endpoint_dirty_targets changed st idx' idx =
     foldl (mark_dirty (st_routes st)) endpoint_dirty_default
       (concat (map (\<lambda>ek. index_get idx ek @ index_get idx' ek) changed))"
proof -
  have "foldl (\<lambda>d ek. foldl (mark_dirty (st_routes st)) d (index_get idx ek @ index_get idx' ek)) d changed =
      foldl (mark_dirty (st_routes st)) d (concat (map (\<lambda>ek. index_get idx ek @ index_get idx' ek) changed))" for d
    by (induction changed arbitrary: d) simp_all
  then show ?thesis by (simp add: endpoint_dirty_targets_def)
qed

section \<open>The invariant\<close>

definition compiled_with ::
  "('b, 'net) wire_env \<Rightarrow> ('r, ('b, 'net) route_entry list) matchit \<Rightarrow> endpoint_pool \<Rightarrow> 'z staged_scheme
     \<Rightarrow> ('r, 'b, 'net) cells \<Rightarrow> bool" where
  "compiled_with env mt pool st cells \<longleftrightarrow>
     serves env mt pool (st_routes st) IngressTable (ce_ingress cells) \<and>
     serves env mt pool (st_routes st) GatewayTable (ce_gateway cells) \<and>
     decode_tls_cell (st_tls st) = Inr (ce_tls cells) \<and>
     decode_client_certs_cell (st_client_certs st) = Inr (ce_client_certs cells) \<and>
     decode_listener_status_cell env (st_listener_status st) = Inr (sh_map (ce_status cells)) \<and>
     ce_listener_hostnames cells = derive_listener_hostnames (sh_map (ce_status cells)) \<and>
     decode_passthrough_cell env (st_passthrough st) pool = Inr (ce_passthrough cells) \<and>
     decode_passthrough_cell env (st_terminate st) pool = Inr (ce_terminate cells) \<and>
     decode_tcp_cell env (st_tcp st) pool = Inr (ce_tcp cells) \<and>
     decode_udp_cell env (st_udp st) pool = Inr (ce_udp cells)"

definition synced ::
  "('b, 'net) wire_env \<Rightarrow> ('r, ('b, 'net) route_entry list) matchit \<Rightarrow> resource_cache \<Rightarrow> ('r, 'b, 'net) cells \<Rightarrow> bool" where
  "synced env mt cache cells \<longleftrightarrow> staged_ok cache \<and> rc_ep_index cache = build_ep_index (st_refs cache) \<and>
     (\<exists>pool. endpoint_pool_from_staged (st_endpoints cache) = Inr pool \<and> compiled_with env mt pool cache cells)"

lemma commit_cache_sel [simp]:
  "st_routes (commit_cache st i) = st_routes st" "st_tls (commit_cache st i) = st_tls st"
  "st_client_certs (commit_cache st i) = st_client_certs st" "st_listener_status (commit_cache st i) = st_listener_status st"
  "st_passthrough (commit_cache st i) = st_passthrough st" "st_terminate (commit_cache st i) = st_terminate st"
  "st_tcp (commit_cache st i) = st_tcp st" "st_udp (commit_cache st i) = st_udp st"
  "st_endpoints (commit_cache st i) = st_endpoints st" "st_refs (commit_cache st i) = st_refs st"
  "st_digests (commit_cache st i) = st_digests st" "rc_ep_index (commit_cache st i) = i"
  by (simp_all add: commit_cache_def staged.defs)

lemma or_live_when_dirty:
  assumes "when_dirty c r = Inr new" and "\<not> c \<Longrightarrow> r = Inr live"
  shows "r = Inr (or_live new live)"
  using assms by (auto simp: when_dirty_def or_live_def rmap_Inr_iff split: if_splits)

definition touched :: "resource_cache \<Rightarrow> staged \<Rightarrow> resource_id list" where
  "touched cache st =
     concat (map (\<lambda>ek. index_get (rc_ep_index cache) ek @ index_get (build_ep_index (st_refs st)) ek)
       (changed_or_removed_endpoints (st_endpoints cache) (st_endpoints st)))"

lemma untouched_agree:
  assumes "staged_ok cache" "rc_ep_index cache = build_ep_index (st_refs cache)" "staged_ok st"
    and "endpoint_pool_from_staged (st_endpoints cache) = Inr pool0" "endpoint_pool_from_staged (st_endpoints st) = Inr pool"
    and "refs_of cache rid = Some keys" "rid \<notin> set (touched cache st)"
  shows "agree pool0 pool keys"
  unfolding agree_def
proof
  fix k assume "k \<in> set keys"
  then have "rid \<in> set (index_get (rc_ep_index cache) k)"
    using assms(6) by (auto simp: assms(2) refs_of_index[OF assms(1)])
  then have "k \<notin> set (changed_or_removed_endpoints (st_endpoints cache) (st_endpoints st))"
    using assms(7) by (auto simp: touched_def)
  then have "map_of (st_endpoints cache) k = map_of (st_endpoints st) k"
    using assms(3) by (simp add: changed_endpoints_iff staged_ok_def)
  then show "map_of pool0 k = map_of pool k"
    using assms(1,3) pool_lookup[OF assms(4)] pool_lookup[OF assms(5)] by (simp add: staged_ok_def)
qed

lemma agree_remdups [simp]: "agree p p' (remdups ks) \<longleftrightarrow> agree p p' ks"
  by (simp add: agree_def)

lemma compile_phase_cases:
  assumes "compile_phase env mt cache cells st d index = Inr c"
  obtains pool ed where "endpoint_pool_from_staged (st_endpoints st) = Inr pool"
    "ed = endpoint_dirty_targets (changed_or_removed_endpoints (st_endpoints cache) (st_endpoints st)) st index (rc_ep_index cache)"
    "rebuild_route_table env mt IngressTable (st_routes st) (st_routes cache) (ed_routes ed) (ce_ingress cells) pool = Inr (co_ingress c)"
    "rebuild_route_table env mt GatewayTable (st_routes st) (st_routes cache) (ed_routes ed) (ce_gateway cells) pool = Inr (co_gateway c)"
    "when_dirty (sd_tls d \<and> \<not> alist_eq (st_tls st) (st_tls cache)) (decode_tls_cell (st_tls st)) = Inr (co_tls c)"
    "when_dirty (sd_client_certs d \<and> \<not> alist_eq (st_client_certs st) (st_client_certs cache))
       (decode_client_certs_cell (st_client_certs st)) = Inr (co_client_certs c)"
    "when_dirty (sd_listener_status d \<and> \<not> alist_eq (st_listener_status st) (st_listener_status cache))
       (rmap (\<lambda>m. (m, derive_listener_hostnames m)) (decode_listener_status_cell env (st_listener_status st))) = Inr (co_listener_status c)"
    "when_dirty (ed_passthrough ed \<or> sd_passthrough d \<and> \<not> alist_eq (st_passthrough st) (st_passthrough cache))
       (decode_passthrough_cell env (st_passthrough st) pool) = Inr (co_passthrough c)"
    "when_dirty (ed_terminate ed \<or> sd_terminate d \<and> \<not> alist_eq (st_terminate st) (st_terminate cache))
       (decode_passthrough_cell env (st_terminate st) pool) = Inr (co_terminate c)"
    "when_dirty (ed_tcp ed \<or> sd_tcp d \<and> \<not> alist_eq (st_tcp st) (st_tcp cache)) (decode_tcp_cell env (st_tcp st) pool) = Inr (co_tcp c)"
    "when_dirty (ed_udp ed \<or> sd_udp d \<and> \<not> alist_eq (st_udp st) (st_udp cache)) (decode_udp_cell env (st_udp st) pool) = Inr (co_udp c)"
  using assms unfolding compile_phase_def Let_def rbind_Inr_iff
  apply (elim exE conjE)
  apply (drule Inr_inject)
  apply hypsubst
  apply (rule that[OF _ refl])
            apply (simp_all only: compiled.simps)
  done



lemma decode_coarse_cong:
  "key_field ppt_tls_port u16_try_from m1 \<Longrightarrow> key_field ppt_tls_port u16_try_from m1' \<Longrightarrow> map_of m1 = map_of m1' \<Longrightarrow>
     decode_tls_cell m1 = decode_tls_cell m1'"
  "key_field pcp_port u16_try_from m2 \<Longrightarrow> key_field pcp_port u16_try_from m2' \<Longrightarrow> map_of m2 = map_of m2' \<Longrightarrow>
     decode_client_certs_cell m2 = decode_client_certs_cell m2'"
  "key_field pgs_object_key object_key_from_str m3 \<Longrightarrow> key_field pgs_object_key object_key_from_str m3' \<Longrightarrow> map_of m3 = map_of m3' \<Longrightarrow>
     decode_listener_status_cell env m3 = decode_listener_status_cell env m3'"
  unfolding decode_tls_cell_def decode_client_certs_cell_def decode_listener_status_cell_def
  by (simp_all only: sorted_values_unique[of ppt_tls_port u16_try_from m1 m1'] sorted_values_unique[of pcp_port u16_try_from m2 m2']
      sorted_values_unique[of pgs_object_key object_key_from_str m3 m3'])

lemma decode_l4_cong:
  assumes "map_of m = map_of m'"
  shows "key_field ppt_port u16_try_from m \<Longrightarrow> key_field ppt_port u16_try_from m' \<Longrightarrow> (\<And>p pe. map_of m p = Some pe \<Longrightarrow> agree pool pool' (passthrough_refs pe)) \<Longrightarrow>
     decode_passthrough_cell env m pool = decode_passthrough_cell env m' pool'"
  unfolding decode_passthrough_cell_def
proof -
  assume k: "key_field ppt_port u16_try_from m" "key_field ppt_port u16_try_from m'"
    and r: "\<And>p pe. map_of m p = Some pe \<Longrightarrow> agree pool pool' (passthrough_refs pe)"
  have "agree pool pool' (passthrough_refs pe)" if "pe \<in> set (sort_key ppt_port (map snd m))" for pe
    using that k(1) r by (auto simp: key_field_def alist_wf_def)
  then show "passthrough_from_wire env pool (sort_key ppt_port (map snd m)) = passthrough_from_wire env pool' (sort_key ppt_port (map snd m'))"
    unfolding sorted_values_unique[OF k assms, symmetric] by (rule passthrough_port_local)
qed

lemma decode_l4_cong':
  assumes "map_of m = map_of m'" "key_field pl4_port u16_try_from m" "key_field pl4_port u16_try_from m'"
    and r: "\<And>p pe. map_of m p = Some pe \<Longrightarrow> agree pool pool' (l4_refs pe)"
  shows "decode_tcp_cell env m pool = decode_tcp_cell env m' pool'"
    and "decode_udp_cell env m pool = decode_udp_cell env m' pool'"
proof -
  have a: "agree pool pool' (l4_refs pe)" if "pe \<in> set (sort_key pl4_port (map snd m))" for pe
    using that assms(2) r by (auto simp: key_field_def alist_wf_def)
  show "decode_tcp_cell env m pool = decode_tcp_cell env m' pool'"
    and "decode_udp_cell env m pool = decode_udp_cell env m' pool'"
    unfolding decode_tcp_cell_def decode_udp_cell_def sorted_values_unique[OF assms(2,3,1), symmetric]
    by (intro l4_port_local a; assumption)+
qed


text \<open>A staged world over the committed one, with the endpoint pools of both.\<close>

definition staged_over :: "resource_cache \<Rightarrow> staged \<Rightarrow> staged_dirty \<Rightarrow> endpoint_pool \<Rightarrow> endpoint_pool \<Rightarrow> bool" where
  "staged_over cache st d pool0 pool \<longleftrightarrow>
     staged_ok cache \<and> rc_ep_index cache = build_ep_index (st_refs cache) \<and> staged_ok st \<and> untouched cache st d \<and>
     endpoint_pool_from_staged (st_endpoints cache) = Inr pool0 \<and> endpoint_pool_from_staged (st_endpoints st) = Inr pool"

abbreviation ep_dirty_of :: "resource_cache \<Rightarrow> staged \<Rightarrow> endpoint_dirty" where
  "ep_dirty_of cache st \<equiv>
     endpoint_dirty_targets (changed_or_removed_endpoints (st_endpoints cache) (st_endpoints st)) st
       (build_ep_index (st_refs st)) (rc_ep_index cache)"

lemma ep_dirty_marks:
  "pk \<in> set (ed_routes (ep_dirty_of cache st)) \<longleftrightarrow> RouteId pk \<in> set (touched cache st) \<and> map_of (st_routes st) pk \<noteq> None"
  "ed_passthrough (ep_dirty_of cache st) \<longleftrightarrow> (\<exists>p. PassthroughId p \<in> set (touched cache st))"
  "ed_terminate (ep_dirty_of cache st) \<longleftrightarrow> (\<exists>p. TerminateId p \<in> set (touched cache st))"
  "ed_tcp (ep_dirty_of cache st) \<longleftrightarrow> (\<exists>p. TcpId p \<in> set (touched cache st))"
  "ed_udp (ep_dirty_of cache st) \<longleftrightarrow> (\<exists>p. UdpId p \<in> set (touched cache st))"
  unfolding endpoint_dirty_targets_alt touched_def[symmetric]
  by (simp_all add: mark_dirty_all endpoint_dirty_default_def)

lemma staged_over_agree:
  assumes "staged_over cache st d pool0 pool" "refs_of cache rid = Some (remdups keys)" "rid \<notin> set (touched cache st)"
  shows "agree pool0 pool keys"
  using untouched_agree[of cache st pool0 pool rid "remdups keys"] assms by (simp add: staged_over_def)

lemma route_cell_rebuild:
  assumes so: "staged_over cache st d pool0 pool" and live: "serves env mt pool0 (st_routes cache) which live"
  shows "rebuild_from env mt which pool0 pool (st_routes st) (st_routes cache) (ed_routes (ep_dirty_of cache st)) live"
proof -
  have "agree pool0 pool (collect_route_host_refs rh 0)"
    if rh: "map_of (st_routes st) pk = Some rh" "map_of (st_routes cache) pk = Some rh"
      and clean: "pk \<notin> set (ed_routes (ep_dirty_of cache st))" for pk rh
  proof -
    have "RouteId pk \<notin> set (touched cache st)" using clean rh by (simp add: ep_dirty_marks)
    then show ?thesis using staged_over_agree[OF so, of "RouteId pk"] rh by (simp add: refs_of_def)
  qed
  then show ?thesis using so live by (simp add: rebuild_from_def staged_over_def staged_ok_def)
qed

lemma route_cell_serves:
  assumes "staged_over cache st d pool0 pool"
    and "rebuild_route_table env mt which (st_routes st) (st_routes cache) (ed_routes (ep_dirty_of cache st)) live pool = Inr rr"
    and "serves env mt pool0 (st_routes cache) which live"
  shows "serves env mt pool (st_routes st) which (or_live (rr_table rr) live)"
  by (rule rebuild_serves[OF assms(2) route_cell_rebuild[OF assms(1,3)]])

lemma tls_cells_decoded:
  assumes so: "staged_over cache st d pool0 pool" and old: "compiled_with env mt pool0 cache cells"
  shows "when_dirty (sd_tls d \<and> \<not> alist_eq (st_tls st) (st_tls cache)) (decode_tls_cell (st_tls st)) = Inr new \<Longrightarrow>
      decode_tls_cell (st_tls st) = Inr (or_live new (ce_tls cells))"
    and "when_dirty (sd_client_certs d \<and> \<not> alist_eq (st_client_certs st) (st_client_certs cache))
        (decode_client_certs_cell (st_client_certs st)) = Inr new' \<Longrightarrow>
      decode_client_certs_cell (st_client_certs st) = Inr (or_live new' (ce_client_certs cells))"
proof -
  have keys: "key_field ppt_tls_port u16_try_from (st_tls st)" "key_field ppt_tls_port u16_try_from (st_tls cache)"
    "key_field pcp_port u16_try_from (st_client_certs st)" "key_field pcp_port u16_try_from (st_client_certs cache)"
    and u: "untouched cache st d"
    using so by (simp_all add: staged_over_def staged_ok_def)
  have dec: "decode_tls_cell (st_tls cache) = Inr (ce_tls cells)"
    "decode_client_certs_cell (st_client_certs cache) = Inr (ce_client_certs cells)"
    using old by (simp_all add: compiled_with_def)
  show "decode_tls_cell (st_tls st) = Inr (or_live new (ce_tls cells))"
    if "when_dirty (sd_tls d \<and> \<not> alist_eq (st_tls st) (st_tls cache)) (decode_tls_cell (st_tls st)) = Inr new"
  proof (rule or_live_when_dirty[OF that])
    assume "\<not> (sd_tls d \<and> \<not> alist_eq (st_tls st) (st_tls cache))"
    then have "map_of (st_tls st) = map_of (st_tls cache)" using u by (auto simp: untouched_def alist_eq_iff)
    then show "decode_tls_cell (st_tls st) = Inr (ce_tls cells)" using decode_coarse_cong(1)[OF keys(1,2)] dec(1) by simp
  qed
  show "decode_client_certs_cell (st_client_certs st) = Inr (or_live new' (ce_client_certs cells))"
    if "when_dirty (sd_client_certs d \<and> \<not> alist_eq (st_client_certs st) (st_client_certs cache))
        (decode_client_certs_cell (st_client_certs st)) = Inr new'"
  proof (rule or_live_when_dirty[OF that])
    assume "\<not> (sd_client_certs d \<and> \<not> alist_eq (st_client_certs st) (st_client_certs cache))"
    then have "map_of (st_client_certs st) = map_of (st_client_certs cache)" using u by (auto simp: untouched_def alist_eq_iff)
    then show "decode_client_certs_cell (st_client_certs st) = Inr (ce_client_certs cells)"
      using decode_coarse_cong(2)[OF keys(3,4)] dec(2) by simp
  qed
qed

lemma status_cell_decoded:
  assumes so: "staged_over cache st d pool0 pool" and old: "compiled_with env mt pool0 cache cells"
    and w: "when_dirty (sd_listener_status d \<and> \<not> alist_eq (st_listener_status st) (st_listener_status cache))
         (rmap (\<lambda>m. (m, derive_listener_hostnames m)) (decode_listener_status_cell env (st_listener_status st))) = Inr new"
  shows "\<exists>m. decode_listener_status_cell env (st_listener_status st) = Inr m \<and>
           or_live new (sh_map (ce_status cells), ce_listener_hostnames cells) = (m, derive_listener_hostnames m)"
proof -
  have keys: "key_field pgs_object_key object_key_from_str (st_listener_status st)"
    "key_field pgs_object_key object_key_from_str (st_listener_status cache)" and u: "untouched cache st d"
    using so by (simp_all add: staged_over_def staged_ok_def)
  have "rmap (\<lambda>m. (m, derive_listener_hostnames m)) (decode_listener_status_cell env (st_listener_status st)) =
      Inr (or_live new (sh_map (ce_status cells), ce_listener_hostnames cells))"
  proof (rule or_live_when_dirty[OF w])
    assume "\<not> (sd_listener_status d \<and> \<not> alist_eq (st_listener_status st) (st_listener_status cache))"
    then have "map_of (st_listener_status st) = map_of (st_listener_status cache)" using u by (auto simp: untouched_def alist_eq_iff)
    then have "decode_listener_status_cell env (st_listener_status st) = decode_listener_status_cell env (st_listener_status cache)"
      by (rule decode_coarse_cong(3)[OF keys])
    then show "rmap (\<lambda>m. (m, derive_listener_hostnames m)) (decode_listener_status_cell env (st_listener_status st)) =
        Inr (sh_map (ce_status cells), ce_listener_hostnames cells)"
      using old by (simp add: compiled_with_def)
  qed
  then show ?thesis by (auto simp: rmap_Inr_iff)
qed


lemma passthrough_cell_decoded:
  assumes so: "staged_over cache st d pool0 pool"
    and rid: "\<And>p pe. map_of mc p = Some pe \<Longrightarrow> refs_of cache (rid p) = Some (remdups (passthrough_refs pe))"
    and k: "key_field ppt_port u16_try_from ms" "key_field ppt_port u16_try_from mc"
    and live: "decode_passthrough_cell env mc pool0 = Inr live"
    and c: "\<not> c \<Longrightarrow> (\<forall>p. rid p \<notin> set (touched cache st)) \<and> map_of ms = map_of mc"
    and w: "when_dirty c (decode_passthrough_cell env ms pool) = Inr new"
  shows "decode_passthrough_cell env ms pool = Inr (or_live new live)"
proof (rule or_live_when_dirty[OF w])
  assume "\<not> c"
  then have t: "\<And>p. rid p \<notin> set (touched cache st)" and m: "map_of mc = map_of ms" using c by auto
  have "decode_passthrough_cell env mc pool0 = decode_passthrough_cell env ms pool"
    by (rule decode_l4_cong[OF m k(2,1)]) (rule staged_over_agree[OF so rid t])
  then show "decode_passthrough_cell env ms pool = Inr live" using live by simp
qed

lemma l4_cell_decoded:
  assumes so: "staged_over cache st d pool0 pool"
    and rid: "\<And>p pe. map_of mc p = Some pe \<Longrightarrow> refs_of cache (rid p) = Some (remdups (l4_refs pe))"
    and k: "key_field pl4_port u16_try_from ms" "key_field pl4_port u16_try_from mc"
    and c: "\<not> c \<Longrightarrow> (\<forall>p. rid p \<notin> set (touched cache st)) \<and> map_of ms = map_of mc"
  shows "decode_tcp_cell env mc pool0 = Inr live \<Longrightarrow> when_dirty c (decode_tcp_cell env ms pool) = Inr new \<Longrightarrow>
      decode_tcp_cell env ms pool = Inr (or_live new live)"
    and "decode_udp_cell env mc pool0 = Inr live' \<Longrightarrow> when_dirty c (decode_udp_cell env ms pool) = Inr new' \<Longrightarrow>
      decode_udp_cell env ms pool = Inr (or_live new' live')"
proof -
  have same: "decode_tcp_cell env mc pool0 = decode_tcp_cell env ms pool \<and> decode_udp_cell env mc pool0 = decode_udp_cell env ms pool"
    if "\<not> c"
  proof -
    have t: "\<And>p. rid p \<notin> set (touched cache st)" and m: "map_of mc = map_of ms" using c[OF that] by auto
    have a: "agree pool0 pool (l4_refs pe)" if "map_of mc p = Some pe" for p pe
      by (rule staged_over_agree[OF so rid[OF that] t])
    show ?thesis using decode_l4_cong'[OF m k(2,1)] a by blast
  qed
  show "decode_tcp_cell env ms pool = Inr (or_live new live)"
    if "decode_tcp_cell env mc pool0 = Inr live" "when_dirty c (decode_tcp_cell env ms pool) = Inr new"
    by (rule or_live_when_dirty[OF that(2)]) (use same that(1) in simp)
  show "decode_udp_cell env ms pool = Inr (or_live new' live')"
    if "decode_udp_cell env mc pool0 = Inr live'" "when_dirty c (decode_udp_cell env ms pool) = Inr new'"
    by (rule or_live_when_dirty[OF that(2)]) (use same that(1) in simp)
qed

lemma l4_cells_decoded:
  assumes so: "staged_over cache st d pool0 pool" and old: "compiled_with env mt pool0 cache cells"
  shows "when_dirty (ed_passthrough (ep_dirty_of cache st) \<or> sd_passthrough d \<and> \<not> alist_eq (st_passthrough st) (st_passthrough cache))
      (decode_passthrough_cell env (st_passthrough st) pool) = Inr n1 \<Longrightarrow>
      decode_passthrough_cell env (st_passthrough st) pool = Inr (or_live n1 (ce_passthrough cells))"
    and "when_dirty (ed_terminate (ep_dirty_of cache st) \<or> sd_terminate d \<and> \<not> alist_eq (st_terminate st) (st_terminate cache))
      (decode_passthrough_cell env (st_terminate st) pool) = Inr n2 \<Longrightarrow>
      decode_passthrough_cell env (st_terminate st) pool = Inr (or_live n2 (ce_terminate cells))"
    and "when_dirty (ed_tcp (ep_dirty_of cache st) \<or> sd_tcp d \<and> \<not> alist_eq (st_tcp st) (st_tcp cache))
      (decode_tcp_cell env (st_tcp st) pool) = Inr n3 \<Longrightarrow>
      decode_tcp_cell env (st_tcp st) pool = Inr (or_live n3 (ce_tcp cells))"
    and "when_dirty (ed_udp (ep_dirty_of cache st) \<or> sd_udp d \<and> \<not> alist_eq (st_udp st) (st_udp cache))
      (decode_udp_cell env (st_udp st) pool) = Inr n4 \<Longrightarrow>
      decode_udp_cell env (st_udp st) pool = Inr (or_live n4 (ce_udp cells))"
proof -
  have st: "staged_ok st" "staged_ok cache" "untouched cache st d" using so by (simp_all add: staged_over_def)
  have keys: "key_field ppt_port u16_try_from (st_passthrough st)" "key_field ppt_port u16_try_from (st_passthrough cache)"
    "key_field ppt_port u16_try_from (st_terminate st)" "key_field ppt_port u16_try_from (st_terminate cache)"
    "key_field pl4_port u16_try_from (st_tcp st)" "key_field pl4_port u16_try_from (st_tcp cache)"
    "key_field pl4_port u16_try_from (st_udp st)" "key_field pl4_port u16_try_from (st_udp cache)"
    using st(1,2) by (simp_all add: staged_ok_def)
  have olds: "decode_passthrough_cell env (st_passthrough cache) pool0 = Inr (ce_passthrough cells)"
    "decode_passthrough_cell env (st_terminate cache) pool0 = Inr (ce_terminate cells)"
    "decode_tcp_cell env (st_tcp cache) pool0 = Inr (ce_tcp cells)"
    "decode_udp_cell env (st_udp cache) pool0 = Inr (ce_udp cells)"
    using old by (simp_all add: compiled_with_def)
  have u: "\<not> sd_passthrough d \<Longrightarrow> st_passthrough st = st_passthrough cache" "\<not> sd_terminate d \<Longrightarrow> st_terminate st = st_terminate cache"
    "\<not> sd_tcp d \<Longrightarrow> st_tcp st = st_tcp cache" "\<not> sd_udp d \<Longrightarrow> st_udp st = st_udp cache"
    using st(3) by (simp_all add: untouched_def)
  note facts = refs_of_def ep_dirty_marks alist_eq_iff
  show "decode_passthrough_cell env (st_passthrough st) pool = Inr (or_live n1 (ce_passthrough cells))"
    if "when_dirty (ed_passthrough (ep_dirty_of cache st) \<or> sd_passthrough d \<and> \<not> alist_eq (st_passthrough st) (st_passthrough cache))
      (decode_passthrough_cell env (st_passthrough st) pool) = Inr n1"
    by (rule passthrough_cell_decoded[OF so _ keys(1,2) olds(1) _ that, of PassthroughId]) (auto simp: facts dest: u(1))
  show "decode_passthrough_cell env (st_terminate st) pool = Inr (or_live n2 (ce_terminate cells))"
    if "when_dirty (ed_terminate (ep_dirty_of cache st) \<or> sd_terminate d \<and> \<not> alist_eq (st_terminate st) (st_terminate cache))
      (decode_passthrough_cell env (st_terminate st) pool) = Inr n2"
    by (rule passthrough_cell_decoded[OF so _ keys(3,4) olds(2) _ that, of TerminateId]) (auto simp: facts dest: u(2))
  show "decode_tcp_cell env (st_tcp st) pool = Inr (or_live n3 (ce_tcp cells))"
    if "when_dirty (ed_tcp (ep_dirty_of cache st) \<or> sd_tcp d \<and> \<not> alist_eq (st_tcp st) (st_tcp cache))
      (decode_tcp_cell env (st_tcp st) pool) = Inr n3"
    by (rule l4_cell_decoded(1)[OF so _ keys(5,6) _ olds(3) that, of TcpId]) (auto simp: facts dest: u(3))
  show "decode_udp_cell env (st_udp st) pool = Inr (or_live n4 (ce_udp cells))"
    if "when_dirty (ed_udp (ep_dirty_of cache st) \<or> sd_udp d \<and> \<not> alist_eq (st_udp st) (st_udp cache))
      (decode_udp_cell env (st_udp st) pool) = Inr n4"
    by (rule l4_cell_decoded(2)[OF so _ keys(7,8) _ olds(4) that, of UdpId]) (auto simp: facts dest: u(4))
qed

lemma commit_cells_sel [simp]:
  "ce_ingress (commit_cells c cells) = or_live (rr_table (co_ingress c)) (ce_ingress cells)"
  "ce_gateway (commit_cells c cells) = or_live (rr_table (co_gateway c)) (ce_gateway cells)"
  "ce_tls (commit_cells c cells) = or_live (co_tls c) (ce_tls cells)"
  "ce_client_certs (commit_cells c cells) = or_live (co_client_certs c) (ce_client_certs cells)"
  "ce_passthrough (commit_cells c cells) = or_live (co_passthrough c) (ce_passthrough cells)"
  "ce_terminate (commit_cells c cells) = or_live (co_terminate c) (ce_terminate cells)"
  "ce_tcp (commit_cells c cells) = or_live (co_tcp c) (ce_tcp cells)"
  "ce_udp (commit_cells c cells) = or_live (co_udp c) (ce_udp cells)"
  by (simp_all add: commit_cells_def)

lemma commit_cells_status:
  "(sh_map (ce_status (commit_cells c cells)), ce_listener_hostnames (commit_cells c cells)) =
     or_live (co_listener_status c) (sh_map (ce_status cells), ce_listener_hostnames cells)"
  by (cases "co_listener_status c") (auto simp: commit_cells_def or_live_def store_and_notify_def)

lemma compile_phase_serves:
  assumes c: "compile_phase env mt cache cells st d (build_ep_index (st_refs st)) = Inr c"
    and sy: "synced env mt cache cells" and st: "staged_ok st" "untouched cache st d"
  shows "synced env mt (commit_cache st (build_ep_index (st_refs st))) (commit_cells c cells)"
proof -
  obtain pool0 where ca: "staged_ok cache" "rc_ep_index cache = build_ep_index (st_refs cache)"
    and pool0: "endpoint_pool_from_staged (st_endpoints cache) = Inr pool0" and old: "compiled_with env mt pool0 cache cells"
    using sy by (auto simp: synced_def)
  from c obtain pool where pool: "endpoint_pool_from_staged (st_endpoints st) = Inr pool"
    and new: "compiled_with env mt pool st (commit_cells c cells)"
  proof (rule compile_phase_cases)
    fix pool ed
    assume pool: "endpoint_pool_from_staged (st_endpoints st) = Inr pool" and ed: "ed = ep_dirty_of cache st"
    note facts = that
    have so: "staged_over cache st d pool0 pool" using ca pool0 pool st by (simp add: staged_over_def)
    have olds: "serves env mt pool0 (st_routes cache) IngressTable (ce_ingress cells)"
      "serves env mt pool0 (st_routes cache) GatewayTable (ce_gateway cells)"
      using old by (simp_all add: compiled_with_def)
    note dec = route_cell_serves[OF so _ olds(1)] route_cell_serves[OF so _ olds(2)] tls_cells_decoded[OF so old]
      l4_cells_decoded[OF so old] status_cell_decoded[OF so old]
    assume r: "rebuild_route_table env mt IngressTable (st_routes st) (st_routes cache) (ed_routes ed) (ce_ingress cells) pool = Inr (co_ingress c)"
      "rebuild_route_table env mt GatewayTable (st_routes st) (st_routes cache) (ed_routes ed) (ce_gateway cells) pool = Inr (co_gateway c)"
      and t: "when_dirty (sd_tls d \<and> \<not> alist_eq (st_tls st) (st_tls cache)) (decode_tls_cell (st_tls st)) = Inr (co_tls c)"
      "when_dirty (sd_client_certs d \<and> \<not> alist_eq (st_client_certs st) (st_client_certs cache))
         (decode_client_certs_cell (st_client_certs st)) = Inr (co_client_certs c)"
      and ls: "when_dirty (sd_listener_status d \<and> \<not> alist_eq (st_listener_status st) (st_listener_status cache))
         (rmap (\<lambda>m. (m, derive_listener_hostnames m)) (decode_listener_status_cell env (st_listener_status st))) = Inr (co_listener_status c)"
      and l: "when_dirty (ed_passthrough ed \<or> sd_passthrough d \<and> \<not> alist_eq (st_passthrough st) (st_passthrough cache))
         (decode_passthrough_cell env (st_passthrough st) pool) = Inr (co_passthrough c)"
      "when_dirty (ed_terminate ed \<or> sd_terminate d \<and> \<not> alist_eq (st_terminate st) (st_terminate cache))
         (decode_passthrough_cell env (st_terminate st) pool) = Inr (co_terminate c)"
      "when_dirty (ed_tcp ed \<or> sd_tcp d \<and> \<not> alist_eq (st_tcp st) (st_tcp cache)) (decode_tcp_cell env (st_tcp st) pool) = Inr (co_tcp c)"
      "when_dirty (ed_udp ed \<or> sd_udp d \<and> \<not> alist_eq (st_udp st) (st_udp cache)) (decode_udp_cell env (st_udp st) pool) = Inr (co_udp c)"
    obtain m where m: "decode_listener_status_cell env (st_listener_status st) = Inr m"
      "or_live (co_listener_status c) (sh_map (ce_status cells), ce_listener_hostnames cells) = (m, derive_listener_hostnames m)"
      using dec(9)[OF ls] by (elim exE conjE)
    have h: "sh_map (ce_status (commit_cells c cells)) = m" "ce_listener_hostnames (commit_cells c cells) = derive_listener_hostnames m"
      using m(2) commit_cells_status[of c cells] by simp_all
    have "compiled_with env mt pool st (commit_cells c cells)"
      unfolding compiled_with_def commit_cells_sel h
      using dec(1)[OF r(1)[unfolded ed]] dec(2)[OF r(2)[unfolded ed]] dec(3)[OF t(1)] dec(4)[OF t(2)]
        dec(5)[OF l(1)[unfolded ed]] dec(6)[OF l(2)[unfolded ed]] dec(7)[OF l(3)[unfolded ed]] dec(8)[OF l(4)[unfolded ed]] m(1)
      by - (((rule conjI)?, (assumption | rule refl))+)
    then show ?thesis by (rule facts[OF pool])
  qed
  then have "compiled_with env mt pool (commit_cache st (build_ep_index (st_refs st))) (commit_cells c cells)"
    by (simp only: compiled_with_def commit_cache_sel)
  then show ?thesis using st(1) pool unfolding synced_def staged_ok_commit commit_cache_sel
    by - (rule conjI exI[of _ pool] | assumption | rule refl)+
qed

lemma apply_message_cases:
  assumes "apply_message he env mt cache msg cells expect_full verify = Inr (cache', cells', stats)"
    and "staged_ok cache" "plain_wildcards msg"
  obtains (same) "cache' = cache" "cells' = cells" "stats = apply_stats_default"
  | (rebuilt) st d c where "staged_ok st" "untouched cache st d"
      "compile_phase env mt cache cells st d (build_ep_index (st_refs st)) = Inr c"
      "cache' = commit_cache st (build_ep_index (st_refs st))" "cells' = commit_cells c cells" "stats = stats_of c"
proof -
  obtain st d index where s: "stage_message he cache msg verify = Inr (st, d, index)"
    and r: "(if rc_has_full cache \<and> alist_eq (st_digests st) (st_digests cache) then Inr (cache, cells, apply_stats_default)
       else rbind (compile_phase env mt cache cells st d index) (\<lambda>c. Inr (commit_cache st index, commit_cells c cells, stats_of c))) =
       Inr (cache', cells', stats)"
    using assms(1) by (auto simp: apply_message_def rbind_Inr_iff split: if_splits)
  note st = stage_message_ok[OF s assms(2,3)]
  show ?thesis
  proof (cases "rc_has_full cache \<and> alist_eq (st_digests st) (st_digests cache)")
    case True
    then show ?thesis using r same by simp
  next
    case False
    obtain c where c: "compile_phase env mt cache cells st d (build_ep_index (st_refs st)) = Inr c"
      and e: "(commit_cache st (build_ep_index (st_refs st)), commit_cells c cells, stats_of c) = (cache', cells', stats)"
      using r[unfolded if_not_P[OF False] rbind_Inr_iff st(3)] by (elim exE conjE) (rule that, assumption, erule Inr_inject)
    from e have "cache' = commit_cache st (build_ep_index (st_refs st))" "cells' = commit_cells c cells" "stats = stats_of c"
      by simp_all
    then show ?thesis by (rule rebuilt[OF st(1,2) c])
  qed
qed

lemma apply_message_synced:
  assumes "apply_message he env mt cache msg cells expect_full verify = Inr (cache', cells', stats)"
    and "synced env mt cache cells" "plain_wildcards msg"
  shows "synced env mt cache' cells'"
proof -
  have "staged_ok cache" using assms(2) by (simp add: synced_def)
  from assms(1) this assms(3) show ?thesis
  proof (cases rule: apply_message_cases)
    case same
    then show ?thesis using assms(2) by simp
  next
    case (rebuilt st d c)
    show ?thesis unfolding rebuilt(4,5) by (rule compile_phase_serves[OF rebuilt(3) assms(2) rebuilt(1,2)])
  qed
qed

lemma derive_listener_hostnames_Nil [simp]: "derive_listener_hostnames [] = []"
  by (simp add: derive_listener_hostnames_def listener_hostnames_build_def)

lemma synced_new: "synced env mt resource_cache_new cells_new"
proof -
  have "staged_ok resource_cache_new"
    using staged_ok_default by (simp add: resource_cache_new_def staged_ok_def staged.defs refs_of_def fun_eq_iff split: resource_id.splits)
  moreover have "serves env mt [] [] which \<lparr>rtb_by_port = [], rtb_conflicts = []\<rparr>" for which
    by (simp add: serves_def table_wf_def table_view_def served_def host_at_def)
  ultimately show ?thesis
    by (simp add: synced_def compiled_with_def resource_cache_new_def cells_new_def staged.defs staged_default_def
        build_ep_index_def endpoint_pool_from_staged_def decode_tls_cell_def port_tls_from_wire_def from_port_stores_def
        decode_client_certs_cell_def client_cert_from_wire_def client_cert_store_build_def status_handle_new_def
        decode_listener_status_cell_def listener_status_from_wire_def decode_passthrough_cell_def passthrough_from_wire_def
        passthrough_build_def decode_tcp_cell_def tcp_table_from_wire_def decode_udp_cell_def udp_table_from_wire_def)
qed

inductive applier_reachable ::
  "hash_env \<Rightarrow> ('b, 'net) wire_env \<Rightarrow> ('r, ('b, 'net) route_entry list) matchit \<Rightarrow> ('r, 'b, 'net) routing_applier \<Rightarrow> bool"
  for he env mt where
  reachable_new: "applier_reachable he env mt routing_applier_new"
| reachable_publish: "applier_reachable he env mt a \<Longrightarrow> applier_reachable he env mt (with_publish_index seq a)"
| reachable_apply: "applier_reachable he env mt a \<Longrightarrow> plain_wildcards msg \<Longrightarrow>
    applier_reachable he env mt (fst (applier_apply he env mt a msg expect_full))"
| reachable_trusted: "applier_reachable he env mt a \<Longrightarrow> plain_wildcards msg \<Longrightarrow>
    applier_reachable he env mt (fst (apply_trusted he env mt a msg expect_full))"

lemma reachable_synced: "applier_reachable he env mt a \<Longrightarrow> synced env mt (ra_cache a) (ra_cells a)"
proof (induction rule: applier_reachable.induct)
  case reachable_new
  show ?case by (simp add: routing_applier_new_def synced_new)
next
  case (reachable_publish a seq)
  then show ?case by (simp add: with_publish_index_def)
next
  case (reachable_apply a msg expect_full)
  then show ?case
    using apply_message_synced[of he env mt "ra_cache a" msg "ra_cells a" expect_full True]
    by (auto simp: applier_apply_def split: sum.split)
next
  case (reachable_trusted a msg expect_full)
  then show ?case
    using apply_message_synced[of he env mt "ra_cache a" msg "ra_cells a" expect_full False]
    by (auto simp: apply_trusted_def split: sum.split)
qed


section \<open>Requests see only the cached resources\<close>

lemma wildcard_matches_suffix: "wildcard_matches host s k \<Longrightarrow> \<exists>r. host = r @ s"
  by (auto simp: wildcard_matches_def str_simps split: option.splits)

lemma wildcard_suffix_unique:
  assumes "wildcard_matches host s k" "wildcard_matches host s' k'" "length s = length s'"
  shows "s = s'"
proof -
  obtain r r' where "host = r @ s" "host = r' @ s'"
    using wildcard_matches_suffix[OF assms(1)] wildcard_matches_suffix[OF assms(2)] by blast
  then show ?thesis using assms(3) by simp
qed

lemma wildcard_entry_iff:
  "alist_wf (wildcard_map ws) \<Longrightarrow> (s, k, r) \<in> set ws \<longleftrightarrow> map_of (wildcard_map ws) (s, k) = Some r"
proof -
  assume wf: "alist_wf (wildcard_map ws)"
  have "(s, k, r) \<in> set ws \<longleftrightarrow> ((s, k), r) \<in> set (wildcard_map ws)" by (force simp: wildcard_map_def)
  then show ?thesis using wf by (simp add: alist_wf_def)
qed

lemma find_wildcard_least:
  assumes "port_wf pt" "List.find (\<lambda>(s, k, _). wildcard_matches host s k) (pt_wildcard_hosts pt) = Some (s, k, r)"
    and "map_of (wildcard_map (pt_wildcard_hosts pt)) (s', k') = Some r'" "wildcard_matches host s' k'"
  shows "wildcard_rank (s, k, r) \<le> wildcard_rank (s', k', r')"
proof -
  have wf: "alist_wf (wildcard_map (pt_wildcard_hosts pt))" "sorted (map wildcard_rank (pt_wildcard_hosts pt))"
    using assms(1) by (simp_all add: port_wf_def)
  have "(s', k', r') \<in> set (pt_wildcard_hosts pt)" using wildcard_entry_iff[OF wf(1)] assms(3) by simp
  from sorted_find_least[OF wf(2) assms(2) this] show ?thesis using assms(4) by simp
qed

lemma find_wildcard_unique:
  assumes wf: "port_wf pt" "port_wf pt'"
    and m: "map_of (wildcard_map (pt_wildcard_hosts pt)) = map_of (wildcard_map (pt_wildcard_hosts pt'))"
  shows "List.find (\<lambda>(s, k, _). wildcard_matches host s k) (pt_wildcard_hosts pt) =
         List.find (\<lambda>(s, k, _). wildcard_matches host s k) (pt_wildcard_hosts pt')"
    (is "?f = ?f'" is "List.find ?P _ = _")
proof -
  have wf': "alist_wf (wildcard_map (pt_wildcard_hosts pt))" "alist_wf (wildcard_map (pt_wildcard_hosts pt'))"
    using wf by (simp_all add: port_wf_def)
  note mem = wildcard_entry_iff[OF wf'(1)] wildcard_entry_iff[OF wf'(2)]
  have eq: "(s, k, r) \<in> set (pt_wildcard_hosts pt) \<longleftrightarrow> (s, k, r) \<in> set (pt_wildcard_hosts pt')" for s k r
    by (simp only: mem m)
  then have set: "set (pt_wildcard_hosts pt) = set (pt_wildcard_hosts pt')" by (simp add: set_eq_iff split_paired_all)
  show ?thesis
  proof (cases ?f)
    case None
    then have "?f' = None" unfolding find_None_iff set .
    then show ?thesis using None by simp
  next
    case (Some x)
    then have "?f' \<noteq> None" unfolding find_None_iff set[symmetric] using find_SomeD[OF Some] by blast
    then obtain y where y: "?f' = Some y" by (elim not_None_eq[THEN iffD1, THEN exE])
    obtain s k r where x: "x = (s, k, r)" by (rule prod_cases3)
    obtain s' k' r' where y': "y = (s', k', r')" by (rule prod_cases3)
    have xin: "map_of (wildcard_map (pt_wildcard_hosts pt)) (s, k) = Some r" "wildcard_matches host s k"
      using find_SomeD[OF Some] by (simp_all add: x mem)
    have yin: "map_of (wildcard_map (pt_wildcard_hosts pt')) (s', k') = Some r'" "wildcard_matches host s' k'"
      using find_SomeD[OF y] by (simp_all add: y' mem)
    have "wildcard_rank (s, k, r) \<le> wildcard_rank (s', k', r')"
      by (rule find_wildcard_least[OF wf(1) Some[unfolded x] yin(1)[folded m] yin(2)])
    moreover have "wildcard_rank (s', k', r') \<le> wildcard_rank (s, k, r)"
      by (rule find_wildcard_least[OF wf(2) y[unfolded y'] xin(1)[unfolded m] xin(2)])
    ultimately have "length s = length s' \<and> k = k'" unfolding wildcard_rank_le by (cases k; cases k') auto
    then have lk: "length s = length s'" "k = k'" by simp_all
    have "s = s'" by (rule wildcard_suffix_unique[OF xin(2) yin(2) lk(1)])
    then have "r = r'" using xin(1) yin(1) by (simp add: lk m)
    then show ?thesis by (simp only: Some y x y' lk \<open>s = s'\<close>)
  qed
qed

lemma resolve_host_view:
  assumes "port_wf pt" "port_wf pt'" "\<And>hk. port_view pt hk = port_view pt' hk"
  shows "resolve_host pt host = resolve_host pt' host"
proof -
  have "map_of (wildcard_map (pt_wildcard_hosts pt)) x = map_of (wildcard_map (pt_wildcard_hosts pt')) x" for x
    using assms(3)[of "HostWildcard (fst x) (snd x)"] by (simp add: port_view_def)
  note f = find_wildcard_unique[OF assms(1,2) ext[OF this], of host]
  show ?thesis
    using assms(3)[of "HostExact host"] assms(3)[of HostCatchall] unfolding resolve_host_def f
    by (simp add: port_view_def split: option.split)
qed

lemma resolve_host_empty:
  assumes "port_wf pt" "\<And>hk. port_view pt hk = None"
  shows "resolve_host pt host = None"
proof -
  let ?e = "\<lparr>pt_exact_hosts = [], pt_wildcard_hosts = [], pt_catchall = None\<rparr>"
  have "resolve_host pt host = resolve_host ?e host"
  proof (rule resolve_host_view[OF assms(1)])
    show "port_wf ?e" by (simp add: port_wf_def wildcard_map_def)
    show "port_view pt hk = port_view ?e hk" for hk
      using assms(2) by (simp add: port_view_def wildcard_map_def split: host_key.split)
  qed
  then show ?thesis by (simp add: resolve_host_def)
qed

lemma table_find_view:
  assumes "table_wf t" "table_wf t'" "table_view t = table_view t'"
  shows "table_find mt env t port host path ctx = table_find mt env t' port host path ctx"
proof -
  have v: "Option.bind (map_of (rtb_by_port t) port) (\<lambda>pt. port_view pt hk) =
           Option.bind (map_of (rtb_by_port t') port) (\<lambda>pt. port_view pt hk)" for hk
    using fun_cong[OF fun_cong[OF assms(3), of port], of hk] by (simp add: table_view_def)
  have none: "port_find mt env pt host path ctx = NoHost" if "port_wf pt" "\<And>hk. port_view pt hk = None" for pt
    using resolve_host_empty[OF that] by (simp add: port_find_def)
  show ?thesis
  proof (cases "map_of (rtb_by_port t) port"; cases "map_of (rtb_by_port t') port")
    fix pt pt' assume p: "map_of (rtb_by_port t) port = Some pt" "map_of (rtb_by_port t') port = Some pt'"
    then have "resolve_host pt host = resolve_host pt' host"
      using assms(1,2) v by (intro resolve_host_view) (auto simp: table_wf_def)
    then show ?thesis using p by (simp add: table_find_def port_find_def)
  qed (use v none assms(1,2) in \<open>auto simp: table_find_def table_wf_def\<close>)
qed

end
