(* ===== verification/Discovery_Guarantees.thy ===== *)
theory Discovery_Guarantees
  imports Discovery_Sync Wire_Groups
begin

text \<open>
  What the discovery client guarantees of the cells it publishes, for every history of snapshots and
  deltas an applier (\<open>crates/coxswain-discovery/src/apply.rs\<close>) can have received: the live cells are
  the compilation of the cached resources, two replicas with the same resources answer alike, the
  accepted version is the hash of what is cached, and no cached reference dangles.
\<close>

section \<open>The cells are determined by the cached resources\<close>

definition same_resources :: "resource_cache \<Rightarrow> resource_cache \<Rightarrow> bool" where
  "same_resources c c' \<longleftrightarrow>
     map_of (st_routes c) = map_of (st_routes c') \<and> map_of (st_tls c) = map_of (st_tls c') \<and>
     map_of (st_client_certs c) = map_of (st_client_certs c') \<and>
     map_of (st_listener_status c) = map_of (st_listener_status c') \<and>
     map_of (st_passthrough c) = map_of (st_passthrough c') \<and> map_of (st_terminate c) = map_of (st_terminate c') \<and>
     map_of (st_tcp c) = map_of (st_tcp c') \<and> map_of (st_udp c) = map_of (st_udp c') \<and>
     map_of (st_endpoints c) = map_of (st_endpoints c')"

lemma same_pool:
  assumes "staged_ok c" "staged_ok c'" "map_of (st_endpoints c) = map_of (st_endpoints c')"
    and "endpoint_pool_from_staged (st_endpoints c) = Inr pool" "endpoint_pool_from_staged (st_endpoints c') = Inr pool'"
  shows "agree pool pool' ks"
  using assms(1,2,3) pool_lookup[OF assms(4)] pool_lookup[OF assms(5)] by (simp add: agree_def staged_ok_def)

lemma serves_determined:
  assumes "serves env mt pool routes which t" "serves env mt pool' routes' which t'"
    and "map_of routes = map_of routes'" and a: "\<And>ks. agree pool pool' ks"
  shows "table_find mt menv t port host path ctx = table_find mt menv t' port host path ctx"
proof (rule table_find_view)
  show "table_wf t" "table_wf t'" using assms(1,2) by (simp_all add: serves_def)
  have "served env mt pool routes pk = served env mt pool' routes' pk" for pk
    by (simp add: served_def host_at_def assms(3) compile_host_local[OF a])
  then have "table_view t p h = table_view t' p h" for p h
    using assms(1,2) unfolding serves_def
    by (metis (no_types, lifting) route_partition_key.select_convs(1,2,3))
  then show "table_view t = table_view t'" by (intro ext)
qed

lemma decoded_determined:
  assumes s: "staged_ok c" "staged_ok c'" "same_resources c c'" and a: "\<And>ks. agree pool pool' ks"
  shows "decode_tls_cell (st_tls c) = decode_tls_cell (st_tls c')"
    and "decode_client_certs_cell (st_client_certs c) = decode_client_certs_cell (st_client_certs c')"
    and "decode_listener_status_cell env (st_listener_status c) = decode_listener_status_cell env (st_listener_status c')"
    and "decode_passthrough_cell env (st_passthrough c) pool = decode_passthrough_cell env (st_passthrough c') pool'"
    and "decode_passthrough_cell env (st_terminate c) pool = decode_passthrough_cell env (st_terminate c') pool'"
    and "decode_tcp_cell env (st_tcp c) pool = decode_tcp_cell env (st_tcp c') pool'"
    and "decode_udp_cell env (st_udp c) pool = decode_udp_cell env (st_udp c') pool'"
  using s unfolding staged_ok_def same_resources_def
  by (auto intro!: decode_coarse_cong decode_l4_cong decode_l4_cong' a)


lemma synced_determined:
  assumes "synced env mt c cells" "synced env mt c' cells'" "same_resources c c'"
  shows "table_find mt menv (ce_ingress cells) port host path ctx = table_find mt menv (ce_ingress cells') port host path ctx"
    and "table_find mt menv (ce_gateway cells) port host path ctx = table_find mt menv (ce_gateway cells') port host path ctx"
    and "ce_tls cells = ce_tls cells'" "ce_client_certs cells = ce_client_certs cells'"
    and "sh_map (ce_status cells) = sh_map (ce_status cells')" "ce_listener_hostnames cells = ce_listener_hostnames cells'"
    and "ce_passthrough cells = ce_passthrough cells'" "ce_terminate cells = ce_terminate cells'"
    and "ce_tcp cells = ce_tcp cells'" "ce_udp cells = ce_udp cells'"
proof -
  obtain pool pool' where ok: "staged_ok c" "staged_ok c'" and pool: "endpoint_pool_from_staged (st_endpoints c) = Inr pool"
    "endpoint_pool_from_staged (st_endpoints c') = Inr pool'"
    and co: "compiled_with env mt pool c cells" "compiled_with env mt pool' c' cells'"
    using assms(1,2) unfolding synced_def by blast
  have eps: "map_of (st_endpoints c) = map_of (st_endpoints c')" and routes: "map_of (st_routes c) = map_of (st_routes c')"
    using assms(3) by (simp_all add: same_resources_def)
  have a: "\<And>ks. agree pool pool' ks" by (rule same_pool[OF ok eps pool])
  note dec = decoded_determined[OF ok assms(3) a]
  show "table_find mt menv (ce_ingress cells) port host path ctx = table_find mt menv (ce_ingress cells') port host path ctx"
    "table_find mt menv (ce_gateway cells) port host path ctx = table_find mt menv (ce_gateway cells') port host path ctx"
    using co unfolding compiled_with_def by (auto intro: serves_determined[OF _ _ routes a])
  show "ce_tls cells = ce_tls cells'" "ce_client_certs cells = ce_client_certs cells'"
    "sh_map (ce_status cells) = sh_map (ce_status cells')" "ce_listener_hostnames cells = ce_listener_hostnames cells'"
    "ce_passthrough cells = ce_passthrough cells'" "ce_terminate cells = ce_terminate cells'"
    "ce_tcp cells = ce_tcp cells'" "ce_udp cells = ce_udp cells'"
    using co unfolding compiled_with_def dec by simp_all
qed

section \<open>No cached reference dangles\<close>

lemma cached_member: "map_of m p = Some pe \<Longrightarrow> pe \<in> set (sort_key f (map snd m))"
  by (force dest: map_of_SomeD)

lemma route_refs_resolve:
  assumes "serves env mt pool routes (pk_table pk) t" "map_of routes pk = Some rh"
  shows "resolves pool (collect_route_host_refs rh 0)"
proof -
  have "served env mt pool routes pk \<noteq> None" using assms by (simp add: serves_def)
  then obtain he r where "prh_host rh = Some he" "compile_host env mt pool he = Inr r"
    using assms(2) by (auto simp: served_def host_at_def bind_eq_None_conv split: sum.splits)
  then show ?thesis using compile_host_resolves by (simp add: collect_route_host_refs_host)
qed

lemma l4_refs_resolve:
  "decode_passthrough_cell env m pool = Inr t \<Longrightarrow> map_of m p = Some pe \<Longrightarrow> resolves pool (passthrough_refs pe)"
  "decode_tcp_cell env m' pool = Inr t' \<Longrightarrow> map_of m' p = Some pe' \<Longrightarrow> resolves pool (l4_refs pe')"
  "decode_udp_cell env m' pool = Inr t'' \<Longrightarrow> map_of m' p = Some pe' \<Longrightarrow> resolves pool (l4_refs pe')"
  unfolding decode_passthrough_cell_def decode_tcp_cell_def decode_udp_cell_def tcp_table_from_wire_def udp_table_from_wire_def
  by (erule passthrough_resolves l4_resolves; erule cached_member)+

lemma compiled_resolves:
  assumes co: "compiled_with env mt pool c cells" and r: "refs_of c rid = Some keys"
  shows "resolves pool keys"
proof -
  have remdups: "resolves pool (remdups ks) \<longleftrightarrow> resolves pool ks" for ks by (simp add: resolves_def)
  have dec: "decode_passthrough_cell env (st_passthrough c) pool = Inr (ce_passthrough cells)"
    "decode_passthrough_cell env (st_terminate c) pool = Inr (ce_terminate cells)"
    "decode_tcp_cell env (st_tcp c) pool = Inr (ce_tcp cells)" "decode_udp_cell env (st_udp c) pool = Inr (ce_udp cells)"
    using co by (simp_all add: compiled_with_def)
  have "serves env mt pool (st_routes c) (pk_table pk)
      (case pk_table pk of IngressTable \<Rightarrow> ce_ingress cells | GatewayTable \<Rightarrow> ce_gateway cells)" for pk
    using co by (simp add: compiled_with_def split: route_table.split)
  note serves = route_refs_resolve[OF this]
  show ?thesis
    using r by (auto simp: refs_of_def remdups split: resource_id.splits
        intro: serves l4_refs_resolve(1)[OF dec(1)] l4_refs_resolve(1)[OF dec(2)] l4_refs_resolve(2)[OF dec(3)] l4_refs_resolve(3)[OF dec(4)])
qed

lemma synced_resolves:
  assumes "synced env mt c cells" "refs_of c rid = Some keys" "k \<in> set keys"
  shows "map_of (st_endpoints c) k \<noteq> None"
proof -
  obtain pool where pool: "endpoint_pool_from_staged (st_endpoints c) = Inr pool" and co: "compiled_with env mt pool c cells"
    and ok: "staged_ok c"
    using assms(1) unfolding synced_def by blast
  have "map_of pool k \<noteq> None" using compiled_resolves[OF co assms(2)] assms(3) unfolding resolves_def by (rule bspec)
  moreover have "alist_wf (st_endpoints c)" using ok by (simp add: staged_ok_def)
  ultimately show ?thesis unfolding pool_lookup[OF pool \<open>alist_wf (st_endpoints c)\<close>] by simp
qed


section \<open>The accepted version\<close>

lemma alist_eq_values:
  assumes "alist_wf m" "alist_wf m'" "alist_eq m m'"
  shows "mset (map snd m) = mset (map snd m')"
proof -
  have "map_of m = map_of m'" using assms(3) by (simp add: alist_eq_iff)
  then have "set m = set m'" using assms(1,2) by (metis alist_wf_def map_of_eqI map_of_inject_set map_of_eq_Some_iff)
  moreover have "distinct m" "distinct m'" using assms(1,2) by (simp_all add: alist_wf_def distinct_map)
  ultimately have "mset m = mset m'" by (simp add: set_eq_iff_mset_eq_distinct)
  then show ?thesis by simp
qed

lemma from_per_resource_order: "mset hs = mset hs' \<Longrightarrow> from_per_resource he hs = from_per_resource he hs'"
proof -
  assume "mset hs = mset hs'"
  then have "sort hs = sort hs'" by (intro properties_for_sort) simp_all
  then show ?thesis by (simp only: from_per_resource_def)
qed


lemma apply_message_version:
  assumes a: "apply_message he env mt cache msg cells expect_full True = Inr (cache', cells', stats)"
    and ok: "staged_ok cache" and pw: "plain_wildcards msg"
  shows "from_per_resource he (map snd (st_digests cache')) = psn_version msg"
proof -
  obtain st d index where s: "stage_message he cache msg True = Inr (st, d, index)"
    and r: "(if rc_has_full cache \<and> alist_eq (st_digests st) (st_digests cache) then Inr (cache, cells, apply_stats_default)
       else rbind (compile_phase env mt cache cells st d index) (\<lambda>c. Inr (commit_cache st index, commit_cells c cells, stats_of c))) =
       Inr (cache', cells', stats)"
    using a by (auto simp: apply_message_def rbind_Inr_iff split: if_splits)
  note st = stage_message_ok[OF s ok pw]
  have wf: "alist_wf (st_digests st)" "alist_wf (st_digests cache)" using st(1) ok by (simp_all add: staged_ok_def)
  have "mset (map snd (st_digests st)) = mset (map snd (st_digests cache'))"
  proof (cases "rc_has_full cache \<and> alist_eq (st_digests st) (st_digests cache)")
    case True
    then have "cache' = cache" using r by simp
    then show ?thesis using alist_eq_values[OF wf] True by simp
  next
    case False
    then have "cache' = commit_cache st index" using r by (auto simp: rbind_Inr_iff simp del: commit_cells_sel)
    then show ?thesis by simp
  qed
  from from_per_resource_order[OF this] show ?thesis using st(4) by simp
qed

section \<open>What is recompiled\<close>

text \<open>A route partition is stale when its resource or an endpoint set it refers to differs.\<close>

definition partition_stale :: "resource_cache \<Rightarrow> 'z staged_scheme \<Rightarrow> route_partition_key \<times> p_route_host_resource \<Rightarrow> bool" where
  "partition_stale c c' e \<longleftrightarrow>
     map_of (st_routes c) (fst e) \<noteq> Some (snd e) \<or>
     (\<exists>k\<in>set (collect_route_host_refs (snd e) 0). map_of (st_endpoints c) k \<noteq> map_of (st_endpoints c') k)"

lemma touched_route:
  assumes "staged_over cache st d pool0 pool" "map_of (st_routes st) pk = Some rh" "map_of (st_routes cache) pk = Some rh"
  shows "RouteId pk \<in> set (touched cache st) \<longleftrightarrow>
     (\<exists>k\<in>set (collect_route_host_refs rh 0). map_of (st_endpoints cache) k \<noteq> map_of (st_endpoints st) k)"
proof -
  have ok: "staged_ok cache" "staged_ok st" "rc_ep_index cache = build_ep_index (st_refs cache)" "alist_wf (st_endpoints st)"
    using assms(1) by (simp_all add: staged_over_def staged_ok_def)
  have "refs_of st (RouteId pk) = Some (remdups (collect_route_host_refs rh 0))"
    "refs_of cache (RouteId pk) = Some (remdups (collect_route_host_refs rh 0))"
    using assms(2,3) by (simp_all add: refs_of_def)
  then have "RouteId pk \<in> set (index_get (rc_ep_index cache) k @ index_get (build_ep_index (st_refs st)) k) \<longleftrightarrow>
      k \<in> set (collect_route_host_refs rh 0)" for k
    by (simp add: ok(3) refs_of_index[OF ok(1)] refs_of_index[OF ok(2)])
  then show ?thesis by (auto simp: touched_def changed_endpoints_iff[OF ok(4)])
qed

lemma dirty_partitions_stale:
  assumes so: "staged_over cache st d pool0 pool" and live: "serves env mt pool0 (st_routes cache) which live"
  shows "dirty_partitions which (st_routes st) (st_routes cache) (ed_routes (ep_dirty_of cache st)) live =
     map fst (filter (\<lambda>e. pk_table (fst e) = which \<and> partition_stale cache st e) (st_routes st))"
proof -
  note k = rebuild_from_keyed[OF route_cell_rebuild[OF so live]]
  have stale: "(map_of (st_routes cache) pk \<noteq> Some rh \<or> pk \<in> set (ed_routes (ep_dirty_of cache st)) \<or> get_partition live pk = None) \<longleftrightarrow>
      partition_stale cache st (pk, rh)"
    if e: "(pk, rh) \<in> set (st_routes st)" and w: "pk_table pk = which" for pk rh
  proof (cases "map_of (st_routes cache) pk = Some rh")
    case True
    have rh: "map_of (st_routes st) pk = Some rh" using e k(2) by (simp add: alist_wf_def)
    have "get_partition live pk \<noteq> None"
      using live w True get_partition_view[OF k(3), of pk live] rh by (simp add: serves_def)
    then show ?thesis using True rh unfolding partition_stale_def ep_dirty_marks touched_route[OF so rh True] by auto
  qed (simp add: partition_stale_def)
  have "filter (\<lambda>(pk, dto). pk_table pk = which \<and> (map_of (st_routes cache) pk \<noteq> Some dto \<or>
      pk \<in> set (ed_routes (ep_dirty_of cache st)) \<or> get_partition live pk = None)) (st_routes st) =
    filter (\<lambda>e. pk_table (fst e) = which \<and> partition_stale cache st e) (st_routes st)"
    by (rule filter_cong[OF refl], clarify) (use stale in \<open>simp only: fst_conv cong: conj_cong\<close>)
  then show ?thesis by (simp only: dirty_partitions_def)
qed

lemma compile_phase_recompiles:
  assumes c: "compile_phase env mt cache cells st d (build_ep_index (st_refs st)) = Inr c"
    and sy: "synced env mt cache cells" and st: "staged_ok st" "untouched cache st d"
  shows "as_partitions_recompiled (stats_of c) = length (filter (partition_stale cache st) (st_routes st))"
proof -
  obtain pool0 where ca: "staged_ok cache" "rc_ep_index cache = build_ep_index (st_refs cache)"
    and pool0: "endpoint_pool_from_staged (st_endpoints cache) = Inr pool0" and old: "compiled_with env mt pool0 cache cells"
    using sy by (auto simp: synced_def)
  obtain pool where pool: "endpoint_pool_from_staged (st_endpoints st) = Inr pool"
    and r: "rebuild_route_table env mt IngressTable (st_routes st) (st_routes cache) (ed_routes (ep_dirty_of cache st)) (ce_ingress cells) pool = Inr (co_ingress c)"
      "rebuild_route_table env mt GatewayTable (st_routes st) (st_routes cache) (ed_routes (ep_dirty_of cache st)) (ce_gateway cells) pool = Inr (co_gateway c)"
    using c by (rule compile_phase_cases) blast
  have so: "staged_over cache st d pool0 pool" using ca pool0 pool st by (simp add: staged_over_def)
  have live: "serves env mt pool0 (st_routes cache) IngressTable (ce_ingress cells)"
    "serves env mt pool0 (st_routes cache) GatewayTable (ce_gateway cells)"
    using old by (simp_all add: compiled_with_def)
  have "length (filter (\<lambda>e. pk_table (fst e) = IngressTable \<and> P e) es) + length (filter (\<lambda>e. pk_table (fst e) = GatewayTable \<and> P e) es) =
      length (filter P es)" for P :: "_ \<Rightarrow> bool" and es :: route_map
    by (induction es) (auto intro: route_table.exhaust)
  then show ?thesis
    using rebuild_counts(1)[OF r(1) route_cell_rebuild[OF so live(1)]] rebuild_counts(1)[OF r(2) route_cell_rebuild[OF so live(2)]]
    by (simp add: stats_of_def dirty_partitions_stale[OF so live(1)] dirty_partitions_stale[OF so live(2)])
qed

definition route_cell :: "route_table \<Rightarrow> ('r, 'b, 'net) cells \<Rightarrow> ('r, 'b, 'net) routing_table" where
  "route_cell which cells = (case which of IngressTable \<Rightarrow> ce_ingress cells | GatewayTable \<Rightarrow> ce_gateway cells)"

lemma staged_from_cache_sel [simp]:
  "st_routes (staged_from_cache c) = st_routes c" "st_endpoints (staged_from_cache c) = st_endpoints c"
  "st_refs (staged_from_cache c) = st_refs c"
  by (simp_all add: staged_from_cache_def staged.defs)

lemma staged_ok_from_cache: "staged_ok c \<Longrightarrow> staged_ok (staged_from_cache c)"
  by (simp add: staged_from_cache_def staged.defs staged_ok_def refs_of_def fun_eq_iff split: resource_id.splits)

lemma partition_stale_from_cache: "partition_stale c (staged_from_cache c') = partition_stale c c'"
  by (simp add: partition_stale_def fun_eq_iff)

text \<open>Two synchronised states, seen as one staged over the other.\<close>

lemma synced_staged_over:
  assumes "synced env mt c cells" "synced env mt c' cells'"
  obtains pool0 pool where "staged_over c (staged_from_cache c') staged_dirty_all pool0 pool"
    "serves env mt pool0 (st_routes c) which (route_cell which cells)"
    "serves env mt pool (st_routes c') which (route_cell which cells')"
    "rc_ep_index c' = build_ep_index (st_refs c')"
proof -
  obtain pool0 where p0: "staged_ok c" "rc_ep_index c = build_ep_index (st_refs c)"
    "endpoint_pool_from_staged (st_endpoints c) = Inr pool0" "compiled_with env mt pool0 c cells"
    using assms(1) unfolding synced_def by blast
  obtain pool where p: "staged_ok c'" "rc_ep_index c' = build_ep_index (st_refs c')"
    "endpoint_pool_from_staged (st_endpoints c') = Inr pool" "compiled_with env mt pool c' cells'"
    using assms(2) unfolding synced_def by blast
  show ?thesis
  proof (rule that[of pool0 pool])
    show "staged_over c (staged_from_cache c') staged_dirty_all pool0 pool"
      using p0(1-3) p(3) staged_ok_from_cache[OF p(1)] by (simp add: staged_over_def untouched_def staged_dirty_all_def)
  qed (use p0(4) p(2,4) in \<open>cases which; simp add: compiled_with_def route_cell_def\<close>)+
qed

lemma synced_dirty:
  assumes "synced env mt c cells" "synced env mt c' cells'"
  shows "\<forall>which. dirty_partitions which (st_routes c') (st_routes c)
       (ed_routes (endpoint_dirty_targets (changed_or_removed_endpoints (st_endpoints c) (st_endpoints c'))
          (staged_from_cache c') (rc_ep_index c') (rc_ep_index c))) (route_cell which cells) =
     map fst (filter (\<lambda>e. pk_table (fst e) = which \<and> partition_stale c c' e) (st_routes c'))"
proof
  fix which
  obtain pool0 pool where so: "staged_over c (staged_from_cache c') staged_dirty_all pool0 pool"
    and live: "serves env mt pool0 (st_routes c) which (route_cell which cells)"
    and idx: "rc_ep_index c' = build_ep_index (st_refs c')"
    by (rule synced_staged_over[OF assms, of which])
  show "dirty_partitions which (st_routes c') (st_routes c)
       (ed_routes (endpoint_dirty_targets (changed_or_removed_endpoints (st_endpoints c) (st_endpoints c'))
          (staged_from_cache c') (rc_ep_index c') (rc_ep_index c))) (route_cell which cells) =
     map fst (filter (\<lambda>e. pk_table (fst e) = which \<and> partition_stale c c' e) (st_routes c'))"
    using dirty_partitions_stale[OF so live] by (simp add: partition_stale_from_cache idx)
qed

lemma synced_keeps_clean:
  assumes "synced env mt c cells" "synced env mt c' cells'"
  shows "\<forall>e\<in>set (st_routes c'). \<not> partition_stale c c' e \<longrightarrow>
     get_partition (route_cell (pk_table (fst e)) cells') (fst e) = get_partition (route_cell (pk_table (fst e)) cells) (fst e)"
proof (intro ballI impI)
  fix e assume e: "e \<in> set (st_routes c')" "\<not> partition_stale c c' e"
  obtain pk rh where er: "e = (pk, rh)" by (cases e)
  obtain pool0 pool where so: "staged_over c (staged_from_cache c') staged_dirty_all pool0 pool"
    and live: "serves env mt pool0 (st_routes c) (pk_table pk) (route_cell (pk_table pk) cells)"
    and live': "serves env mt pool (st_routes c') (pk_table pk) (route_cell (pk_table pk) cells')"
    by (rule synced_staged_over[OF assms, of "pk_table pk"])
  note rf = route_cell_rebuild[OF so live]
  note k = rebuild_from_keyed[OF rf]
  have rh: "map_of (st_routes c') pk = Some rh" using e(1) er k(2) by (simp add: alist_wf_def)
  have "\<not> (\<exists>x\<in>set (st_routes c'). fst x = pk \<and> partition_stale c c' x)"
  proof
    assume "\<exists>x\<in>set (st_routes c'). fst x = pk \<and> partition_stale c c' x"
    then obtain x where x: "x \<in> set (st_routes c')" "fst x = pk" "partition_stale c c' x" by blast
    have "(pk, snd x) \<in> set (st_routes c')" using x(1,2) by (metis prod.collapse)
    then have "map_of (st_routes c') pk = Some (snd x)" using k(2) by (simp add: alist_wf_def)
    then have "x = e" using x(2) rh er by (simp add: prod_eq_iff)
    then show False using x(3) e(2) by simp
  qed
  then have clean: "pk \<notin> set (dirty_partitions (pk_table pk) (st_routes c') (st_routes c)
      (ed_routes (ep_dirty_of c (staged_from_cache c'))) (route_cell (pk_table pk) cells))"
    using dirty_partitions_stale[OF so live] by (auto simp: partition_stale_from_cache)
  have "get_partition (route_cell (pk_table pk) cells) pk = served env mt pool (st_routes c') pk"
    using rebuild_clean[OF rf, of pk rh] clean rh by simp
  moreover have "get_partition (route_cell (pk_table pk) cells') pk = served env mt pool (st_routes c') pk"
    using live' k(3)[of pk] rh get_partition_view[of pk "route_cell (pk_table pk) cells'"] by (simp add: serves_def)
  ultimately show "get_partition (route_cell (pk_table (fst e)) cells') (fst e) = get_partition (route_cell (pk_table (fst e)) cells) (fst e)"
    by (simp add: er)
qed

lemma applied_recompiles:
  assumes sy: "synced env mt (ra_cache a) (ra_cells a)" and "plain_wildcards msg"
    and "applier_apply he env mt a msg expect_full = (a', Inr stats)"
  shows "as_partitions_recompiled stats = length (filter (partition_stale (ra_cache a) (ra_cache a')) (st_routes (ra_cache a')))"
proof -
  have ok: "staged_ok (ra_cache a)" using sy by (simp add: synced_def)
  obtain cells' where m: "apply_message he env mt (ra_cache a) msg (ra_cells a) expect_full True = Inr (ra_cache a', cells', stats)"
    using assms(3) by (auto simp: applier_apply_def split: sum.splits prod.splits)
  from m ok assms(2) show ?thesis
  proof (cases rule: apply_message_cases)
    case same
    have "alist_wf (st_routes (ra_cache a))" using ok by (simp add: staged_ok_def keyed_routes_def)
    then show ?thesis using same by (auto simp: partition_stale_def apply_stats_default_def filter_empty_conv alist_wf_def)
  next
    case (rebuilt st d c)
    have "partition_stale (ra_cache a) (ra_cache a') = partition_stale (ra_cache a) st"
      by (simp add: partition_stale_def rebuilt(4) fun_eq_iff)
    then show ?thesis using compile_phase_recompiles[OF rebuilt(3) sy rebuilt(1,2)] rebuilt(4,6) by simp
  qed
qed

section \<open>Guarantees of every reachable applier\<close>

text \<open>
  C1: Whatever sequence of snapshots and deltas an applier has been given, accepted or refused, the cells it
  publishes are exactly the compilation of the resources in its cache, and its endpoint index is the one
  rebuilt from them: incremental rebuilds never drift from a from-scratch build.  The messages are those
  whose wildcard hosts are plain suffixes; a suffix that itself starts with a wildcard label shares the
  bucket of another partition, and the source does not refuse it.
\<close>

theorem discovery_cells_match_cache:
  assumes "applier_reachable he env mt a"
  shows "synced env mt (ra_cache a) (ra_cells a)"
  using assms by (rule reachable_synced)

text \<open>
  C4: Two appliers whose caches hold the same resources serve every request alike and have equal TLS, client
  certificate, listener, passthrough, TCP and UDP cells, by whatever deltas each came to its cache.
\<close>

theorem discovery_state_determined:
  assumes "applier_reachable he env mt a" "applier_reachable he' env mt b" "same_resources (ra_cache a) (ra_cache b)"
  shows "table_find mt menv (ce_ingress (ra_cells a)) port host path ctx = table_find mt menv (ce_ingress (ra_cells b)) port host path ctx \<and>
     table_find mt menv (ce_gateway (ra_cells a)) port host path ctx = table_find mt menv (ce_gateway (ra_cells b)) port host path ctx \<and>
     ce_tls (ra_cells a) = ce_tls (ra_cells b) \<and> ce_client_certs (ra_cells a) = ce_client_certs (ra_cells b) \<and>
     sh_map (ce_status (ra_cells a)) = sh_map (ce_status (ra_cells b)) \<and>
     ce_listener_hostnames (ra_cells a) = ce_listener_hostnames (ra_cells b) \<and>
     ce_passthrough (ra_cells a) = ce_passthrough (ra_cells b) \<and> ce_terminate (ra_cells a) = ce_terminate (ra_cells b) \<and>
     ce_tcp (ra_cells a) = ce_tcp (ra_cells b) \<and> ce_udp (ra_cells a) = ce_udp (ra_cells b)"
  using synced_determined[OF reachable_synced[OF assms(1)] reachable_synced[OF assms(2)] assms(3)] by simp

text \<open>
  C11: An accepted message leaves a cache whose content hash is the version the message announced, also when
  the digests did not change and the apply was short-circuited; a refused one leaves the applier as it was.
\<close>

theorem accepted_version_is_cached:
  assumes "applier_reachable he env mt a" "plain_wildcards msg"
    and "applier_apply he env mt a msg expect_full = (a', r)"
  shows "case r of Inl _ \<Rightarrow> a' = a | Inr _ \<Rightarrow> from_per_resource he (map snd (st_digests (ra_cache a'))) = psn_version msg"
proof -
  have "staged_ok (ra_cache a)" using reachable_synced[OF assms(1)] by (simp add: synced_def)
  then show ?thesis
    using assms(3) apply_message_version[OF _ _ assms(2)]
    by (auto simp: applier_apply_def split: sum.splits prod.splits)
qed

text \<open>
  C7: Every endpoint set a cached route, passthrough, terminate, TCP or UDP resource refers to, mirrors
  included, is itself in the cache.
\<close>

theorem cached_references_resolve:
  assumes "applier_reachable he env mt a" "refs_of (ra_cache a) rid = Some keys" "k \<in> set keys"
  shows "map_of (st_endpoints (ra_cache a)) k \<noteq> None"
  using synced_resolves[OF reachable_synced[OF assms(1)] assms(2,3)] .


text \<open>
  C21: An accepted message recompiles exactly the stale route partitions, those whose resource changed or
  one of whose referenced endpoint sets changed: in each table the set of partitions handed to the
  compiler is the set of stale ones, the reported number is their number, and every other partition keeps
  the router it had.
\<close>

theorem recompiles_only_stale_partitions:
  assumes "applier_reachable he env mt a" "plain_wildcards msg"
    and "applier_apply he env mt a msg expect_full = (a', Inr stats)"
  shows "(\<forall>which. dirty_partitions which (st_routes (ra_cache a')) (st_routes (ra_cache a))
          (ed_routes (endpoint_dirty_targets
             (changed_or_removed_endpoints (st_endpoints (ra_cache a)) (st_endpoints (ra_cache a')))
             (staged_from_cache (ra_cache a')) (rc_ep_index (ra_cache a')) (rc_ep_index (ra_cache a))))
          (route_cell which (ra_cells a)) =
        map fst (filter (\<lambda>e. pk_table (fst e) = which \<and> partition_stale (ra_cache a) (ra_cache a') e) (st_routes (ra_cache a')))) \<and>
     as_partitions_recompiled stats = length (filter (partition_stale (ra_cache a) (ra_cache a')) (st_routes (ra_cache a'))) \<and>
     (\<forall>e\<in>set (st_routes (ra_cache a')). \<not> partition_stale (ra_cache a) (ra_cache a') e \<longrightarrow>
        get_partition (route_cell (pk_table (fst e)) (ra_cells a')) (fst e) =
        get_partition (route_cell (pk_table (fst e)) (ra_cells a)) (fst e))"
proof -
  have sy: "synced env mt (ra_cache a) (ra_cells a)" by (rule reachable_synced[OF assms(1)])
  have sy': "synced env mt (ra_cache a') (ra_cells a')"
    using reachable_synced[OF reachable_apply[OF assms(1,2), of expect_full]] assms(3) by simp
  show ?thesis
    using synced_dirty[OF sy sy'] synced_keeps_clean[OF sy sy'] applied_recompiles[OF sy assms(2,3)] by blast
qed

text \<open>
  C28: A delta that removes an endpoint set some resource it leaves in place still refers to is refused, and
  nothing of it is applied.
\<close>

theorem referenced_endpoint_removal_refused:
  assumes "applier_reachable he env mt a" "plain_wildcards msg" "\<not> psn_full msg"
    and "stage_delta he (ra_cache a) msg = Inr (st, d)"
    and "map_of (st_endpoints (ra_cache a)) k \<noteq> None" "map_of (st_endpoints st) k = None"
    and "refs_of st rid = Some keys" "k \<in> set keys"
  shows "\<exists>label. applier_apply he env mt a msg False = (a, Inl (RemovedEndpointStillReferenced label))"
proof -
  have "staged_ok (ra_cache a)" using reachable_synced[OF assms(1)] by (simp add: synced_def)
  then have "staged_ok st" using stage_delta_ok[OF assms(4) _ assms(2)] by simp
  from refs_of_index[OF this, of rid k] have "map_of (build_ep_index (st_refs st)) k \<noteq> None"
    using assms(7,8) by (cases "map_of (build_ep_index (st_refs st)) k") (simp_all add: index_get_def)
  moreover have "k \<in> set (map fst (st_endpoints (ra_cache a)))"
    using assms(5) by (simp add: map_of_eq_None_iff)
  ultimately have "List.find (\<lambda>key. map_of (st_endpoints st) key = None \<and> map_of (build_ep_index (st_refs st)) key \<noteq> None)
      (map fst (st_endpoints (ra_cache a))) \<noteq> None"
    using assms(6) unfolding find_None_iff by blast
  then obtain label where "validate_removed_endpoints_unreferenced (st_endpoints (ra_cache a)) st (build_ep_index (st_refs st)) =
      Inl (RemovedEndpointStillReferenced label)"
    by (auto simp: validate_removed_endpoints_unreferenced_def)
  then show ?thesis using assms(3,4) by (simp add: applier_apply_def apply_message_def stage_message_def Let_def)
qed

section \<open>A run\<close>

text \<open>
  One Gateway host routed to one Service: a full snapshot, a delta that changes the endpoints, a delta
  that would remove them, and a second client that is given the same resources at once.
\<close>

definition demo_hash :: hash_env where
  "demo_hash = \<lparr>he_sha256 = take 1, he_encode = (\<lambda>r. case prs_payload r of Some (PEndpoints e) \<Rightarrow> [of_nat (length (per_addrs e))] | _ \<Rightarrow> [7])\<rparr>"

text \<open>A radix router with no parameters: a path is looked up as it was inserted.\<close>

definition demo_matchit :: "((string \<times> 'v) list, 'v) matchit" where
  "demo_matchit =
     \<lparr>mt_new = [],
      mt_insert = (\<lambda>r p v. if map_of r p = None then ((p, v) # r, True) else (r, False)),
      mt_at = map_of\<rparr>"

definition demo_group :: p_backend_group where
  "demo_group = PBackendGroup ''g'' 1 None None (Some \<lparr>plb_algorithm = Some (PRoundRobin True)\<rparr>) None None None
     [\<lparr>pwb_addrs = [], pwb_weight = 1, pwb_endpoint_ref = Some \<lparr>pr_namespace = ''ns'', pr_service = ''svc'', pr_port = 80\<rparr>\<rparr>] []"

definition demo_route :: p_route_entry where
  "demo_route = \<lparr>pre_kind = 2, pre_path = ''/'', pre_route_id = ''r'', pre_metric_route_id = ''r'', pre_path_pattern = ''/'',
     pre_backend_group = Some demo_group, pre_predicates = None, pre_timeouts = None, pre_rate_limit = None, pre_auth = [],
     pre_compression = None, pre_forwarded_for = None, pre_circuit_breaker = None, pre_created_at_unix_millis = None,
     pre_error_status = None, pre_max_body_size = None, pre_access_log_enabled = None, pre_filters = [],
     pre_allow_source_range = [], pre_deny_source_range = []\<rparr>"

definition demo_resource :: "p_payload \<Rightarrow> p_resource" where
  "demo_resource p = \<lparr>prs_payload = Some p, prs_qualifier_namespace = [], prs_qualifier_name = []\<rparr>"

definition demo_endpoints :: "string list \<Rightarrow> p_resource" where
  "demo_endpoints addrs = demo_resource (PEndpoints \<lparr>per_namespace = ''ns'', per_service = ''svc'', per_port = 80,
     per_app_protocol = 1, per_service_exists = True, per_addrs = addrs\<rparr>)"

definition demo_host :: p_resource where
  "demo_host = demo_resource (PRouteHost \<lparr>prh_table = 2, prh_port = 80,
     prh_host = Some \<lparr>phe_pattern = Some (PExactHost ''a''), phe_normalize_level = 1, phe_routes = [demo_route]\<rparr>\<rparr>)"

definition demo_message :: "bool \<Rightarrow> p_resource list \<Rightarrow> string list \<Rightarrow> p_snapshot" where
  "demo_message full resources removed =
     \<lparr>psn_version = ''30'', psn_nonce = [], psn_full = full, psn_resources = resources, psn_removed_resources = removed,
      psn_publish_seq = 1\<rparr>"

type_synonym demo_applier = "((string \<times> (unit, nat) route_entry list) list, unit, nat) routing_applier"

definition demo_apply :: "demo_applier \<Rightarrow> p_snapshot \<Rightarrow> bool \<Rightarrow> demo_applier \<times> apply_stats wire_result" where
  "demo_apply = applier_apply demo_hash plain_wire_env demo_matchit"

definition demo_snapshot :: "string list \<Rightarrow> p_snapshot" where
  "demo_snapshot addrs = demo_message True [demo_host, demo_endpoints addrs] []"

definition demo_delta :: p_snapshot where
  "demo_delta = demo_message False [demo_endpoints [''10.0.0.1:80'', ''10.0.0.2:80'']] []"

definition demo_removal :: p_snapshot where
  "demo_removal = demo_message False [] [''endpoints|ns/svc/80'']"

definition demo_partition :: route_partition_key where
  "demo_partition = \<lparr>pk_table = GatewayTable, pk_port = 80, pk_host = HostExact ''a''\<rparr>"

definition demo_key :: endpoint_key where
  "demo_key = \<lparr>ek_namespace = ''ns'', ek_service = ''svc'', ek_port = 80\<rparr>"

definition demo_first :: demo_applier where
  "demo_first = fst (demo_apply routing_applier_new (demo_snapshot [''10.0.0.1:80'']) True)"

definition demo_second :: demo_applier where
  "demo_second = fst (demo_apply demo_first demo_delta False)"

definition demo_other :: demo_applier where
  "demo_other = fst (demo_apply routing_applier_new (demo_snapshot [''10.0.0.1:80'', ''10.0.0.2:80'']) True)"

text \<open>The executable form of \<open>same_resources\<close>.\<close>

definition same_resources_exec :: "resource_cache \<Rightarrow> resource_cache \<Rightarrow> bool" where
  "same_resources_exec c c' \<longleftrightarrow>
     alist_eq (st_routes c) (st_routes c') \<and> alist_eq (st_tls c) (st_tls c') \<and> alist_eq (st_client_certs c) (st_client_certs c') \<and>
     alist_eq (st_listener_status c) (st_listener_status c') \<and> alist_eq (st_passthrough c) (st_passthrough c') \<and>
     alist_eq (st_terminate c) (st_terminate c') \<and> alist_eq (st_tcp c) (st_tcp c') \<and> alist_eq (st_udp c) (st_udp c') \<and>
     alist_eq (st_endpoints c) (st_endpoints c')"

lemma same_resources_exec: "same_resources c c' \<longleftrightarrow> same_resources_exec c c'"
  by (simp only: same_resources_def same_resources_exec_def alist_eq_iff)

definition demo_checks :: "demo_applier \<times> apply_stats wire_result \<Rightarrow> demo_applier \<times> apply_stats wire_result \<Rightarrow> demo_applier \<Rightarrow> bool" where
  "demo_checks first second other \<longleftrightarrow>
     snd second = Inr \<lparr>as_partitions_recompiled = 1, as_partitions_reused = 0\<rparr> \<and>
     same_resources_exec (ra_cache (fst second)) (ra_cache other) \<and>
     refs_of (ra_cache (fst first)) (RouteId demo_partition) = Some [demo_key] \<and>
     map_of (st_endpoints (ra_cache (fst first))) demo_key \<noteq> None \<and>
     (case stage_delta demo_hash (ra_cache (fst first)) demo_removal of
        Inl _ \<Rightarrow> False
      | Inr (st, d) \<Rightarrow> map_of (st_endpoints st) demo_key = None \<and> refs_of st (RouteId demo_partition) = Some [demo_key])"

definition demo_run :: "demo_applier \<times> apply_stats wire_result \<Rightarrow> bool" where
  "demo_run first = demo_checks first (demo_apply (fst first) demo_delta False) demo_other"

text \<open>A group of one entry needs no sorting.\<close>

lemma sort_and_freeze_code [code]:
  "sort_and_freeze entries =
     (case entries of [(_, e)] \<Rightarrow> [e] | _ \<Rightarrow> map snd (sort_key (\<lambda>(idx, e). specificity_key e idx) entries))"
  by (auto simp: sort_and_freeze_def split: list.split)

lemma demo_run: "demo_run (demo_apply routing_applier_new (demo_snapshot [''10.0.0.1:80'']) True)"
  by code_simp

lemma demo_plain: "plain_wildcards (demo_snapshot addrs)" "plain_wildcards demo_delta" "plain_wildcards demo_removal"
  by (simp_all add: plain_wildcards_def demo_snapshot_def demo_delta_def demo_removal_def demo_message_def demo_host_def
      demo_endpoints_def demo_resource_def)

lemma demo_reachable:
  "applier_reachable demo_hash plain_wire_env demo_matchit demo_first"
  "applier_reachable demo_hash plain_wire_env demo_matchit demo_second"
  "applier_reachable demo_hash plain_wire_env demo_matchit demo_other"
  unfolding demo_first_def demo_second_def demo_other_def demo_apply_def
  by (intro applier_reachable.intros demo_plain)+

lemmas demo_facts = demo_run[unfolded demo_run_def demo_checks_def, folded demo_first_def demo_second_def same_resources_exec]

theorem discovery_cells_match_cache_witness:
  "synced plain_wire_env demo_matchit (ra_cache demo_second) (ra_cells demo_second)"
  by (rule discovery_cells_match_cache[OF demo_reachable(2)])

theorem discovery_state_determined_witness:
  "same_resources (ra_cache demo_second) (ra_cache demo_other) \<and>
   (\<forall>menv ctx. table_find demo_matchit menv (ce_gateway (ra_cells demo_second)) 80 ''a'' ''/'' ctx =
      table_find demo_matchit menv (ce_gateway (ra_cells demo_other)) 80 ''a'' ''/'' ctx)"
  using discovery_state_determined[OF demo_reachable(2,3)] demo_facts by blast

theorem accepted_version_is_cached_witness:
  "from_per_resource demo_hash (map snd (st_digests (ra_cache demo_second))) = ''30''"
proof -
  have "demo_apply demo_first demo_delta False = (demo_second, Inr \<lparr>as_partitions_recompiled = 1, as_partitions_reused = 0\<rparr>)"
    using demo_facts by (simp add: demo_second_def prod_eq_iff)
  from accepted_version_is_cached[OF demo_reachable(1) demo_plain(2) this[unfolded demo_apply_def]]
  show ?thesis by (simp add: demo_delta_def demo_message_def)
qed

theorem cached_references_resolve_witness:
  "refs_of (ra_cache demo_first) (RouteId demo_partition) = Some [demo_key] \<and>
   map_of (st_endpoints (ra_cache demo_first)) demo_key \<noteq> None"
  using cached_references_resolve[OF demo_reachable(1), of "RouteId demo_partition" "[demo_key]" demo_key] demo_facts by simp

theorem recompiles_only_stale_partitions_witness:
  "length (filter (partition_stale (ra_cache demo_first) (ra_cache demo_second)) (st_routes (ra_cache demo_second))) = 1"
proof -
  have "demo_apply demo_first demo_delta False = (demo_second, Inr \<lparr>as_partitions_recompiled = 1, as_partitions_reused = 0\<rparr>)"
    using demo_facts by (simp add: demo_second_def prod_eq_iff)
  from recompiles_only_stale_partitions[OF demo_reachable(1) demo_plain(2) this[unfolded demo_apply_def]]
  show ?thesis by simp
qed

theorem referenced_endpoint_removal_refused_witness:
  "\<exists>label. demo_apply demo_first demo_removal False = (demo_first, Inl (RemovedEndpointStillReferenced label))"
proof -
  obtain st d where "stage_delta demo_hash (ra_cache demo_first) demo_removal = Inr (st, d)"
    "map_of (st_endpoints st) demo_key = None" "refs_of st (RouteId demo_partition) = Some [demo_key]"
    using demo_facts by (auto split: sum.splits)
  with referenced_endpoint_removal_refused[OF demo_reachable(1) demo_plain(3) _ this(1), of demo_key "RouteId demo_partition" "[demo_key]"]
  show ?thesis using demo_facts by (simp add: demo_apply_def demo_removal_def demo_message_def)
qed

end
