(* ===== verification/Btree_Map.thy ===== *)
theory Btree_Map
  imports Cox_Prelude "HOL-Library.Char_ord" "HOL-Library.List_Lexorder"
begin

text \<open>
  Rust's \<open>BTreeMap\<close> and \<open>BTreeSet\<close>: association lists and lists in strictly ascending key order, with
  the operations the crates use.  Two such maps with the same lookups are the same list, which is what
  makes their iteration order, and so everything encoded from them, a function of their contents.
  Strings are ordered bytewise, as \<open>str\<close> is.
\<close>

fun btree_insert :: "'k::linorder \<Rightarrow> 'v \<Rightarrow> ('k \<times> 'v) list \<Rightarrow> ('k \<times> 'v) list" where
  "btree_insert k v [] = [(k, v)]"
| "btree_insert k v ((k', v') # m) =
     (if k = k' then (k, v) # m else if k < k' then (k, v) # (k', v') # m else (k', v') # btree_insert k v m)"

definition btree_wf :: "('k::linorder \<times> 'v) list \<Rightarrow> bool" where
  "btree_wf m \<longleftrightarrow> sorted_wrt (<) (map fst m)"

definition btree_from :: "('k::linorder \<times> 'v) list \<Rightarrow> ('k \<times> 'v) list" where
  "btree_from kvs = foldl (\<lambda>m (k, v). btree_insert k v m) [] kvs"

fun set_insert_sorted :: "'k::linorder \<Rightarrow> 'k list \<Rightarrow> 'k list" where
  "set_insert_sorted k [] = [k]"
| "set_insert_sorted k (k' # s) =
     (if k = k' then k # s else if k < k' then k # k' # s else k' # set_insert_sorted k s)"

definition set_from :: "'k::linorder list \<Rightarrow> 'k list" where
  "set_from ks = foldl (\<lambda>s k. set_insert_sorted k s) [] ks"

section \<open>Maps\<close>

lemma btree_wf_Nil [simp]: "btree_wf []"
  by (simp add: btree_wf_def)

lemma btree_wf_Cons [simp]: "btree_wf ((k, v) # m) \<longleftrightarrow> (\<forall>k'\<in>fst ` set m. k < k') \<and> btree_wf m"
  by (auto simp: btree_wf_def)

lemma btree_wf_distinct: "btree_wf m \<Longrightarrow> distinct (map fst m)"
  by (simp add: btree_wf_def strict_sorted_iff)

lemma map_of_btree_insert [alist_simps]: "btree_wf m \<Longrightarrow> map_of (btree_insert k v m) = (map_of m)(k \<mapsto> v)"
proof (induction m)
  case (Cons e m)
  obtain k' v' where e: "e = (k', v')" by force
  have "map_of m k = None" if "k < k'"
    using Cons.prems that by (force simp: e map_of_eq_None_iff)
  with Cons show ?case by (auto simp: e fun_eq_iff)
qed (simp add: fun_eq_iff)

lemma keys_btree_insert [alist_simps]: "fst ` set (btree_insert k v m) = insert k (fst ` set m)"
proof (induction m)
  case (Cons e m)
  then show ?case by (cases e) (simp, simp add: insert_commute)
qed simp

lemma btree_wf_insert [simp]: "btree_wf m \<Longrightarrow> btree_wf (btree_insert k v m)"
proof (induction m)
  case (Cons e m)
  obtain k' v' where e: "e = (k', v')" by force
  from Cons show ?case by (force simp: e keys_btree_insert)
qed simp

lemma btree_insert_last: "(\<forall>k'\<in>fst ` set m. k' < k) \<Longrightarrow> btree_insert k v m = m @ [(k, v)]"
  by (induction m) auto

lemma btree_ext:
  assumes "btree_wf m" "btree_wf m'" "map_of m = map_of m'"
  shows "m = m'"
  using assms
proof (induction m arbitrary: m')
  case Nil
  then show ?case by (metis map_of.simps(1) map_of_eq_empty_iff)
next
  case (Cons e m)
  obtain k v where e: "e = (k, v)" by force
  from Cons.prems(3) obtain k' v' n where m': "m' = (k', v') # n"
    using fun_cong[OF Cons.prems(3), of k] by (cases m') (auto simp: e)
  have km: "map_of m k = None" and kn: "map_of n k' = None"
    using Cons.prems(1,2) by (auto simp: e m' map_of_eq_None_iff)
  have "k = k'"
  proof (rule ccontr)
    assume ne: "k \<noteq> k'"
    then have "map_of n k = Some v" "map_of m k' = Some v'"
      using fun_cong[OF Cons.prems(3), of k] fun_cong[OF Cons.prems(3), of k'] by (simp_all add: e m')
    then have "k' < k" "k < k'"
      using Cons.prems(1,2) by (force simp: e m' dest!: map_of_SomeD)+
    then show False by simp
  qed
  moreover have "v = v'" using fun_cong[OF Cons.prems(3), of k] \<open>k = k'\<close> by (simp add: e m')
  moreover have "map_of m = map_of n"
  proof (rule ext)
    fix x
    show "map_of m x = map_of n x"
      using fun_cong[OF Cons.prems(3), of x] km kn \<open>k = k'\<close> by (cases "x = k") (simp_all add: e m')
  qed
  ultimately show ?case using Cons by (simp add: e m')
qed

lemma btree_from_wf [simp]: "btree_wf (btree_from kvs)"
proof -
  have "btree_wf m \<Longrightarrow> btree_wf (foldl (\<lambda>m (k, v). btree_insert k v m) m kvs)" for m
    by (induction kvs arbitrary: m) auto
  then show ?thesis by (simp add: btree_from_def)
qed

lemma map_of_btree_from: "map_of (btree_from kvs) = map_of (rev kvs)"
proof -
  have "btree_wf m \<Longrightarrow> map_of (foldl (\<lambda>m (k, v). btree_insert k v m) m kvs) = map_of (rev kvs @ m)" for m
  proof (induction kvs arbitrary: m)
    case (Cons e kvs)
    obtain k v where e: "e = (k, v)" by force
    from Cons show ?case by (simp add: e map_of_btree_insert fun_eq_iff map_add_def split: option.split)
  qed simp
  then show ?thesis by (simp add: btree_from_def)
qed

lemma map_of_rev: "distinct (map fst m) \<Longrightarrow> map_of (rev m) = map_of m"
  by (rule map_of_inject_set[THEN iffD2]) (simp_all add: rev_map[symmetric])

lemma btree_from_sorted:
  assumes "btree_wf m"
  shows "btree_from m = m"
proof (rule btree_ext)
  show "map_of (btree_from m) = map_of m"
    using btree_wf_distinct[OF assms] by (simp add: map_of_btree_from map_of_rev)
qed (use assms in simp_all)

section \<open>Sets\<close>

lemma set_set_insert_sorted [simp]: "set (set_insert_sorted k s) = insert k (set s)"
  by (induction s) auto

lemma sorted_set_insert [simp]: "sorted_wrt (<) s \<Longrightarrow> sorted_wrt (<) (set_insert_sorted k s)"
  by (induction s) auto

lemma set_from_props [simp]: "set (set_from ks) = set ks" "sorted_wrt (<) (set_from ks)"
proof -
  have "set (foldl (\<lambda>s k. set_insert_sorted k s) s ks) = set s \<union> set ks \<and>
      (sorted_wrt (<) s \<longrightarrow> sorted_wrt (<) (foldl (\<lambda>s k. set_insert_sorted k s) s ks))" for s
    by (induction ks arbitrary: s) auto
  from this[of "[]"] show "set (set_from ks) = set ks" "sorted_wrt (<) (set_from ks)"
    by (simp_all add: set_from_def)
qed

end
