(* ===== verification/Identity.thy ===== *)
theory Identity
  imports Ownership Btree_Map
begin

text \<open>
  Workload identity: SPIFFE ids (\<open>coxswain-core/src/identity.rs\<close>), the SVID of a connected peer and its
  matchers (\<open>coxswain-discovery/src/auth.rs\<close>), the subscription scopes and their wire form
  (\<open>subscription.rs\<close>, \<open>wire/scope.rs\<close>, \<open>core/node_registry.rs\<close>), the authorizers that decide who may
  subscribe to which scope (\<open>server/authz.rs\<close>) and the allowlist of the bootstrap service
  (\<open>bootstrap_server.rs\<close>).  Certificate chains and signatures are checked by the TLS library; what reaches
  this code is the list of URI names of a verified certificate.
\<close>

section \<open>SPIFFE ids\<close>

record spiffe_id =
  sid_uri :: string
  sid_trust_domain_start :: nat
  sid_trust_domain_end :: nat
  sid_ns_start :: nat
  sid_ns_end :: nat
  sid_sa_start :: nat

datatype spiffe_id_error = InvalidFormat | EmptyTrustDomain

definition SCHEME :: string where "SCHEME = ''spiffe://''"

definition parse_spiffe_offsets :: "string \<Rightarrow> spiffe_id_error + (nat \<times> nat \<times> nat \<times> nat \<times> nat)" where
  "parse_spiffe_offsets s =
     (case strip_prefix s SCHEME of None \<Rightarrow> Inl InvalidFormat | Some rest \<Rightarrow>
      (case split_once CHR ''/'' rest of None \<Rightarrow> Inl InvalidFormat | Some (td, after_td) \<Rightarrow>
       if td = [] then Inl EmptyTrustDomain else
       (case strip_prefix after_td ''ns/'' of None \<Rightarrow> Inl InvalidFormat | Some after_ns_kw \<Rightarrow>
        (case split_once CHR ''/'' after_ns_kw of None \<Rightarrow> Inl InvalidFormat | Some (ns, after_ns) \<Rightarrow>
         if ns = [] then Inl InvalidFormat else
         (case strip_prefix after_ns ''sa/'' of None \<Rightarrow> Inl InvalidFormat | Some sa \<Rightarrow>
          if sa = [] then Inl InvalidFormat else
          (let trust_domain_start = length SCHEME;
               trust_domain_end = trust_domain_start + length td;
               ns_start = trust_domain_end + length ''/ns/'';
               ns_end = ns_start + length ns;
               sa_start = ns_end + length ''/sa/''
           in Inr (trust_domain_start, trust_domain_end, ns_start, ns_end, sa_start)))))))"

definition spiffe_parse :: "string \<Rightarrow> spiffe_id_error + spiffe_id" where
  "spiffe_parse uri =
     (case parse_spiffe_offsets uri of
        Inl e \<Rightarrow> Inl e
      | Inr (ts, te, ns, ne, ss) \<Rightarrow>
          Inr \<lparr>sid_uri = uri, sid_trust_domain_start = ts, sid_trust_domain_end = te,
               sid_ns_start = ns, sid_ns_end = ne, sid_sa_start = ss\<rparr>)"

definition spiffe_uri :: "string \<Rightarrow> string \<Rightarrow> string \<Rightarrow> string" where
  "spiffe_uri trust_domain namespace sa = ''spiffe://'' @ trust_domain @ ''/ns/'' @ namespace @ ''/sa/'' @ sa"

text \<open>\<open>from_parts\<close> panics when what it formatted does not parse.\<close>

definition spiffe_from_parts :: "string \<Rightarrow> string \<Rightarrow> string \<Rightarrow> spiffe_id_error + spiffe_id" where
  "spiffe_from_parts trust_domain namespace sa = spiffe_parse (spiffe_uri trust_domain namespace sa)"

definition sid_trust_domain :: "spiffe_id \<Rightarrow> string" where
  "sid_trust_domain i = drop (sid_trust_domain_start i) (take (sid_trust_domain_end i) (sid_uri i))"

definition sid_namespace :: "spiffe_id \<Rightarrow> string" where
  "sid_namespace i = drop (sid_ns_start i) (take (sid_ns_end i) (sid_uri i))"

definition sid_service_account :: "spiffe_id \<Rightarrow> string" where
  "sid_service_account i = drop (sid_sa_start i) (sid_uri i)"

definition sid_parts :: "string \<Rightarrow> string \<Rightarrow> string \<Rightarrow> bool" where
  "sid_parts td ns sa \<longleftrightarrow> td \<noteq> [] \<and> CHR ''/'' \<notin> set td \<and> ns \<noteq> [] \<and> CHR ''/'' \<notin> set ns \<and> sa \<noteq> []"

definition sid_of :: "string \<Rightarrow> string \<Rightarrow> string \<Rightarrow> spiffe_id" where
  "sid_of td ns sa =
     \<lparr>sid_uri = spiffe_uri td ns sa, sid_trust_domain_start = 9, sid_trust_domain_end = 9 + length td,
      sid_ns_start = 13 + length td, sid_ns_end = 13 + length td + length ns,
      sid_sa_start = 17 + length td + length ns\<rparr>"

lemma slice_middle: "i = length p \<Longrightarrow> j = length p + length m \<Longrightarrow> drop i (take j (p @ m @ t)) = m"
  by simp

lemma sid_of_parts [simp]:
  "sid_uri (sid_of td ns sa) = spiffe_uri td ns sa"
  "sid_trust_domain (sid_of td ns sa) = td"
  "sid_namespace (sid_of td ns sa) = ns"
  "sid_service_account (sid_of td ns sa) = sa"
proof -
  show "sid_uri (sid_of td ns sa) = spiffe_uri td ns sa" by (simp add: sid_of_def)
  have "drop 9 (take (9 + length td) (''spiffe://'' @ td @ ''/ns/'' @ ns @ ''/sa/'' @ sa)) = td"
    by (rule slice_middle) simp_all
  then show "sid_trust_domain (sid_of td ns sa) = td"
    by (simp only: sid_of_def sid_trust_domain_def spiffe_uri_def spiffe_id.simps)
  have "drop (13 + length td) (take (13 + length td + length ns) ((''spiffe://'' @ td @ ''/ns/'') @ ns @ ''/sa/'' @ sa)) = ns"
    by (rule slice_middle) simp_all
  then show "sid_namespace (sid_of td ns sa) = ns"
    by (simp only: sid_of_def sid_namespace_def spiffe_uri_def spiffe_id.simps append_assoc)
  have "drop (17 + length td + length ns) (take (17 + length td + length ns + length sa)
      ((''spiffe://'' @ td @ ''/ns/'' @ ns @ ''/sa/'') @ sa @ [])) = sa" by (rule slice_middle) simp_all
  then have "drop (17 + length td + length ns) ((''spiffe://'' @ td @ ''/ns/'' @ ns @ ''/sa/'') @ sa) = sa" by simp
  then show "sid_service_account (sid_of td ns sa) = sa"
    by (simp only: sid_of_def sid_service_account_def spiffe_uri_def spiffe_id.simps append_assoc)
qed

lemma spiffe_parse_parts:
  assumes "sid_parts td ns sa"
  shows "spiffe_parse (spiffe_uri td ns sa) = Inr (sid_of td ns sa)"
proof -
  have "strip_prefix (spiffe_uri td ns sa) SCHEME = Some (td @ CHR ''/'' # ''ns/'' @ ns @ ''/sa/'' @ sa)"
    by (simp add: spiffe_uri_def SCHEME_def strip_prefix_eq_Some)
  moreover have "split_once CHR ''/'' (td @ CHR ''/'' # ''ns/'' @ ns @ ''/sa/'' @ sa) = Some (td, ''ns/'' @ ns @ ''/sa/'' @ sa)"
    using assms by (intro split_once_append) (simp add: sid_parts_def)
  moreover have "split_once CHR ''/'' (ns @ ''/sa/'' @ sa) = Some (ns, ''sa/'' @ sa)"
    using assms split_once_append[of "CHR ''/''" ns "''sa/'' @ sa"] by (simp add: sid_parts_def)
  ultimately show ?thesis
    using assms strip_prefix_append[of "''ns/''" "ns @ ''/sa/'' @ sa"] strip_prefix_append[of "''sa/''" sa]
    by (simp add: spiffe_parse_def parse_spiffe_offsets_def sid_parts_def sid_of_def SCHEME_def del: append.simps)
qed

lemma spiffe_parse_Inr: "spiffe_parse uri = Inr i \<longleftrightarrow> (\<exists>td ns sa. sid_parts td ns sa \<and> uri = spiffe_uri td ns sa \<and> i = sid_of td ns sa)"
proof
  assume p: "spiffe_parse uri = Inr i"
  obtain rest where rest: "strip_prefix uri SCHEME = Some rest"
    using p by (auto simp: spiffe_parse_def parse_spiffe_offsets_def split: option.splits)
  obtain td after_td where td: "split_once CHR ''/'' rest = Some (td, after_td)" "td \<noteq> []"
    using p rest by (auto simp: spiffe_parse_def parse_spiffe_offsets_def split: option.splits if_splits)
  obtain nskw where nskw: "strip_prefix after_td ''ns/'' = Some nskw"
    using p rest td by (auto simp: spiffe_parse_def parse_spiffe_offsets_def split: option.splits)
  obtain ns after_ns where ns: "split_once CHR ''/'' nskw = Some (ns, after_ns)" "ns \<noteq> []"
    using p rest td nskw by (auto simp: spiffe_parse_def parse_spiffe_offsets_def split: option.splits if_splits)
  obtain sa where sa: "strip_prefix after_ns ''sa/'' = Some sa" "sa \<noteq> []"
    using p rest td nskw ns by (auto simp: spiffe_parse_def parse_spiffe_offsets_def split: option.splits if_splits)
  have "uri = spiffe_uri td ns sa" and ok: "sid_parts td ns sa"
    using rest nskw sa split_once_SomeD[OF td(1)] split_once_SomeD[OF ns(1)] td(2) ns(2)
    by (simp_all add: strip_prefix_eq_Some spiffe_uri_def SCHEME_def sid_parts_def)
  then show "\<exists>td ns sa. sid_parts td ns sa \<and> uri = spiffe_uri td ns sa \<and> i = sid_of td ns sa"
    using p spiffe_parse_parts[OF ok] by auto
qed (auto simp: spiffe_parse_parts)

section \<open>Peers\<close>

datatype spiffe_matcher = ExactId string | PrefixId string

fun matcher_matches :: "spiffe_matcher \<Rightarrow> string \<Rightarrow> bool" where
  "matcher_matches (ExactId s) uri = (uri = s)"
| "matcher_matches (PrefixId p) uri = starts_with uri p"

record peer_svid =
  uri_sans :: "string list"

definition peer_default :: peer_svid where "peer_default = \<lparr>uri_sans = []\<rparr>"

fun join_comma :: "string list \<Rightarrow> string" where
  "join_comma [] = []"
| "join_comma [s] = s"
| "join_comma (s # t # ss) = s @ '','' @ join_comma (t # ss)"

definition fingerprint :: "peer_svid \<Rightarrow> string" where
  "fingerprint p = join_comma (sort (uri_sans p))"

definition some_identity :: "peer_svid \<Rightarrow> (spiffe_id \<Rightarrow> bool) \<Rightarrow> bool" where
  "some_identity p P = list_ex (\<lambda>uri. case spiffe_parse uri of Inr i \<Rightarrow> P i | Inl _ \<Rightarrow> False) (uri_sans p)"

definition svid_matches_dedicated_gateway :: "peer_svid \<Rightarrow> string \<Rightarrow> string \<Rightarrow> bool" where
  "svid_matches_dedicated_gateway p namespace expected_sa =
     some_identity p (\<lambda>i. sid_namespace i = namespace \<and> sid_service_account i = expected_sa)"

lemma some_identity_iff:
  "some_identity p P \<longleftrightarrow> (\<exists>td ns sa. sid_parts td ns sa \<and> spiffe_uri td ns sa \<in> set (uri_sans p) \<and> P (sid_of td ns sa))"
proof
  assume "some_identity p P"
  then obtain uri where u: "uri \<in> set (uri_sans p)" "case spiffe_parse uri of Inr i \<Rightarrow> P i | Inl _ \<Rightarrow> False"
    by (auto simp: some_identity_def list_ex_iff)
  then obtain i where i: "spiffe_parse uri = Inr i" "P i" by (cases "spiffe_parse uri") auto
  from i(1) obtain td ns sa where "sid_parts td ns sa" "uri = spiffe_uri td ns sa" "i = sid_of td ns sa"
    unfolding spiffe_parse_Inr by blast
  with u(1) i(2) show "\<exists>td ns sa. sid_parts td ns sa \<and> spiffe_uri td ns sa \<in> set (uri_sans p) \<and> P (sid_of td ns sa)" by blast
next
  assume "\<exists>td ns sa. sid_parts td ns sa \<and> spiffe_uri td ns sa \<in> set (uri_sans p) \<and> P (sid_of td ns sa)"
  then obtain td ns sa where t: "sid_parts td ns sa" "spiffe_uri td ns sa \<in> set (uri_sans p)" "P (sid_of td ns sa)" by blast
  show "some_identity p P"
    unfolding some_identity_def list_ex_iff by (rule bexI[OF _ t(2)]) (simp add: spiffe_parse_parts[OF t(1)] t(3))
qed

section \<open>Scopes\<close>

datatype scope = SharedPool | GatewayScope (scope_name: string) (scope_namespace: string) | NamespaceScope string

datatype node_scope = NodeSharedPool | NodeGateway (ns_namespace: string) (ns_name: string) | NodeNamespace string

datatype p_scope_kind = PScopeSharedPool | PScopeGateway (psg_namespace: string) (psg_name: string) | PScopeNamespace string

record p_scope =
  psc_kind :: "p_scope_kind option"

datatype scope_error = MissingScopeKind

definition scope_to_wire :: "scope \<Rightarrow> p_scope" where
  "scope_to_wire s = \<lparr>psc_kind = Some (case s of
       SharedPool \<Rightarrow> PScopeSharedPool
     | GatewayScope name namespace \<Rightarrow> PScopeGateway namespace name
     | NamespaceScope namespace \<Rightarrow> PScopeNamespace namespace)\<rparr>"

definition scope_from_wire :: "p_scope \<Rightarrow> scope_error + scope" where
  "scope_from_wire dto =
     (case psc_kind dto of
        Some PScopeSharedPool \<Rightarrow> Inr SharedPool
      | Some (PScopeGateway namespace name) \<Rightarrow> Inr (GatewayScope name namespace)
      | Some (PScopeNamespace namespace) \<Rightarrow> Inr (NamespaceScope namespace)
      | None \<Rightarrow> Inl MissingScopeKind)"

definition node_scope_from :: "scope \<Rightarrow> node_scope" where
  "node_scope_from s =
     (case s of
        SharedPool \<Rightarrow> NodeSharedPool
      | GatewayScope name namespace \<Rightarrow> NodeGateway namespace name
      | NamespaceScope namespace \<Rightarrow> NodeNamespace namespace)"

definition node_scope_to_wire :: "node_scope \<Rightarrow> p_scope" where
  "node_scope_to_wire s = \<lparr>psc_kind = Some (case s of
       NodeGateway namespace name \<Rightarrow> PScopeGateway namespace name
     | NodeNamespace namespace \<Rightarrow> PScopeNamespace namespace
     | NodeSharedPool \<Rightarrow> PScopeSharedPool)\<rparr>"

lemma scope_round_trip [simp]: "scope_from_wire (scope_to_wire s) = Inr s"
  by (cases s) (simp_all add: scope_to_wire_def scope_from_wire_def)

lemma node_scope_round_trip: "\<exists>s. scope_from_wire (node_scope_to_wire n) = Inr s \<and> node_scope_from s = n"
  by (cases n) (simp_all add: node_scope_to_wire_def scope_from_wire_def node_scope_from_def)

section \<open>Who may subscribe\<close>

text \<open>
  The contract of a scope authorizer, as the server relies on it: a peer without an identity gets
  nothing, nobody reports a roster on a Gateway stream, and a peer that may report a roster on a stream
  may open that stream.
\<close>

locale scope_authorizer =
  fixes allows_namespace :: "peer_svid \<Rightarrow> string \<Rightarrow> bool"
    and allows_shared_pool :: "peer_svid \<Rightarrow> bool"
    and allows_roster :: "peer_svid \<Rightarrow> scope \<Rightarrow> bool"
  assumes anonymous_namespace: "\<not> allows_namespace peer_default ns"
    and anonymous_shared: "\<not> allows_shared_pool peer_default"
    and roster_gateway: "\<not> allows_roster p (GatewayScope name ns)"
    and roster_namespace: "allows_roster p (NamespaceScope ns) \<Longrightarrow> allows_namespace p ns"
    and roster_shared: "allows_roster p SharedPool \<Longrightarrow> allows_shared_pool p"
begin

lemma roster_needs_subscription:
  "allows_roster p s \<Longrightarrow>
     (case s of SharedPool \<Rightarrow> allows_shared_pool p | NamespaceScope ns \<Rightarrow> allows_namespace p ns | GatewayScope _ _ \<Rightarrow> False)"
  by (cases s) (auto simp: roster_gateway dest: roster_namespace roster_shared)

lemma anonymous_roster: "\<not> allows_roster peer_default s"
  using anonymous_namespace anonymous_shared by (cases s) (auto simp: roster_gateway dest: roster_namespace roster_shared)

end

record scope_authorizer_ops =
  so_namespace :: "peer_svid \<Rightarrow> string \<Rightarrow> bool"
  so_shared_pool :: "peer_svid \<Rightarrow> bool"
  so_roster :: "peer_svid \<Rightarrow> scope \<Rightarrow> bool"

definition deny_all :: scope_authorizer_ops where
  "deny_all = \<lparr>so_namespace = (\<lambda>_ _. False), so_shared_pool = (\<lambda>_. False), so_roster = (\<lambda>_ _. False)\<rparr>"

record relay_authz_config =
  ra_provisioned :: "string list"
  ra_relay_sa :: string
  ra_trust_domain :: string
  ra_shared_relay_sa :: string
  ra_install_namespace :: string
  ra_shared_proxy_sa :: string

definition matches_install_identity :: "relay_authz_config \<Rightarrow> peer_svid \<Rightarrow> string \<Rightarrow> bool" where
  "matches_install_identity c peer sa =
     (uri_sans peer \<noteq> [] \<and>
      some_identity peer (\<lambda>i. sid_trust_domain i = ra_trust_domain c \<and> sid_namespace i = ra_install_namespace c \<and>
        sid_service_account i = sa))"

definition is_shared_relay_identity :: "relay_authz_config \<Rightarrow> peer_svid \<Rightarrow> bool" where
  "is_shared_relay_identity c peer = matches_install_identity c peer (ra_shared_relay_sa c)"

definition relay_allows_namespace :: "relay_authz_config \<Rightarrow> peer_svid \<Rightarrow> string \<Rightarrow> bool" where
  "relay_allows_namespace c peer namespace =
     (if uri_sans peer = [] then False
      else if namespace \<notin> set (ra_provisioned c) then False
      else some_identity peer (\<lambda>i. sid_trust_domain i = ra_trust_domain c \<and> sid_namespace i = namespace \<and>
             sid_service_account i = ra_relay_sa c))"

definition relay_allows_shared_pool :: "relay_authz_config \<Rightarrow> peer_svid \<Rightarrow> bool" where
  "relay_allows_shared_pool c peer \<longleftrightarrow>
     is_shared_relay_identity c peer \<or> matches_install_identity c peer (ra_shared_proxy_sa c)"

definition relay_allows_roster :: "relay_authz_config \<Rightarrow> peer_svid \<Rightarrow> scope \<Rightarrow> bool" where
  "relay_allows_roster c peer s =
     (case s of
        NamespaceScope namespace \<Rightarrow> relay_allows_namespace c peer namespace
      | SharedPool \<Rightarrow> is_shared_relay_identity c peer
      | GatewayScope _ _ \<Rightarrow> False)"

definition provisioned_relay_authorizer :: "relay_authz_config \<Rightarrow> scope_authorizer_ops" where
  "provisioned_relay_authorizer c =
     \<lparr>so_namespace = relay_allows_namespace c, so_shared_pool = relay_allows_shared_pool c, so_roster = relay_allows_roster c\<rparr>"

interpretation deny: scope_authorizer "so_namespace deny_all" "so_shared_pool deny_all" "so_roster deny_all"
  by unfold_locales (simp_all add: deny_all_def)

interpretation provisioned: scope_authorizer "relay_allows_namespace c" "relay_allows_shared_pool c" "relay_allows_roster c" for c
  by unfold_locales
     (simp_all add: relay_allows_namespace_def relay_allows_shared_pool_def relay_allows_roster_def
        is_shared_relay_identity_def matches_install_identity_def peer_default_def)

section \<open>Who may bootstrap\<close>

record identity_allowlist =
  al_install_namespace :: string
  al_shared_proxy_sa :: string
  al_shared_relay_sa :: string
  al_relay_sa :: string
  al_provisioned_relays :: "string list"
  al_dedicated_identities :: "(object_key \<times> string) list"

definition allowlist_allows :: "identity_allowlist \<Rightarrow> spiffe_id \<Rightarrow> bool" where
  "allowlist_allows a spiffe =
     (let namespace = sid_namespace spiffe; sa = sid_service_account spiffe in
      if namespace = al_install_namespace a \<and> (sa = al_shared_proxy_sa a \<or> sa = al_shared_relay_sa a) then True
      else if sa = al_relay_sa a \<and> namespace \<in> set (al_provisioned_relays a) then True
      else list_ex (\<lambda>(key, expected_proxy_sa). ok_ns key = namespace \<and> expected_proxy_sa = sa) (al_dedicated_identities a))"

section \<open>Properties\<close>

text \<open>
  C27: Parsing a SPIFFE id and reading its parts inverts formatting: an accepted URI is the format of the
  parts the accessors return, the trust domain and namespace are nonempty and free of slashes and the
  service account is nonempty, and every such triple is accepted and read back as it was.
\<close>

theorem spiffe_id_round_trip:
  "(\<forall>uri i. spiffe_parse uri = Inr i \<longrightarrow>
      uri = spiffe_uri (sid_trust_domain i) (sid_namespace i) (sid_service_account i) \<and>
      sid_parts (sid_trust_domain i) (sid_namespace i) (sid_service_account i)) \<and>
   (\<forall>td ns sa. sid_parts td ns sa \<longrightarrow>
      (\<exists>i. spiffe_from_parts td ns sa = Inr i \<and> sid_trust_domain i = td \<and> sid_namespace i = ns \<and> sid_service_account i = sa))"
proof (intro conjI allI impI)
  fix td ns sa
  assume "sid_parts td ns sa"
  then show "\<exists>i. spiffe_from_parts td ns sa = Inr i \<and> sid_trust_domain i = td \<and> sid_namespace i = ns \<and> sid_service_account i = sa"
    by (intro exI[of _ "sid_of td ns sa"]) (simp add: spiffe_from_parts_def spiffe_parse_parts)
qed (auto simp: spiffe_parse_Inr)

theorem spiffe_id_round_trip_witness:
  "\<exists>i. spiffe_from_parts ''cluster.local'' ''team-a'' ''coxswain-relay'' = Inr i \<and> sid_namespace i = ''team-a''"
proof -
  have "sid_parts ''cluster.local'' ''team-a'' ''coxswain-relay''" by (simp add: sid_parts_def)
  with spiffe_id_round_trip show ?thesis by blast
qed

text \<open>
  Formatting is not total: \<open>from_parts\<close> panics for an empty component or a namespace with a slash, and
  for a trust domain that carries a whole path it yields an id of a different namespace and account.
\<close>

theorem spiffe_from_parts_partial:
  "spiffe_from_parts ''cluster.local'' '''' ''sa'' = Inl InvalidFormat \<and>
   spiffe_from_parts ''td'' ''a/b'' ''sa'' = Inl InvalidFormat \<and>
   (\<exists>i. spiffe_from_parts ''td/ns/x/sa/y'' ''ns'' ''sa'' = Inr i \<and> sid_trust_domain i = ''td'' \<and> sid_namespace i = ''x'')"
proof -
  have "spiffe_uri ''td/ns/x/sa/y'' ''ns'' ''sa'' = spiffe_uri ''td'' ''x'' ''y/ns/ns/sa/sa''" by (simp add: spiffe_uri_def)
  moreover have "sid_parts ''td'' ''x'' ''y/ns/ns/sa/sa''" by (simp add: sid_parts_def)
  ultimately have "spiffe_from_parts ''td/ns/x/sa/y'' ''ns'' ''sa'' = Inr (sid_of ''td'' ''x'' ''y/ns/ns/sa/sa'')"
    by (simp add: spiffe_from_parts_def spiffe_parse_parts)
  moreover have "spiffe_from_parts ''cluster.local'' '''' ''sa'' = Inl InvalidFormat" "spiffe_from_parts ''td'' ''a/b'' ''sa'' = Inl InvalidFormat"
    by code_simp+
  ultimately show ?thesis by simp
qed

end
