(* ===== verification/Upstream.thy ===== *)
theory Upstream
  imports Identity Resource_Key
begin

text \<open>
  Which server a node streams its routing from: the closed set of upstreams a node accepts and the
  repointing of its cell (\<open>coxswain-discovery/src/upstream.rs\<close>, \<open>apply_repoint\<close> of \<open>client.rs\<close>), the
  controller's choice of a node's best upstream and the bootstrap service that hands it out
  (\<open>bootstrap_server.rs\<close>), and the directives the server pushes when that choice changes
  (\<open>seed_or_push_upstream\<close>) and a relay forwards (\<open>forward_retained_directive\<close>, both of \<open>server/stream.rs\<close>).  The URI parser the dialer
  uses, the token reviewer and the certificate authority are parameters.
\<close>

section \<open>Service names\<close>

record http_uri =
  hu_scheme :: "string option"
  hu_host :: "string option"

record service_dns =
  sd_service :: string
  sd_namespace :: string
  sd_ends_at_cluster_domain :: bool
  sd_is_https :: bool

definition service_dns_parts :: "(string \<Rightarrow> http_uri option) \<Rightarrow> string \<Rightarrow> service_dns option" where
  "service_dns_parts uri_parse endpoint =
     (case uri_parse endpoint of None \<Rightarrow> None | Some uri \<Rightarrow>
      (case hu_host uri of None \<Rightarrow> None | Some h \<Rightarrow>
       (let host = (case strip_suffix h ''.'' of Some r \<Rightarrow> r | None \<Rightarrow> h) in
        (case split_on CHR ''.'' host of
           service # namespace # svc # suffix \<Rightarrow>
             if service = [] \<or> namespace = [] \<or> svc \<noteq> ''svc'' then None
             else Some \<lparr>sd_service = service, sd_namespace = namespace,
                        sd_ends_at_cluster_domain = (suffix = [] \<or> suffix = [''cluster'', ''local'']),
                        sd_is_https = (hu_scheme uri = Some ''https'')\<rparr>
         | _ \<Rightarrow> None))))"

definition namespace_from_service_dns :: "(string \<Rightarrow> http_uri option) \<Rightarrow> string \<Rightarrow> string option" where
  "namespace_from_service_dns uri_parse endpoint = map_option sd_namespace (service_dns_parts uri_parse endpoint)"

definition expected_server_matcher ::
  "(string \<Rightarrow> http_uri option) \<Rightarrow> string \<Rightarrow> string \<Rightarrow> string \<Rightarrow> string \<Rightarrow> spiffe_matcher" where
  "expected_server_matcher uri_parse trust_domain endpoint expected_server_sa fallback_namespace =
     (let namespace = (case namespace_from_service_dns uri_parse endpoint of Some n \<Rightarrow> n | None \<Rightarrow> fallback_namespace)
      in ExactId (spiffe_uri trust_domain namespace expected_server_sa))"

section \<open>The policy of a node\<close>

record upstream_target =
  ut_endpoints :: "string list"
  ut_expected_server :: spiffe_matcher

definition upstream_target_new :: "string \<Rightarrow> spiffe_matcher \<Rightarrow> upstream_target" where
  "upstream_target_new endpoint expected = \<lparr>ut_endpoints = [endpoint], ut_expected_server = expected\<rparr>"

datatype upstream_rejection =
    NotHttps string
  | NotServiceDns string
  | UnknownUpstream string string
  | ServiceAccountMismatch string string string string

record upstream_names =
  un_controller_service :: string
  un_controller_sa :: string
  un_relay :: string
  un_shared_relay :: string

record legal_upstream =
  lu_service :: string
  lu_namespace :: string
  lu_service_account :: string

record upstream_policy =
  up_trust_domain :: string
  up_legal :: "legal_upstream list"

definition upstream_policy_new :: "string \<Rightarrow> string \<Rightarrow> string \<Rightarrow> upstream_names \<Rightarrow> upstream_policy" where
  "upstream_policy_new trust_domain install_namespace pod_namespace names =
     \<lparr>up_trust_domain = trust_domain,
      up_legal =
       [\<lparr>lu_service = un_controller_service names, lu_namespace = install_namespace, lu_service_account = un_controller_sa names\<rparr>,
        \<lparr>lu_service = un_relay names, lu_namespace = pod_namespace, lu_service_account = un_relay names\<rparr>,
        \<lparr>lu_service = un_shared_relay names, lu_namespace = install_namespace, lu_service_account = un_shared_relay names\<rparr>]\<rparr>"

definition policy_resolve ::
  "(string \<Rightarrow> http_uri option) \<Rightarrow> upstream_policy \<Rightarrow> string \<Rightarrow> string \<Rightarrow> upstream_rejection + upstream_target" where
  "policy_resolve uri_parse pol endpoint claimed_sa =
     (case service_dns_parts uri_parse endpoint of
        None \<Rightarrow> Inl (NotServiceDns endpoint)
      | Some parts \<Rightarrow>
          if \<not> sd_is_https parts then Inl (NotHttps endpoint)
          else if \<not> sd_ends_at_cluster_domain parts then Inl (NotServiceDns endpoint)
          else (case List.find (\<lambda>l. lu_service l = sd_service parts \<and> lu_namespace l = sd_namespace parts) (up_legal pol) of
                  None \<Rightarrow> Inl (UnknownUpstream (sd_service parts) (sd_namespace parts))
                | Some legal \<Rightarrow>
                    if claimed_sa \<noteq> lu_service_account legal
                    then Inl (ServiceAccountMismatch (sd_service parts) (sd_namespace parts) (lu_service_account legal) claimed_sa)
                    else Inr (upstream_target_new endpoint
                           (ExactId (spiffe_uri (up_trust_domain pol) (lu_namespace legal) (lu_service_account legal))))))"

section \<open>Repointing\<close>

record p_preferred_upstream =
  ppu_endpoint :: string
  ppu_expected_server_sa :: string
  ppu_target_namespace :: string
  ppu_target_name :: string

text \<open>
  The cell of a node, absent when none is wired.  The second component tells the session to reconnect.
\<close>

definition upstream_cell_points_at :: "upstream_target option \<Rightarrow> upstream_target \<Rightarrow> bool" where
  "upstream_cell_points_at cell target =
     (case cell of Some current \<Rightarrow> ut_endpoints current = ut_endpoints target | None \<Rightarrow> False)"

definition apply_repoint ::
  "(p_preferred_upstream \<Rightarrow> upstream_rejection + upstream_target) \<Rightarrow> upstream_target option option \<Rightarrow> p_preferred_upstream \<Rightarrow>
   upstream_target option option \<times> bool" where
  "apply_repoint resolve_directive upstream_cell directive =
     (case upstream_cell of
        None \<Rightarrow> (None, False)
      | Some cell \<Rightarrow>
          if ppu_endpoint directive = [] then (Some cell, False)
          else (case resolve_directive directive of
                  Inl _ \<Rightarrow> (Some cell, False)
                | Inr target \<Rightarrow> if upstream_cell_points_at cell target then (Some cell, False) else (Some (Some target), True)))"

definition resolve_directive ::
  "(string \<Rightarrow> http_uri option) \<Rightarrow> upstream_policy option \<Rightarrow> string \<Rightarrow> string \<Rightarrow> p_preferred_upstream \<Rightarrow>
   upstream_rejection + upstream_target" where
  "resolve_directive uri_parse policy trust_domain fallback_namespace directive =
     (case policy of
        Some pol \<Rightarrow> policy_resolve uri_parse pol (ppu_endpoint directive) (ppu_expected_server_sa directive)
      | None \<Rightarrow> Inr (upstream_target_new (ppu_endpoint directive)
          (expected_server_matcher uri_parse trust_domain (ppu_endpoint directive) (ppu_expected_server_sa directive) fallback_namespace)))"

definition directive_targets_leaf :: "p_preferred_upstream \<Rightarrow> scope \<Rightarrow> bool" where
  "directive_targets_leaf d s =
     (case s of
        GatewayScope name namespace \<Rightarrow>
          ppu_target_namespace d = namespace \<and> (ppu_target_name d = [] \<or> ppu_target_name d = name)
      | SharedPool \<Rightarrow> True
      | NamespaceScope _ \<Rightarrow> False)"

text \<open>
  A leaf's stream on a relay watches the cell with the latest directive of the relay's own upstream client;
  reading the cell marks its value seen.  The result is the message sent to the leaf, if any.
\<close>

record directive_rx =
  dr_value :: "p_preferred_upstream option"
  dr_changed :: bool

definition forward_retained_directive :: "directive_rx \<Rightarrow> scope \<Rightarrow> directive_rx \<times> p_preferred_upstream option" where
  "forward_retained_directive rx s =
     (rx\<lparr>dr_changed := False\<rparr>,
      (case dr_value rx of Some d \<Rightarrow> if directive_targets_leaf d s then Some d else None | None \<Rightarrow> None))"

section \<open>The controller's choice\<close>

record resolved_upstream =
  ru_endpoint :: string
  ru_expected_sa :: string

record upstream_resolver_config =
  ur_controller_endpoint :: string
  ur_controller_sa :: string
  ur_shared_relay_endpoint :: string
  ur_shared_relay_sa :: string
  ur_shared_relay_active :: bool
  ur_relay_service_name :: string
  ur_relay_port :: u16
  ur_relay_sa :: string
  ur_active_relays :: "string list"
  ur_trust_domain :: string
  ur_install_namespace :: string

definition controller_target :: "upstream_resolver_config \<Rightarrow> resolved_upstream" where
  "controller_target c = \<lparr>ru_endpoint = ur_controller_endpoint c, ru_expected_sa = ur_controller_sa c\<rparr>"

definition namespace_relay_endpoint :: "upstream_resolver_config \<Rightarrow> string \<Rightarrow> resolved_upstream" where
  "namespace_relay_endpoint c namespace =
     \<lparr>ru_endpoint = ''https://'' @ ur_relay_service_name c @ ''.'' @ namespace @ ''.svc:'' @ dec (uint (ur_relay_port c)),
      ru_expected_sa = ur_relay_sa c\<rparr>"

definition shared_relay_endpoint :: "upstream_resolver_config \<Rightarrow> resolved_upstream" where
  "shared_relay_endpoint c = \<lparr>ru_endpoint = ur_shared_relay_endpoint c, ru_expected_sa = ur_shared_relay_sa c\<rparr>"

definition resolve_shared :: "upstream_resolver_config \<Rightarrow> resolved_upstream" where
  "resolve_shared c =
     (if ur_shared_relay_active c then \<lparr>ru_endpoint = ur_shared_relay_endpoint c, ru_expected_sa = ur_shared_relay_sa c\<rparr>
      else controller_target c)"

definition is_shared_relay :: "upstream_resolver_config \<Rightarrow> peer_svid option \<Rightarrow> bool" where
  "is_shared_relay c peer =
     (case peer of None \<Rightarrow> False | Some p \<Rightarrow>
        some_identity p (\<lambda>i. sid_trust_domain i = ur_trust_domain c \<and> sid_namespace i = ur_install_namespace c \<and>
          sid_service_account i = ur_shared_relay_sa c))"

definition resolve_namespace :: "upstream_resolver_config \<Rightarrow> string \<Rightarrow> resolved_upstream" where
  "resolve_namespace c namespace =
     (if namespace \<in> set (ur_active_relays c)
      then \<lparr>ru_endpoint = ''https://'' @ ur_relay_service_name c @ ''.'' @ namespace @ ''.svc:'' @ dec (uint (ur_relay_port c)),
            ru_expected_sa = ur_relay_sa c\<rparr>
      else controller_target c)"

definition resolver_resolve :: "upstream_resolver_config \<Rightarrow> spiffe_id \<Rightarrow> scope \<Rightarrow> resolved_upstream" where
  "resolver_resolve c spiffe s =
     (if sid_service_account spiffe = ur_relay_sa c \<or> sid_service_account spiffe = ur_shared_relay_sa c
      then controller_target c
      else (case s of
              SharedPool \<Rightarrow> resolve_shared c
            | GatewayScope _ namespace \<Rightarrow> resolve_namespace c namespace
            | NamespaceScope namespace \<Rightarrow> resolve_namespace c namespace))"

text \<open>
  The seed, the desired upstream and the forwarding namespace of a stream, and the push: the baseline is
  what the clients behind the stream use now, and a directive is sent when the desired one differs.
\<close>

definition upstream_seed :: "upstream_resolver_config \<Rightarrow> scope \<Rightarrow> peer_svid option \<Rightarrow> resolved_upstream" where
  "upstream_seed c s peer =
     (case s of
        GatewayScope _ _ \<Rightarrow> controller_target c
      | NamespaceScope namespace \<Rightarrow> namespace_relay_endpoint c namespace
      | SharedPool \<Rightarrow> if is_shared_relay c peer then shared_relay_endpoint c else controller_target c)"

definition upstream_target_of :: "upstream_resolver_config \<Rightarrow> scope \<Rightarrow> resolved_upstream" where
  "upstream_target_of c s =
     (case s of
        GatewayScope _ namespace \<Rightarrow> resolve_namespace c namespace
      | NamespaceScope namespace \<Rightarrow> resolve_namespace c namespace
      | SharedPool \<Rightarrow> resolve_shared c)"

definition forward_target :: "scope \<Rightarrow> string" where
  "forward_target s = (case s of NamespaceScope namespace \<Rightarrow> namespace | _ \<Rightarrow> [])"

definition seed_or_push_upstream ::
  "scope \<Rightarrow> peer_svid option \<Rightarrow> upstream_resolver_config option \<Rightarrow> resolved_upstream option \<Rightarrow>
   resolved_upstream option \<times> p_preferred_upstream option" where
  "seed_or_push_upstream s peer resolver prev =
     (case resolver of
        None \<Rightarrow> (prev, None)
      | Some c \<Rightarrow>
          (let prev = (case prev of None \<Rightarrow> Some (upstream_seed c s peer) | Some _ \<Rightarrow> prev);
               target = upstream_target_of c s
           in if prev = Some target then (prev, None)
              else (Some target,
                    Some \<lparr>ppu_endpoint = ru_endpoint target, ppu_expected_server_sa = ru_expected_sa target,
                          ppu_target_namespace = forward_target s, ppu_target_name = []\<rparr>)))"

section \<open>The bootstrap service\<close>

definition WIRE_VERSION :: u32 where "WIRE_VERSION = 2"

datatype authn_error = AuthnUnauthenticated string | AuthnApiError string | AuthnInvalidPrincipal string

datatype issuer_error = MalformedCsr string | IssuerNotReady | SigningError string

record issued_svid =
  is_cert_pem :: "u8 list"
  is_not_after_unix :: int

record bootstrap_request =
  br_sa_token :: string
  br_csr_pem :: "u8 list"
  br_wire_version :: u32
  br_scope :: "p_scope option"

record bootstrap_response =
  bs_svid_cert_pem :: "u8 list"
  bs_trust_bundle_pem :: "u8 list"
  bs_not_after_unix :: int
  bs_upstream_endpoint :: string
  bs_expected_server_sa :: string

datatype status_code =
  FailedPrecondition | Unauthenticated | Internal | PermissionDenied | Unavailable | InvalidArgument | AlreadyExists | Cancelled

record bootstrap_service =
  bsv_authenticate :: "string \<Rightarrow> authn_error + spiffe_id"
  bsv_sign_csr :: "u8 list \<Rightarrow> spiffe_id \<Rightarrow> issuer_error + issued_svid"
  bsv_trust_bundle :: "u8 list"
  bsv_upstream :: "upstream_resolver_config option"
  bsv_identity_allowlist :: "identity_allowlist option"

text \<open>The result of a call and the principal its reject hook is told, if it is called.\<close>

definition bootstrap ::
  "bootstrap_service \<Rightarrow> bootstrap_request \<Rightarrow> (status_code + bootstrap_response) \<times> string option" where
  "bootstrap svc req =
     (if br_wire_version req \<noteq> WIRE_VERSION then (Inl FailedPrecondition, Some ''<unknown>'')
      else (case bsv_authenticate svc (br_sa_token req) of
          Inl (AuthnUnauthenticated _) \<Rightarrow> (Inl Unauthenticated, Some ''<unauthenticated>'')
        | Inl (AuthnApiError _) \<Rightarrow> (Inl Internal, Some ''<api-error>'')
        | Inl (AuthnInvalidPrincipal _) \<Rightarrow> (Inl Unauthenticated, Some ''<invalid-principal>'')
        | Inr spiffe \<Rightarrow>
            if (case bsv_identity_allowlist svc of Some a \<Rightarrow> \<not> allowlist_allows a spiffe | None \<Rightarrow> False)
            then (Inl PermissionDenied, Some (sid_uri spiffe))
            else (case bsv_sign_csr svc (br_csr_pem req) spiffe of
                Inl IssuerNotReady \<Rightarrow> (Inl Unavailable, Some (sid_uri spiffe))
              | Inl (MalformedCsr _) \<Rightarrow> (Inl InvalidArgument, Some (sid_uri spiffe))
              | Inl (SigningError _) \<Rightarrow> (Inl Internal, Some (sid_uri spiffe))
              | Inr svid \<Rightarrow>
                  (let up = (case bsv_upstream svc of
                               Some c \<Rightarrow> resolver_resolve c spiffe
                                 (case br_scope req of None \<Rightarrow> SharedPool
                                  | Some dto \<Rightarrow> (case scope_from_wire dto of Inr s \<Rightarrow> s | Inl _ \<Rightarrow> SharedPool))
                             | None \<Rightarrow> \<lparr>ru_endpoint = [], ru_expected_sa = []\<rparr>)
                   in (Inr \<lparr>bs_svid_cert_pem = is_cert_pem svid, bs_trust_bundle_pem = bsv_trust_bundle svc,
                            bs_not_after_unix = is_not_after_unix svid,
                            bs_upstream_endpoint = ru_endpoint up, bs_expected_server_sa = ru_expected_sa up\<rparr>, None)))))"

section \<open>Hosts\<close>

lemma split_on_Cons2: "split_on c s = x # y # xs \<Longrightarrow> \<exists>t. s = x @ c # t \<and> split_on c t = y # xs"
proof (induction s arbitrary: x)
  case (Cons a s)
  show ?case
  proof (cases "a = c")
    case True
    then show ?thesis using Cons.prems by auto
  next
    case False
    obtain z zs where z: "split_on c s = z # zs" by (cases "split_on c s") auto
    with Cons.prems False have "x = a # z" "zs = y # xs" by auto
    with Cons.IH[of z] z obtain t where "s = z @ c # t" "split_on c t = y # xs" by auto
    then show ?thesis using \<open>x = a # z\<close> by simp
  qed
qed simp

lemma split_on_single: "split_on c s = [x] \<Longrightarrow> s = x"
proof (induction s arbitrary: x)
  case (Cons a s)
  then show ?case by (cases "split_on c s") (auto split: if_splits)
qed simp

text \<open>The names of a Service, in the two forms of its host that a pointer from the wire may use.\<close>

definition service_hosts :: "string \<Rightarrow> string \<Rightarrow> string list" where
  "service_hosts service namespace =
     [service @ ''.'' @ namespace @ ''.svc'', service @ ''.'' @ namespace @ ''.svc.'',
      service @ ''.'' @ namespace @ ''.svc.cluster.local'', service @ ''.'' @ namespace @ ''.svc.cluster.local.'']"

lemma split_on_service:
  assumes "split_on CHR ''.'' h = service # namespace # ''svc'' # suffix" "suffix = [] \<or> suffix = [''cluster'', ''local'']"
  shows "h = service @ ''.'' @ namespace @ ''.svc'' \<or> h = service @ ''.'' @ namespace @ ''.svc.cluster.local''"
proof -
  obtain t where t: "h = service @ ''.'' @ t" "split_on CHR ''.'' t = namespace # ''svc'' # suffix"
    using split_on_Cons2[OF assms(1)] by auto
  obtain u where u: "t = namespace @ ''.'' @ u" "split_on CHR ''.'' u = ''svc'' # suffix"
    using split_on_Cons2[OF t(2)] by auto
  show ?thesis
  proof (cases "suffix = []")
    case True
    then show ?thesis using t(1) u split_on_single[of "CHR ''.''" u "''svc''"] by simp
  next
    case False
    then have s: "suffix = [''cluster'', ''local'']" using assms(2) by simp
    obtain v where v: "u = ''svc.'' @ v" "split_on CHR ''.'' v = [''cluster'', ''local'']"
      using split_on_Cons2[of "CHR ''.''" u "''svc''"] u(2) s by auto
    obtain w where w: "v = ''cluster.'' @ w" "split_on CHR ''.'' w = [''local'']"
      using split_on_Cons2[OF v(2)] by auto
    then show ?thesis using t(1) u(1) v(1) split_on_single[OF w(2)] by simp
  qed
qed

lemma service_dns_parts_host:
  assumes "service_dns_parts uri_parse endpoint = Some p" "sd_ends_at_cluster_domain p"
  shows "\<exists>uri h. uri_parse endpoint = Some uri \<and> hu_host uri = Some h \<and> h \<in> set (service_hosts (sd_service p) (sd_namespace p)) \<and>
     (sd_is_https p \<longleftrightarrow> hu_scheme uri = Some ''https'')"
proof -
  obtain uri h where u: "uri_parse endpoint = Some uri" "hu_host uri = Some h"
    using assms(1) by (auto simp: service_dns_parts_def split: option.splits)
  let ?h = "case strip_suffix h ''.'' of Some r \<Rightarrow> r | None \<Rightarrow> h"
  obtain svc ns l3 suffix where sp: "split_on CHR ''.'' ?h = svc # ns # l3 # suffix"
    and p: "l3 = ''svc''" "p = \<lparr>sd_service = svc, sd_namespace = ns,
          sd_ends_at_cluster_domain = (suffix = [] \<or> suffix = [''cluster'', ''local'']), sd_is_https = (hu_scheme uri = Some ''https'')\<rparr>"
    using assms(1) u by (auto simp: service_dns_parts_def Let_def split: list.splits if_splits)
  have "?h = svc @ ''.'' @ ns @ ''.svc'' \<or> ?h = svc @ ''.'' @ ns @ ''.svc.cluster.local''"
    using split_on_service[of ?h svc ns suffix] sp p assms(2) by simp
  moreover have "h = ?h \<or> h = ?h @ ''.''" by (auto simp: strip_suffix_eq_Some split: option.split)
  ultimately have "h \<in> set (service_hosts svc ns)" by (auto simp: service_hosts_def)
  then show ?thesis using u p by simp
qed

section \<open>Properties\<close>

text \<open>
  C8: A node never takes an identity off the wire: when its policy accepts a pointer, the host the dialer
  will connect to is a name of one of the three upstreams the node derived from its own launch
  configuration, over https, the claimed service account is the one derived for it, and the identity
  the server must present is the local one of that upstream.
\<close>

theorem upstream_pointer_pinned:
  assumes "policy_resolve uri_parse (upstream_policy_new td install pod names) endpoint claimed_sa = Inr t"
  shows "\<exists>uri h service ns sa.
     (service, ns, sa) \<in> {(un_controller_service names, install, un_controller_sa names), (un_relay names, pod, un_relay names),
        (un_shared_relay names, install, un_shared_relay names)} \<and>
     uri_parse endpoint = Some uri \<and> hu_scheme uri = Some ''https'' \<and> hu_host uri = Some h \<and> h \<in> set (service_hosts service ns) \<and>
     claimed_sa = sa \<and> t = \<lparr>ut_endpoints = [endpoint], ut_expected_server = ExactId (spiffe_uri td ns sa)\<rparr>"
proof -
  let ?pol = "upstream_policy_new td install pod names"
  obtain p where p: "service_dns_parts uri_parse endpoint = Some p" "sd_is_https p" "sd_ends_at_cluster_domain p"
    using assms by (auto simp: policy_resolve_def split: option.splits if_splits)
  obtain l where l: "List.find (\<lambda>l. lu_service l = sd_service p \<and> lu_namespace l = sd_namespace p) (up_legal ?pol) = Some l"
    and sa: "claimed_sa = lu_service_account l"
    and t: "t = upstream_target_new endpoint (ExactId (spiffe_uri (up_trust_domain ?pol) (lu_namespace l) (lu_service_account l)))"
    using assms p by (auto simp: policy_resolve_def split: option.splits if_splits)
  have m: "l \<in> set (up_legal ?pol)" "lu_service l = sd_service p" "lu_namespace l = sd_namespace p"
    using l by (auto simp: find_Some_iff)
  obtain uri h where u: "uri_parse endpoint = Some uri" "hu_host uri = Some h"
      "h \<in> set (service_hosts (sd_service p) (sd_namespace p))" "hu_scheme uri = Some ''https''"
    using service_dns_parts_host[OF p(1,3)] p(2) by auto
  have "(lu_service l, lu_namespace l, lu_service_account l) \<in>
      {(un_controller_service names, install, un_controller_sa names), (un_relay names, pod, un_relay names),
       (un_shared_relay names, install, un_shared_relay names)}"
    using m(1) by (auto simp: upstream_policy_new_def)
  then show ?thesis
    using u sa t m(2,3) by (intro exI[of _ uri] exI[of _ h] exI[of _ "lu_service l"] exI[of _ "lu_namespace l"] exI[of _ "lu_service_account l"])
      (simp add: upstream_policy_new_def upstream_target_new_def)
qed

text \<open>An instance: a URI parser for plain service names, and the names the controller renders.\<close>

definition plain_uri_parse :: "string \<Rightarrow> http_uri option" where
  "plain_uri_parse s =
     (case strip_prefix s ''https://'' of
        Some rest \<Rightarrow> Some \<lparr>hu_scheme = Some ''https'', hu_host = Some (takeWhile (\<lambda>c. c \<noteq> CHR '':'') rest)\<rparr>
      | None \<Rightarrow> None)"

definition demo_names :: upstream_names where
  "demo_names = \<lparr>un_controller_service = ''coxswain-controller-discovery'', un_controller_sa = ''coxswain-controller'',
     un_relay = ''coxswain-relay'', un_shared_relay = ''coxswain-relay-shared''\<rparr>"

theorem upstream_pointer_pinned_witness:
  "\<exists>t. policy_resolve plain_uri_parse (upstream_policy_new ''cluster.local'' ''coxswain-system'' ''team-a'' demo_names)
        ''https://coxswain-relay.team-a.svc:50051'' ''coxswain-relay'' = Inr t \<and>
     ut_expected_server t = ExactId ''spiffe://cluster.local/ns/team-a/sa/coxswain-relay'' \<and>
     (\<exists>uri. plain_uri_parse ''https://coxswain-relay.team-a.svc:50051'' = Some uri \<and> hu_scheme uri = Some ''https'')"
proof -
  let ?t = "\<lparr>ut_endpoints = [''https://coxswain-relay.team-a.svc:50051''],
     ut_expected_server = ExactId ''spiffe://cluster.local/ns/team-a/sa/coxswain-relay''\<rparr>"
  have t: "policy_resolve plain_uri_parse (upstream_policy_new ''cluster.local'' ''coxswain-system'' ''team-a'' demo_names)
        ''https://coxswain-relay.team-a.svc:50051'' ''coxswain-relay'' = Inr ?t" by code_simp
  from upstream_pointer_pinned[OF t]
  have "\<exists>uri. plain_uri_parse ''https://coxswain-relay.team-a.svc:50051'' = Some uri \<and> hu_scheme uri = Some ''https''" by blast
  with t show ?thesis by (intro exI[of _ ?t]) simp
qed

definition reads_service :: "(string \<Rightarrow> http_uri option) \<Rightarrow> string \<Rightarrow> string \<Rightarrow> string \<Rightarrow> bool" where
  "reads_service uri_parse endpoint service namespace \<longleftrightarrow>
     uri_parse endpoint = Some \<lparr>hu_scheme = Some ''https'', hu_host = Some (service @ ''.'' @ namespace @ ''.svc'')\<rparr> \<and>
     service \<noteq> [] \<and> CHR ''.'' \<notin> set service \<and> namespace \<noteq> [] \<and> CHR ''.'' \<notin> set namespace"

lemma reads_service_parts:
  assumes "reads_service uri_parse endpoint service namespace"
  shows "service_dns_parts uri_parse endpoint =
     Some \<lparr>sd_service = service, sd_namespace = namespace, sd_ends_at_cluster_domain = True, sd_is_https = True\<rparr>"
proof -
  have h: "split_on CHR ''.'' (service @ ''.'' @ namespace @ ''.svc'') = [service, namespace, ''svc'']"
    using assms split_on_append_sep[of "CHR ''.''" service "namespace @ ''.svc''"] split_on_append_sep[of "CHR ''.''" namespace "''svc''"]
    by (simp add: reads_service_def)
  have "\<not> ends_with (service @ ''.'' @ namespace @ ''.svc'') ''.''"
  proof
    assume "ends_with (service @ ''.'' @ namespace @ ''.svc'') ''.''"
    then obtain r where "service @ ''.'' @ namespace @ ''.svc'' = r @ ''.''" by (auto simp: ends_with_iff)
    from arg_cong[OF this, of last] show False by simp
  qed
  then have "strip_suffix (service @ ''.'' @ namespace @ ''.svc'') ''.'' = None" by (simp add: strip_suffix_eq_None)
  then show ?thesis using assms h by (simp add: service_dns_parts_def reads_service_def)
qed

definition names_agree :: "(string \<Rightarrow> http_uri option) \<Rightarrow> upstream_names \<Rightarrow> string \<Rightarrow> string \<Rightarrow> upstream_resolver_config \<Rightarrow> bool" where
  "names_agree uri_parse names install pod c \<longleftrightarrow>
     reads_service uri_parse (ur_controller_endpoint c) (un_controller_service names) install \<and>
     ur_controller_sa c = un_controller_sa names \<and>
     reads_service uri_parse (ur_shared_relay_endpoint c) (un_shared_relay names) install \<and>
     ur_shared_relay_sa c = un_shared_relay names \<and>
     reads_service uri_parse (ru_endpoint (namespace_relay_endpoint c pod)) (un_relay names) pod \<and>
     ur_relay_sa c = un_relay names \<and>
     distinct [un_controller_service names, un_relay names, un_shared_relay names]"

lemma policy_resolve_reads:
  assumes "reads_service uri_parse endpoint service ns"
    and "List.find (\<lambda>l. lu_service l = service \<and> lu_namespace l = ns) (up_legal pol) = Some l" "sa = lu_service_account l"
  shows "policy_resolve uri_parse pol endpoint sa =
     Inr \<lparr>ut_endpoints = [endpoint], ut_expected_server = ExactId (spiffe_uri (up_trust_domain pol) (lu_namespace l) sa)\<rparr>"
  using assms by (simp add: policy_resolve_def reads_service_parts upstream_target_new_def)

lemma legal_upstream_resolves:
  assumes "names_agree uri_parse names install pod c"
    and "u \<in> {controller_target c, namespace_relay_endpoint c pod, shared_relay_endpoint c}"
  shows "\<exists>expected. policy_resolve uri_parse (upstream_policy_new td install pod names) (ru_endpoint u) (ru_expected_sa u) =
     Inr \<lparr>ut_endpoints = [ru_endpoint u], ut_expected_server = expected\<rparr>"
proof -
  let ?pol = "upstream_policy_new td install pod names"
  note reads = policy_resolve_reads[of uri_parse _ _ _ ?pol]
  have "policy_resolve uri_parse ?pol (ur_controller_endpoint c) (ur_controller_sa c) =
      Inr \<lparr>ut_endpoints = [ur_controller_endpoint c], ut_expected_server = ExactId (spiffe_uri td install (ur_controller_sa c))\<rparr>"
    using assms(1) reads[of "ur_controller_endpoint c" "un_controller_service names" install
        "\<lparr>lu_service = un_controller_service names, lu_namespace = install, lu_service_account = un_controller_sa names\<rparr>" "ur_controller_sa c"]
    by (simp add: names_agree_def upstream_policy_new_def)
  moreover have "policy_resolve uri_parse ?pol (ur_shared_relay_endpoint c) (ur_shared_relay_sa c) =
      Inr \<lparr>ut_endpoints = [ur_shared_relay_endpoint c], ut_expected_server = ExactId (spiffe_uri td install (ur_shared_relay_sa c))\<rparr>"
    using assms(1) reads[of "ur_shared_relay_endpoint c" "un_shared_relay names" install
        "\<lparr>lu_service = un_shared_relay names, lu_namespace = install, lu_service_account = un_shared_relay names\<rparr>" "ur_shared_relay_sa c"]
    by (simp add: names_agree_def upstream_policy_new_def)
  moreover have "policy_resolve uri_parse ?pol (ru_endpoint (namespace_relay_endpoint c pod)) (ur_relay_sa c) =
      Inr \<lparr>ut_endpoints = [ru_endpoint (namespace_relay_endpoint c pod)], ut_expected_server = ExactId (spiffe_uri td pod (ur_relay_sa c))\<rparr>"
    using assms(1) reads[of "ru_endpoint (namespace_relay_endpoint c pod)" "un_relay names" pod
        "\<lparr>lu_service = un_relay names, lu_namespace = pod, lu_service_account = un_relay names\<rparr>" "ur_relay_sa c"]
    by (simp add: names_agree_def upstream_policy_new_def)
  ultimately show ?thesis
    using assms(2) by (auto simp: controller_target_def shared_relay_endpoint_def namespace_relay_endpoint_def)
qed

text \<open>
  C13: The controller and its nodes agree on names: for a node that is not itself a relay, whatever upstream
  the controller's resolver picks for the scope of the node's own namespace is accepted by the node's
  policy, provided the endpoints are rendered from the same names and the URI parser reads a host and a
  scheme back out of such an endpoint.
\<close>

theorem resolved_upstream_accepted:
  assumes "names_agree uri_parse names install pod c"
    and "s = SharedPool \<or> (\<exists>name. s = GatewayScope name pod)"
  shows "\<exists>t. policy_resolve uri_parse (upstream_policy_new td install pod names)
        (ru_endpoint (resolver_resolve c spiffe s)) (ru_expected_sa (resolver_resolve c spiffe s)) = Inr t \<and>
     ut_endpoints t = [ru_endpoint (resolver_resolve c spiffe s)]"
proof -
  let ?pol = "upstream_policy_new td install pod names"
  let ?r = "resolver_resolve c spiffe s"
  have "?r \<in> {controller_target c, shared_relay_endpoint c, namespace_relay_endpoint c pod}"
    using assms(2) by (cases s)
      (simp_all add: resolver_resolve_def resolve_shared_def resolve_namespace_def shared_relay_endpoint_def namespace_relay_endpoint_def)
  from legal_upstream_resolves[OF assms(1), of ?r td] this show ?thesis by auto
qed

definition demo_resolver :: "string list \<Rightarrow> upstream_resolver_config" where
  "demo_resolver active =
     \<lparr>ur_controller_endpoint = ''https://coxswain-controller-discovery.coxswain-system.svc:50051'', ur_controller_sa = ''coxswain-controller'',
      ur_shared_relay_endpoint = ''https://coxswain-relay-shared.coxswain-system.svc:50051'', ur_shared_relay_sa = ''coxswain-relay-shared'',
      ur_shared_relay_active = False, ur_relay_service_name = ''coxswain-relay'', ur_relay_port = 50051, ur_relay_sa = ''coxswain-relay'',
      ur_active_relays = active, ur_trust_domain = ''cluster.local'', ur_install_namespace = ''coxswain-system''\<rparr>"

lemma demo_names_agree: "names_agree plain_uri_parse demo_names ''coxswain-system'' ''team-a'' (demo_resolver [''team-a''])"
  by code_simp

theorem resolved_upstream_accepted_witness:
  "\<exists>t. policy_resolve plain_uri_parse (upstream_policy_new ''cluster.local'' ''coxswain-system'' ''team-a'' demo_names)
        (ru_endpoint (resolver_resolve (demo_resolver [''team-a'']) (sid_of ''cluster.local'' ''team-a'' ''gw-coxswain'') (GatewayScope ''gw'' ''team-a'')))
        (ru_expected_sa (resolver_resolve (demo_resolver [''team-a'']) (sid_of ''cluster.local'' ''team-a'' ''gw-coxswain'') (GatewayScope ''gw'' ''team-a''))) = Inr t"
  using resolved_upstream_accepted[OF demo_names_agree, of "GatewayScope ''gw'' ''team-a''" "''cluster.local''"
      "sid_of ''cluster.local'' ''team-a'' ''gw-coxswain''"] by blast

lemma reads_service_unique:
  "reads_service uri_parse e service ns \<Longrightarrow> reads_service uri_parse e service' ns' \<Longrightarrow> service = service'"
  by (drule reads_service_parts)+ simp

lemma legal_upstreams_distinct:
  assumes "names_agree uri_parse names install pod c"
    and "u \<in> {controller_target c, namespace_relay_endpoint c pod, shared_relay_endpoint c}"
    and "v \<in> {controller_target c, namespace_relay_endpoint c pod, shared_relay_endpoint c}"
    and "ru_endpoint u = ru_endpoint v"
  shows "u = v"
proof -
  let ?c = "controller_target c" and ?n = "namespace_relay_endpoint c pod" and ?s = "shared_relay_endpoint c"
  have reads: "reads_service uri_parse (ru_endpoint ?c) (un_controller_service names) install"
    "reads_service uri_parse (ru_endpoint ?n) (un_relay names) pod"
    "reads_service uri_parse (ru_endpoint ?s) (un_shared_relay names) install"
    and d: "distinct [un_controller_service names, un_relay names, un_shared_relay names]"
    using assms(1) by (simp_all add: names_agree_def controller_target_def shared_relay_endpoint_def)
  have "ru_endpoint ?c \<noteq> ru_endpoint ?n" "ru_endpoint ?c \<noteq> ru_endpoint ?s" "ru_endpoint ?n \<noteq> ru_endpoint ?s"
    using reads_service_unique[OF reads(1), of "un_relay names" pod] reads_service_unique[OF reads(1), of "un_shared_relay names" install]
      reads_service_unique[OF reads(2), of "un_shared_relay names" install] reads d by auto
  then show ?thesis using assms(2-4) by auto
qed

text \<open>
  Where a leaf of namespace \<open>pod\<close> sits, seen from the controller's stream that serves it: a Gateway or
  shared proxy whose own stream that is, connected to the controller, or one behind the relay whose stream
  it is, connected to that relay.  The third component is the upstream the leaf is connected to.
\<close>

definition leaf_at ::
  "upstream_resolver_config \<Rightarrow> string \<Rightarrow> scope \<Rightarrow> peer_svid option \<Rightarrow> bool \<Rightarrow> scope \<Rightarrow> resolved_upstream \<Rightarrow> bool" where
  "leaf_at c pod s peer relayed leaf at \<longleftrightarrow>
     (case s of
        GatewayScope name ns \<Rightarrow> ns = pod \<and> leaf = s \<and> \<not> relayed \<and> at = controller_target c
      | NamespaceScope ns \<Rightarrow> ns = pod \<and> (case leaf of GatewayScope name ns' \<Rightarrow> ns' = pod | _ \<Rightarrow> False) \<and> relayed \<and>
          at = namespace_relay_endpoint c pod
      | SharedPool \<Rightarrow> leaf = SharedPool \<and> relayed = is_shared_relay c peer \<and>
          at = (if relayed then shared_relay_endpoint c else controller_target c))"

definition leaf_receives :: "bool \<Rightarrow> scope \<Rightarrow> p_preferred_upstream \<Rightarrow> p_preferred_upstream option" where
  "leaf_receives relayed leaf d =
     (if relayed then snd (forward_retained_directive \<lparr>dr_value = Some d, dr_changed = True\<rparr> leaf) else Some d)"

lemma leaf_wants:
  assumes "leaf_at c pod s peer relayed leaf connected"
    and "sid_service_account spiffe \<noteq> ur_relay_sa c" "sid_service_account spiffe \<noteq> ur_shared_relay_sa c"
  shows "resolver_resolve c spiffe leaf = upstream_target_of c s"
    and "upstream_target_of c s \<in> {controller_target c, namespace_relay_endpoint c pod, shared_relay_endpoint c}"
    and "upstream_seed c s peer = connected"
    and "ppu_target_namespace d = forward_target s \<Longrightarrow> ppu_target_name d = [] \<Longrightarrow> leaf_receives relayed leaf d = Some d"
  using assms
  by (auto simp: leaf_at_def resolver_resolve_def upstream_target_of_def resolve_namespace_def resolve_shared_def upstream_seed_def
      namespace_relay_endpoint_def shared_relay_endpoint_def leaf_receives_def forward_retained_directive_def directive_targets_leaf_def
      forward_target_def split: scope.splits)

text \<open>
  C25: A leaf is moved exactly when it should be, and to the right place.  Take a Gateway or shared proxy of a
  namespace, direct or behind a relay, that is connected to the controller or to that relay when the
  controller opens the stream serving it, or to the upstream the stream has on record when the set of
  active relays changes later.  The controller pushes a directive exactly when that upstream is not the one
  the bootstrap service would now hand the leaf; the directive reaches the leaf, through the relay where there
  is one; the leaf's own policy accepts it, its cell then points at the wanted upstream alone, and the session
  is told to reconnect.  In particular a relay's stream opened only after the relay was deactivated still
  sends the relay's leaves back to the controller.  Both sides render the same names, and the URI parser
  refuses an empty string.
\<close>

theorem directives_reach_target:
  assumes "names_agree uri_parse names install pod c" and "uri_parse [] = None"
    and "leaf_at c pod s peer relayed leaf connected"
    and "sid_service_account spiffe \<noteq> ur_relay_sa c" "sid_service_account spiffe \<noteq> ur_shared_relay_sa c"
    and "at \<in> {controller_target c, namespace_relay_endpoint c pod, shared_relay_endpoint c}"
    and "prev = None \<and> at = connected \<or> prev = Some at"
    and "ut_endpoints cell = [ru_endpoint at]"
  shows "case seed_or_push_upstream s peer (Some c) prev of
       (prev', None) \<Rightarrow> resolver_resolve c spiffe leaf = at \<and> prev' = Some at
     | (prev', Some d) \<Rightarrow> resolver_resolve c spiffe leaf \<noteq> at \<and> prev' = Some (resolver_resolve c spiffe leaf) \<and>
         (\<exists>received target. leaf_receives relayed leaf d = Some received \<and>
            apply_repoint (resolve_directive uri_parse (Some (upstream_policy_new td install pod names)) td install) (Some (Some cell)) received =
              (Some (Some target), True) \<and>
            ut_endpoints target = [ru_endpoint (resolver_resolve c spiffe leaf)])"
proof -
  let ?w = "upstream_target_of c s"
  note wants = leaf_wants[OF assms(3-5)]
  obtain expected where ok: "policy_resolve uri_parse (upstream_policy_new td install pod names) (ru_endpoint ?w) (ru_expected_sa ?w) =
      Inr \<lparr>ut_endpoints = [ru_endpoint ?w], ut_expected_server = expected\<rparr>"
    using legal_upstream_resolves[OF assms(1) wants(2)] by blast
  have "ru_endpoint ?w \<noteq> []" using ok assms(2) by (auto simp: policy_resolve_def service_dns_parts_def)
  moreover have "at \<noteq> ?w \<Longrightarrow> ru_endpoint at \<noteq> ru_endpoint ?w" using legal_upstreams_distinct[OF assms(1,6) wants(2)] by blast
  moreover have "(case prev of None \<Rightarrow> Some (upstream_seed c s peer) | Some _ \<Rightarrow> prev) = Some at" using assms(7) wants(3) by auto
  ultimately show ?thesis
    using assms(8) ok wants(1,4)
    by (cases "at = ?w") (auto simp: seed_or_push_upstream_def apply_repoint_def resolve_directive_def upstream_cell_points_at_def upstream_target_new_def Let_def)
qed

theorem directives_reach_target_witness:
  "\<exists>d target. seed_or_push_upstream (NamespaceScope ''team-a'') None (Some (demo_resolver [])) None = (Some (controller_target (demo_resolver [])), Some d) \<and>
     apply_repoint (resolve_directive plain_uri_parse (Some (upstream_policy_new ''cluster.local'' ''coxswain-system'' ''team-a'' demo_names))
         ''cluster.local'' ''coxswain-system'')
       (Some (Some \<lparr>ut_endpoints = [''https://coxswain-relay.team-a.svc:50051''],
          ut_expected_server = ExactId ''spiffe://cluster.local/ns/team-a/sa/coxswain-relay''\<rparr>)) d = (Some (Some target), True) \<and>
     ut_endpoints target = [ur_controller_endpoint (demo_resolver [])]"
proof -
  let ?c = "demo_resolver []" and ?at = "namespace_relay_endpoint (demo_resolver []) ''team-a''" and ?s = "NamespaceScope ''team-a''"
  let ?leaf = "GatewayScope ''gw'' ''team-a''" and ?id = "sid_of ''cluster.local'' ''team-a'' ''gw-coxswain''"
  have agree: "names_agree plain_uri_parse demo_names ''coxswain-system'' ''team-a'' ?c" by code_simp
  have parse: "plain_uri_parse [] = None" by code_simp
  have leaf: "leaf_at ?c ''team-a'' ?s None True ?leaf ?at" by (simp add: leaf_at_def)
  have sa: "sid_service_account ?id \<noteq> ur_relay_sa ?c" "sid_service_account ?id \<noteq> ur_shared_relay_sa ?c" by code_simp+
  have at: "ru_endpoint ?at = ''https://coxswain-relay.team-a.svc:50051''" by code_simp
  have w: "resolver_resolve ?c ?id ?leaf = controller_target ?c" "controller_target ?c \<noteq> ?at" by code_simp+
  have fwd: "leaf_receives True ?leaf d = Some r \<Longrightarrow> r = d" for d r
    by (simp add: leaf_receives_def forward_retained_directive_def split: if_splits)
  from directives_reach_target[OF agree parse leaf sa, of ?at None "\<lparr>ut_endpoints = [''https://coxswain-relay.team-a.svc:50051''],
      ut_expected_server = ExactId ''spiffe://cluster.local/ns/team-a/sa/coxswain-relay''\<rparr>" "''cluster.local''"]
  show ?thesis using w by (auto simp: at controller_target_def dest: fwd split: prod.splits option.splits)
qed

text \<open>
  C17: The bootstrap service issues a certificate only to a caller whose wire version matches, whose token was
  reviewed, and whose identity is a managed one when an allowlist is wired, and it signs for exactly that
  identity; every refusal is reported to the reject hook and every success is not.
\<close>

theorem bootstrap_issues_only_to_managed:
  assumes "bootstrap svc req = (r, hook)"
  shows "(case r of Inl _ \<Rightarrow> hook \<noteq> None | Inr resp \<Rightarrow> hook = None \<and>
     (\<exists>spiffe svid. br_wire_version req = WIRE_VERSION \<and> bsv_authenticate svc (br_sa_token req) = Inr spiffe \<and>
        (\<forall>a. bsv_identity_allowlist svc = Some a \<longrightarrow> allowlist_allows a spiffe) \<and>
        bsv_sign_csr svc (br_csr_pem req) spiffe = Inr svid \<and> bs_svid_cert_pem resp = is_cert_pem svid))"
proof (cases "bsv_authenticate svc (br_sa_token req)")
  case (Inl e)
  then show ?thesis using assms by (cases e) (auto simp: bootstrap_def split: if_splits)
next
  case (Inr spiffe)
  show ?thesis
  proof (cases "bsv_sign_csr svc (br_csr_pem req) spiffe")
    case (Inl e)
    then show ?thesis using assms Inr by (cases e) (auto simp: bootstrap_def split: if_splits)
  next
    case (Inr svid)
    then show ?thesis using assms \<open>bsv_authenticate svc (br_sa_token req) = Inr spiffe\<close>
      by (auto simp: bootstrap_def Let_def split: if_splits option.splits)
  qed
qed

definition demo_bootstrap :: bootstrap_service where
  "demo_bootstrap = \<lparr>bsv_authenticate = (\<lambda>_. Inr (sid_of ''cluster.local'' ''coxswain-system'' ''proxy'')),
     bsv_sign_csr = (\<lambda>csr _. Inr \<lparr>is_cert_pem = csr, is_not_after_unix = 1\<rparr>), bsv_trust_bundle = [], bsv_upstream = None,
     bsv_identity_allowlist = Some \<lparr>al_install_namespace = ''coxswain-system'', al_shared_proxy_sa = ''proxy'', al_shared_relay_sa = ''relay'',
       al_relay_sa = ''coxswain-relay'', al_provisioned_relays = [], al_dedicated_identities = []\<rparr>\<rparr>"

theorem bootstrap_issues_only_to_managed_witness:
  "\<exists>resp. bootstrap demo_bootstrap \<lparr>br_sa_token = [], br_csr_pem = [7], br_wire_version = 2, br_scope = None\<rparr> = (Inr resp, None) \<and> bs_svid_cert_pem resp = [7]"
proof -
  let ?req = "\<lparr>br_sa_token = [], br_csr_pem = [7], br_wire_version = 2, br_scope = None\<rparr>"
  obtain r hook where b: "bootstrap demo_bootstrap ?req = (r, hook)" by force
  moreover have "\<exists>resp. fst (bootstrap demo_bootstrap ?req) = Inr resp" unfolding demo_bootstrap_def by (simp add: bootstrap_def WIRE_VERSION_def allowlist_allows_def)
  ultimately show ?thesis using bootstrap_issues_only_to_managed[OF b] by (auto simp: demo_bootstrap_def)
qed

end
