(* ===== verification/Health.thy ===== *)
theory Health
  imports Btree_Map
begin

text \<open>
  The subsystem health registry (\<open>coxswain-core/src/health.rs\<close>) and the report a node sends about itself
  (\<open>coxswain-discovery/src/wire/health.rs\<close>).  A registry maps subsystem names to a fixed set of named
  checks; posting a check state updates the cached worst severity, which readiness probes read without
  walking the checks, and bumps the change counter that wakes the reporter.  A handle is the name of its
  subsystem, since registration refuses a second subsystem of the same name; a panic is the left summand.
  Times are nanoseconds since the epoch.
\<close>

section \<open>Check states\<close>

datatype check_state = Pending | Ready | Degraded string | Failed string

definition SEV_READY :: u8 where "SEV_READY = 0"
definition SEV_PENDING :: u8 where "SEV_PENDING = 1"
definition SEV_DEGRADED :: u8 where "SEV_DEGRADED = 2"
definition SEV_FAILED :: u8 where "SEV_FAILED = 3"

lemmas sev_defs = SEV_READY_def SEV_PENDING_def SEV_DEGRADED_def SEV_FAILED_def

fun severity :: "check_state \<Rightarrow> u8" where
  "severity Ready = SEV_READY"
| "severity Pending = SEV_PENDING"
| "severity (Degraded _) = SEV_DEGRADED"
| "severity (Failed _) = SEV_FAILED"

fun check_is_ready :: "check_state \<Rightarrow> bool" where
  "check_is_ready Ready = True"
| "check_is_ready (Degraded _) = True"
| "check_is_ready _ = False"

definition severity_is_ready :: "u8 \<Rightarrow> bool" where
  "severity_is_ready sev \<longleftrightarrow> sev = SEV_READY \<or> sev = SEV_DEGRADED"

text \<open>\<open>Iterator::max_by_key\<close> keeps the last of several maximal elements.\<close>

definition max_by_severity :: "check_state list \<Rightarrow> check_state option" where
  "max_by_severity cs =
     foldl (\<lambda>best c. case best of None \<Rightarrow> Some c | Some b \<Rightarrow> if severity b \<le> severity c then Some c else Some b) None cs"

definition aggregate_state :: "(string \<times> check_state) list \<Rightarrow> check_state" where
  "aggregate_state checks = (case max_by_severity (map snd checks) of Some c \<Rightarrow> c | None \<Rightarrow> Ready)"

definition max_severity :: "(string \<times> check_state) list \<Rightarrow> u8" where
  "max_severity checks = foldr (\<lambda>c m. max (severity c) m) (map snd checks) SEV_READY"

section \<open>The registry\<close>

record subsystem_inner =
  si_name :: string
  si_checks :: "(string \<times> check_state) list"
  si_aggregate_severity :: u8

record health_registry =
  hr_subsystems :: "(string \<times> subsystem_inner) list"
  hr_changed :: u64

datatype health_panic = CheckNotRegistered string string | SubsystemAlreadyRegistered string

record subsystem_snapshot =
  ss_state :: check_state
  ss_checks :: "(string \<times> check_state) list"

type_synonym health_snapshot = "(string \<times> subsystem_snapshot) list"

definition health_registry_new :: health_registry where
  "health_registry_new = \<lparr>hr_subsystems = [], hr_changed = 0\<rparr>"

definition health_register :: "string \<Rightarrow> string list \<Rightarrow> health_registry \<Rightarrow> health_panic + health_registry" where
  "health_register name checks reg =
     (if map_of (hr_subsystems reg) name \<noteq> None then Inl (SubsystemAlreadyRegistered name)
      else let check_map = btree_from (map (\<lambda>c. (c, Pending)) checks);
               initial = (if check_map = [] then SEV_READY else SEV_PENDING)
           in Inr \<lparr>hr_subsystems = btree_insert name
                     \<lparr>si_name = name, si_checks = check_map, si_aggregate_severity = initial\<rparr> (hr_subsystems reg),
                   hr_changed = hr_changed reg + 1\<rparr>)"

definition handle_set :: "string \<Rightarrow> string \<Rightarrow> check_state \<Rightarrow> health_registry \<Rightarrow> health_panic + health_registry" where
  "handle_set name check state reg =
     (case map_of (hr_subsystems reg) name of
        None \<Rightarrow> Inl (CheckNotRegistered check name)
      | Some s \<Rightarrow>
          (case map_of (si_checks s) check of
             None \<Rightarrow> Inl (CheckNotRegistered check (si_name s))
           | Some slot \<Rightarrow>
               if slot = state then Inr reg
               else let checks = btree_insert check state (si_checks s)
                    in Inr \<lparr>hr_subsystems = btree_insert name
                              (s\<lparr>si_checks := checks, si_aggregate_severity := max_severity checks\<rparr>) (hr_subsystems reg),
                            hr_changed = hr_changed reg + 1\<rparr>))"

definition handle_ready :: "string \<Rightarrow> string \<Rightarrow> health_registry \<Rightarrow> health_panic + health_registry" where
  "handle_ready name check = handle_set name check Ready"

definition handle_degraded :: "string \<Rightarrow> string \<Rightarrow> string \<Rightarrow> health_registry \<Rightarrow> health_panic + health_registry" where
  "handle_degraded name check reason = handle_set name check (Degraded reason)"

definition handle_failed :: "string \<Rightarrow> string \<Rightarrow> string \<Rightarrow> health_registry \<Rightarrow> health_panic + health_registry" where
  "handle_failed name check reason = handle_set name check (Failed reason)"

definition registry_is_ready :: "health_registry \<Rightarrow> bool" where
  "registry_is_ready reg = list_all (\<lambda>(_, s). severity_is_ready (si_aggregate_severity s)) (hr_subsystems reg)"

definition is_subsystem_ready :: "string \<Rightarrow> health_registry \<Rightarrow> bool" where
  "is_subsystem_ready name reg =
     (case map_of (hr_subsystems reg) name of Some s \<Rightarrow> severity_is_ready (si_aggregate_severity s) | None \<Rightarrow> False)"

definition health_snapshot_of :: "health_registry \<Rightarrow> health_snapshot" where
  "health_snapshot_of reg =
     map (\<lambda>(name, s). (name, \<lparr>ss_state = aggregate_state (si_checks s), ss_checks = si_checks s\<rparr>)) (hr_subsystems reg)"

text \<open>The one-way liveness gate.\<close>

record liveness_gate =
  lg_alive :: bool

definition liveness_gate_new :: liveness_gate where
  "liveness_gate_new = \<lparr>lg_alive = True\<rparr>"

definition is_alive :: "liveness_gate \<Rightarrow> bool" where
  "is_alive g = lg_alive g"

definition trip :: "liveness_gate \<Rightarrow> liveness_gate" where
  "trip g = g\<lparr>lg_alive := False\<rparr>"

section \<open>The report on the wire\<close>

type_synonym i64 = "64 word"

datatype p_check_state = PCheckUnspecified | PCheckPending | PCheckReady | PCheckDegraded | PCheckFailed

record p_check_health =
  pch_name :: string
  pch_state :: int
  pch_reason :: string

record p_subsystem_health =
  psh_name :: string
  psh_checks :: "p_check_health list"

record p_health_report =
  phr_version :: string
  phr_subsystems :: "p_subsystem_health list"
  phr_reported_at_unix :: i64

record node_health =
  nh_version :: string
  nh_snapshot :: health_snapshot
  nh_reported_at :: int

fun p_check_state_value :: "p_check_state \<Rightarrow> int" where
  "p_check_state_value PCheckUnspecified = 0"
| "p_check_state_value PCheckPending = 1"
| "p_check_state_value PCheckReady = 2"
| "p_check_state_value PCheckDegraded = 3"
| "p_check_state_value PCheckFailed = 4"

definition p_check_state_try_from :: "int \<Rightarrow> p_check_state option" where
  "p_check_state_try_from v =
     (if v = 0 then Some PCheckUnspecified else if v = 1 then Some PCheckPending else if v = 2 then Some PCheckReady
      else if v = 3 then Some PCheckDegraded else if v = 4 then Some PCheckFailed else None)"

fun check_state_to_wire :: "check_state \<Rightarrow> p_check_state" where
  "check_state_to_wire Pending = PCheckPending"
| "check_state_to_wire Ready = PCheckReady"
| "check_state_to_wire (Degraded _) = PCheckDegraded"
| "check_state_to_wire (Failed _) = PCheckFailed"

fun check_reason :: "check_state \<Rightarrow> string option" where
  "check_reason (Degraded r) = Some r"
| "check_reason (Failed r) = Some r"
| "check_reason _ = None"

definition check_state_from_wire :: "p_check_health \<Rightarrow> check_state" where
  "check_state_from_wire c =
     (case p_check_state_try_from (pch_state c) of
        Some PCheckReady \<Rightarrow> Ready
      | Some PCheckDegraded \<Rightarrow> Degraded (pch_reason c)
      | Some PCheckFailed \<Rightarrow> Failed (pch_reason c)
      | _ \<Rightarrow> Pending)"

definition system_time_to_unix :: "int \<Rightarrow> i64" where
  "system_time_to_unix t = (if t < 0 then 0 else word_of_int (min (t div 10 ^ 9) (2 ^ 63 - 1)))"

definition unix_to_system_time :: "i64 \<Rightarrow> int" where
  "unix_to_system_time secs = (if sint secs < 0 then 0 else sint secs * 10 ^ 9)"

definition health_to_wire :: "string \<Rightarrow> health_snapshot \<Rightarrow> int \<Rightarrow> p_health_report" where
  "health_to_wire version snapshot reported_at =
     \<lparr>phr_version = version,
      phr_subsystems = map (\<lambda>(name, sub). \<lparr>psh_name = name,
          psh_checks = map (\<lambda>(check, state). \<lparr>pch_name = check,
            pch_state = p_check_state_value (check_state_to_wire state),
            pch_reason = (case check_reason state of Some r \<Rightarrow> r | None \<Rightarrow> [])\<rparr>) (ss_checks sub)\<rparr>) snapshot,
      phr_reported_at_unix = system_time_to_unix reported_at\<rparr>"

definition health_from_wire :: "p_health_report \<Rightarrow> node_health" where
  "health_from_wire dto =
     \<lparr>nh_version = phr_version dto,
      nh_snapshot = btree_from (map (\<lambda>sub.
        let checks = btree_from (map (\<lambda>c. (pch_name c, check_state_from_wire c)) (psh_checks sub))
        in (psh_name sub, \<lparr>ss_state = aggregate_state checks, ss_checks = checks\<rparr>)) (phr_subsystems dto)),
      nh_reported_at = unix_to_system_time (phr_reported_at_unix dto)\<rparr>"

section \<open>Severities\<close>

lemma severity_le: "severity c \<le> SEV_FAILED"
  by (cases c) (simp_all add: sev_defs)

lemma severity_ready: "severity_is_ready (severity c) \<longleftrightarrow> check_is_ready c"
  by (cases c) (simp_all add: severity_is_ready_def sev_defs)

lemma max_by_severity_snoc:
  "max_by_severity (cs @ [c]) = (case max_by_severity cs of None \<Rightarrow> Some c | Some b \<Rightarrow> if severity b \<le> severity c then Some c else Some b)"
  by (simp add: max_by_severity_def)

lemma max_by_severity_some:
  "cs \<noteq> [] \<Longrightarrow> \<exists>b. max_by_severity cs = Some b \<and> b \<in> set cs \<and> (\<forall>c\<in>set cs. severity c \<le> severity b)"
proof (induction cs rule: rev_induct)
  case (snoc c cs)
  show ?case
  proof (cases "cs = []")
    case True
    then show ?thesis by (simp add: max_by_severity_def)
  next
    case False
    with snoc obtain b where "max_by_severity cs = Some b" "b \<in> set cs" "\<forall>c\<in>set cs. severity c \<le> severity b" by blast
    then show ?thesis by (auto simp: max_by_severity_snoc intro: order_trans)
  qed
qed simp

lemma max_severity_bound: "\<forall>c\<in>set (map snd checks). severity c \<le> max_severity checks"
  by (induction checks) (auto simp: max_severity_def le_max_iff_disj)

lemma max_severity_attained: "checks \<noteq> [] \<Longrightarrow> max_severity checks \<in> severity ` set (map snd checks)"
proof (induction checks)
  case (Cons e checks)
  obtain k c where e: "e = (k, c)" by force
  show ?case
  proof (cases "checks = []")
    case True
    then show ?thesis by (simp add: e max_severity_def sev_defs max_def)
  next
    case False
    have "max_severity (e # checks) = max (severity c) (max_severity checks)" by (simp add: e max_severity_def)
    then show ?thesis using Cons.IH[OF False] by (auto simp: e max_def)
  qed
qed simp

lemma aggregate_is_worst: "severity (aggregate_state checks) = max_severity checks"
proof (cases "checks = []")
  case True
  then show ?thesis by (simp add: aggregate_state_def max_by_severity_def max_severity_def)
next
  case False
  then obtain b where b: "max_by_severity (map snd checks) = Some b" "b \<in> set (map snd checks)"
    "\<forall>c\<in>set (map snd checks). severity c \<le> severity b" using max_by_severity_some[of "map snd checks"] by auto
  obtain c where "c \<in> set (map snd checks)" "max_severity checks = severity c"
    using max_severity_attained[OF False] by auto
  then have "severity b = max_severity checks"
    using b(2,3) max_severity_bound[of checks] by (metis order_antisym)
  then show ?thesis by (simp add: aggregate_state_def b(1))
qed

lemma aggregate_state_mem: "checks \<noteq> [] \<Longrightarrow> aggregate_state checks \<in> set (map snd checks)"
  using max_by_severity_some[of "map snd checks"] by (fastforce simp: aggregate_state_def)

lemma worst_ready_iff:
  assumes "b \<in> S" "\<forall>c\<in>S. severity c \<le> severity b"
  shows "check_is_ready b \<longleftrightarrow> (\<forall>c\<in>S. \<forall>r. c \<noteq> Failed r) \<and> ((\<forall>c\<in>S. c \<noteq> Pending) \<or> (\<exists>r. Degraded r \<in> S))"
proof (cases b)
  case Pending
  then have "Degraded r \<notin> S" for r using bspec[OF assms(2), of "Degraded r"] by (auto simp: sev_defs word_le_nat_alt)
  then show ?thesis using assms(1) Pending by auto
next
  case Ready
  then have "Failed r \<notin> S" "Pending \<notin> S" for r
    using bspec[OF assms(2), of "Failed r"] bspec[OF assms(2), of Pending] by (auto simp: sev_defs)
  then show ?thesis using Ready by auto
next
  case (Degraded r)
  then have "Failed r \<notin> S" for r using bspec[OF assms(2), of "Failed r"] by (auto simp: sev_defs)
  then show ?thesis using assms(1) Degraded by auto
next
  case (Failed r)
  then show ?thesis using assms(1) by auto
qed

lemma aggregate_ready_iff:
  "check_is_ready (aggregate_state checks) \<longleftrightarrow>
     (\<forall>c\<in>set (map snd checks). \<forall>r. c \<noteq> Failed r) \<and>
     ((\<forall>c\<in>set (map snd checks). c \<noteq> Pending) \<or> (\<exists>r. Degraded r \<in> set (map snd checks)))"
proof (cases "checks = []")
  case True
  then show ?thesis by (simp add: aggregate_state_def max_by_severity_def)
next
  case False
  show ?thesis
    by (rule worst_ready_iff[OF aggregate_state_mem[OF False]]) (unfold aggregate_is_worst, rule max_severity_bound)
qed

section \<open>Reachable registries\<close>

inductive health_reachable :: "health_registry \<Rightarrow> bool" where
  health_new: "health_reachable health_registry_new"
| health_registered: "health_reachable reg \<Longrightarrow> health_register name checks reg = Inr reg' \<Longrightarrow> health_reachable reg'"
| health_posted: "health_reachable reg \<Longrightarrow> handle_set name check state reg = Inr reg' \<Longrightarrow> health_reachable reg'"

definition health_inv :: "health_registry \<Rightarrow> bool" where
  "health_inv reg \<longleftrightarrow> btree_wf (hr_subsystems reg) \<and>
     (\<forall>(name, s)\<in>set (hr_subsystems reg). btree_wf (si_checks s) \<and> si_aggregate_severity s = max_severity (si_checks s))"

lemma set_btree_insert: "set (btree_insert k v m) \<subseteq> insert (k, v) (set m)"
proof (induction m)
  case (Cons e m)
  then show ?case by (cases e) auto
qed simp

lemma all_pending_severity: "\<forall>c\<in>set (map snd checks). c = Pending \<Longrightarrow> max_severity checks = (if checks = [] then SEV_READY else SEV_PENDING)"
  by (induction checks) (auto simp: max_severity_def sev_defs max_def)

lemma btree_from_values: "snd ` set (btree_from kvs) \<subseteq> snd ` set kvs"
proof -
  have "set (foldl (\<lambda>m (k, v). btree_insert k v m) m kvs) \<subseteq> set m \<union> set kvs" for m
  proof (induction kvs arbitrary: m)
    case (Cons e kvs)
    obtain k v where e: "e = (k, v)" by force
    show ?case using Cons[of "btree_insert k v m"] set_btree_insert[of k v m] by (auto simp: e)
  qed simp
  from this[of "[]"] show ?thesis by (auto simp: btree_from_def)
qed

lemma health_register_inv:
  assumes "health_inv reg" "health_register name checks reg = Inr reg'"
  shows "health_inv reg'"
proof -
  let ?m = "btree_from (map (\<lambda>c. (c, Pending)) checks)"
  have "max_severity ?m = (if ?m = [] then SEV_READY else SEV_PENDING)"
    using btree_from_values[of "map (\<lambda>c. (c, Pending)) checks"] by (intro all_pending_severity) auto
  then show ?thesis
    using assms set_btree_insert[of name "\<lparr>si_name = name, si_checks = ?m, si_aggregate_severity = if ?m = [] then SEV_READY else SEV_PENDING\<rparr>" "hr_subsystems reg"]
    by (auto simp: health_register_def health_inv_def Let_def split: if_splits)
qed

lemma handle_set_inv:
  assumes inv: "health_inv reg" and set: "handle_set name check state reg = Inr reg'"
  shows "health_inv reg'"
proof -
  obtain s old where s: "map_of (hr_subsystems reg) name = Some s" "map_of (si_checks s) check = Some old"
    using set by (auto simp: handle_set_def split: option.splits)
  then have "btree_wf (si_checks s)" using inv map_of_SomeD[OF s(1)] by (auto simp: health_inv_def)
  then show ?thesis
    using inv set s set_btree_insert[of name "s\<lparr>si_checks := btree_insert check state (si_checks s),
        si_aggregate_severity := max_severity (btree_insert check state (si_checks s))\<rparr>" "hr_subsystems reg"]
    by (auto simp: handle_set_def health_inv_def Let_def split: if_splits)
qed

lemma health_reachable_inv: "health_reachable reg \<Longrightarrow> health_inv reg"
  by (induction rule: health_reachable.induct)
     (auto simp: health_registry_new_def health_inv_def[of "\<lparr>hr_subsystems = [], hr_changed = 0\<rparr>"] dest: health_register_inv handle_set_inv)

section \<open>Properties\<close>

text \<open>
  C26: The readiness probes and the status page never disagree: on every registry that registrations and
  posted check states can produce, the cached severities the probes read give the verdict of the states
  the status snapshot computes from the checks themselves, for the registry as a whole (ready exactly when
  every registered subsystem is ready or degraded) and for one named subsystem, where an unregistered name
  is not ready.
\<close>

theorem probes_agree_with_status:
  assumes "health_reachable reg"
  shows "(registry_is_ready reg \<longleftrightarrow>
       (\<forall>(name, sub)\<in>set (health_snapshot_of reg). ss_state sub = Ready \<or> (\<exists>reason. ss_state sub = Degraded reason))) \<and>
     (is_subsystem_ready name reg \<longleftrightarrow>
       (\<exists>sub. map_of (health_snapshot_of reg) name = Some sub \<and> (ss_state sub = Ready \<or> (\<exists>reason. ss_state sub = Degraded reason))))"
proof -
  have ready: "check_is_ready c \<longleftrightarrow> c = Ready \<or> (\<exists>reason. c = Degraded reason)" for c by (cases c) simp_all
  have cached: "severity_is_ready (si_aggregate_severity s) \<longleftrightarrow> check_is_ready (aggregate_state (si_checks s))"
    if "(name, s) \<in> set (hr_subsystems reg)" for name s
    using health_reachable_inv[OF assms] that aggregate_is_worst[of "si_checks s"] severity_ready[of "aggregate_state (si_checks s)"]
    by (auto simp: health_inv_def)
  then have "registry_is_ready reg \<longleftrightarrow> (\<forall>(name, s)\<in>set (hr_subsystems reg). check_is_ready (aggregate_state (si_checks s)))"
    by (auto simp: registry_is_ready_def list_all_iff)
  moreover have "is_subsystem_ready name reg \<longleftrightarrow>
      (\<exists>s. map_of (hr_subsystems reg) name = Some s \<and> check_is_ready (aggregate_state (si_checks s)))"
    using cached[OF map_of_SomeD[of "hr_subsystems reg" name]] by (auto simp: is_subsystem_ready_def split: option.splits)
  moreover have "map_of (health_snapshot_of reg) name =
      map_option (\<lambda>s. \<lparr>ss_state = aggregate_state (si_checks s), ss_checks = si_checks s\<rparr>) (map_of (hr_subsystems reg) name)"
    by (simp add: health_snapshot_of_def map_of_map)
  ultimately show ?thesis by (auto simp: health_snapshot_of_def ready)
qed

theorem probes_agree_with_status_witness:
  "\<exists>reg. registry_is_ready reg \<and> \<not> is_subsystem_ready ''dns'' reg \<and> is_subsystem_ready ''proxy'' reg"
proof -
  let ?r1 = "projr (health_register ''proxy'' [''tls''] health_registry_new)"
  let ?r2 = "projr (handle_set ''proxy'' ''tls'' (Degraded ''expiring'') ?r1)"
  have r1: "health_register ''proxy'' [''tls''] health_registry_new = Inr ?r1" by code_simp
  have r2: "handle_set ''proxy'' ''tls'' (Degraded ''expiring'') ?r1 = Inr ?r2" by code_simp
  have reach: "health_reachable ?r2"
    by (rule health_posted[OF health_registered[OF health_new r1] r2])
  have snap: "health_snapshot_of ?r2 = [(''proxy'', \<lparr>ss_state = Degraded ''expiring'', ss_checks = [(''tls'', Degraded ''expiring'')]\<rparr>)]"
    by code_simp
  show ?thesis
    using probes_agree_with_status[OF reach, of "''dns''"] probes_agree_with_status[OF reach, of "''proxy''"]
    by (intro exI[of _ ?r2]) (simp add: snap)
qed

text \<open>
  A degraded check outranks a pending one, so a registry can be ready while a check has not been reported.
\<close>

lemma degraded_masks_pending:
  "registry_is_ready (projr (handle_set ''proxy'' ''tls'' (Degraded ''expiring'')
     (projr (health_register ''proxy'' [''tls'', ''routes''] health_registry_new))))"
  by code_simp

lemma btree_insert_same: "btree_wf m \<Longrightarrow> map_of m k = Some v \<Longrightarrow> btree_insert k v m = m"
  by (rule btree_ext) (auto simp: map_of_btree_insert)

text \<open>
  Posting a check state wakes the reporter exactly when the snapshot it would send changes, as long as
  the change counter is the only thing it watches.
\<close>

theorem post_wakes_iff_changed:
  assumes "health_reachable reg" "handle_set name check state reg = Inr reg'"
  shows "(hr_changed reg' \<noteq> hr_changed reg) = (health_snapshot_of reg' \<noteq> health_snapshot_of reg) \<and>
     (\<exists>sub. map_of (health_snapshot_of reg') name = Some sub \<and> map_of (ss_checks sub) check = Some state)"
proof -
  have inv: "health_inv reg" by (rule health_reachable_inv[OF assms(1)])
  obtain s old where s: "map_of (hr_subsystems reg) name = Some s" "map_of (si_checks s) check = Some old"
    using assms(2) by (auto simp: handle_set_def split: option.splits)
  have wf: "btree_wf (hr_subsystems reg)" "btree_wf (si_checks s)"
    using inv map_of_SomeD[OF s(1)] by (auto simp: health_inv_def)
  have snap: "map_of (health_snapshot_of r) = (\<lambda>n. map_option (\<lambda>s. \<lparr>ss_state = aggregate_state (si_checks s), ss_checks = si_checks s\<rparr>) (map_of (hr_subsystems r) n))" for r
    by (rule ext) (simp add: health_snapshot_of_def map_of_map)
  show ?thesis
  proof (cases "old = state")
    case True
    then have "reg' = reg" using assms(2) s by (simp add: handle_set_def)
    then show ?thesis using s True by (simp add: snap)
  next
    case False
    let ?s = "s\<lparr>si_checks := btree_insert check state (si_checks s), si_aggregate_severity := max_severity (btree_insert check state (si_checks s))\<rparr>"
    have r: "reg' = \<lparr>hr_subsystems = btree_insert name ?s (hr_subsystems reg), hr_changed = hr_changed reg + 1\<rparr>"
      using assms(2) s False by (simp add: handle_set_def Let_def)
    have r1: "map_of (hr_subsystems reg') name = Some ?s" using wf by (simp add: r map_of_btree_insert)
    moreover have upd: "map_of (si_checks ?s) check = Some state" using wf by (simp add: map_of_btree_insert)
    ultimately have "map_of (health_snapshot_of reg') name = Some \<lparr>ss_state = aggregate_state (si_checks ?s), ss_checks = si_checks ?s\<rparr>"
      and "map_of (health_snapshot_of reg') name \<noteq> map_of (health_snapshot_of reg) name"
      using s False by (auto simp: snap)
    then have "health_snapshot_of reg' \<noteq> health_snapshot_of reg" by auto
    moreover have "hr_changed reg' \<noteq> hr_changed reg" by (simp add: r)
    ultimately show ?thesis using upd by (simp add: snap r1)
  qed
qed

theorem post_wakes_iff_changed_witness:
  "hr_changed (projr (handle_ready ''proxy'' ''tls'' (projr (health_register ''proxy'' [''tls''] health_registry_new)))) \<noteq>
   hr_changed (projr (health_register ''proxy'' [''tls''] health_registry_new))"
proof -
  let ?r1 = "projr (health_register ''proxy'' [''tls''] health_registry_new)"
  let ?r2 = "projr (handle_ready ''proxy'' ''tls'' ?r1)"
  have r1: "health_register ''proxy'' [''tls''] health_registry_new = Inr ?r1" by code_simp
  have r2: "handle_set ''proxy'' ''tls'' Ready ?r1 = Inr ?r2" by code_simp
  have "health_snapshot_of ?r2 \<noteq> health_snapshot_of ?r1" by code_simp
  then have "hr_changed ?r2 \<noteq> hr_changed ?r1"
    using post_wakes_iff_changed[OF health_registered[OF health_new r1] r2] by simp
  then show ?thesis .
qed

lemma check_state_round_trip:
  "check_state_from_wire \<lparr>pch_name = n, pch_state = p_check_state_value (check_state_to_wire c),
     pch_reason = (case check_reason c of Some r \<Rightarrow> r | None \<Rightarrow> [])\<rparr> = c"
  by (cases c) (simp_all add: check_state_from_wire_def p_check_state_try_from_def)

lemma unix_time_round_trip:
  assumes "0 \<le> t" "t < 2 ^ 63 * 10 ^ 9"
  shows "unix_to_system_time (system_time_to_unix t) = t div 10 ^ 9 * 10 ^ 9"
proof -
  have "t div 10 ^ 9 < 2 ^ 63" "0 \<le> t div 10 ^ 9" using assms by (simp_all add: div_less_iff_less_mult pos_imp_zdiv_nonneg_iff)
  then have "sint (word_of_int (t div 10 ^ 9) :: i64) = t div 10 ^ 9"
    by transfer (simp add: signed_take_bit_int_eq_self)
  then show ?thesis using assms \<open>t div 10 ^ 9 < 2 ^ 63\<close> \<open>0 \<le> t div 10 ^ 9\<close>
    by (simp add: unix_to_system_time_def system_time_to_unix_def min_def)
qed

text \<open>
  C18: A node's report survives the wire: decoding what a registry encodes gives back its snapshot, the
  aggregate states included although they are not sent, and the sampling time rounded down to the second.
\<close>

theorem health_report_round_trip:
  assumes "health_reachable reg" "0 \<le> t" "t < 2 ^ 63 * 10 ^ 9"
  shows "health_from_wire (health_to_wire version (health_snapshot_of reg) t) =
     \<lparr>nh_version = version, nh_snapshot = health_snapshot_of reg, nh_reported_at = t div 10 ^ 9 * 10 ^ 9\<rparr>"
proof -
  have inv: "health_inv reg" by (rule health_reachable_inv[OF assms(1)])
  let ?mk = "\<lambda>(name, s). (name, \<lparr>ss_state = aggregate_state (si_checks s), ss_checks = si_checks s\<rparr>)"
  have "btree_from (map (\<lambda>(check, state). (check, state)) (si_checks s)) = si_checks s" if "(name, s) \<in> set (hr_subsystems reg)" for name s
    using inv that by (auto simp: health_inv_def btree_from_sorted)
  then have "map (\<lambda>sub. let checks = btree_from (map (\<lambda>c. (pch_name c, check_state_from_wire c)) (psh_checks sub))
        in (psh_name sub, \<lparr>ss_state = aggregate_state checks, ss_checks = checks\<rparr>))
      (phr_subsystems (health_to_wire version (health_snapshot_of reg) t)) = health_snapshot_of reg"
    by (auto simp: health_to_wire_def health_snapshot_of_def comp_def case_prod_unfold check_state_round_trip Let_def)
  moreover have "btree_wf (health_snapshot_of reg)"
    using inv by (simp add: health_inv_def btree_wf_def health_snapshot_of_def comp_def case_prod_unfold)
  ultimately show ?thesis
    by (simp add: health_from_wire_def btree_from_sorted unix_time_round_trip[OF assms(2,3)])
       (simp add: health_to_wire_def unix_time_round_trip[OF assms(2,3)])
qed

theorem health_report_round_trip_witness:
  "\<exists>reg. health_from_wire (health_to_wire ''v1'' (health_snapshot_of reg) 1500000000) =
     \<lparr>nh_version = ''v1'', nh_snapshot = [(''proxy'', \<lparr>ss_state = Pending, ss_checks = [(''tls'', Pending)]\<rparr>)], nh_reported_at = 1000000000\<rparr>"
proof -
  let ?r = "projr (health_register ''proxy'' [''tls''] health_registry_new)"
  have r: "health_register ''proxy'' [''tls''] health_registry_new = Inr ?r" by code_simp
  have "health_snapshot_of ?r = [(''proxy'', \<lparr>ss_state = Pending, ss_checks = [(''tls'', Pending)]\<rparr>)]" by code_simp
  then show ?thesis
    using health_report_round_trip[OF health_registered[OF health_new r], of 1500000000 "''v1''"] by (intro exI[of _ ?r]) simp
qed

end
