(* ===== verification/Node_Registry.thy ===== *)
theory Node_Registry
  imports Identity Health
begin

text \<open>
  The registry of connected nodes (\<open>coxswain-core/src/node_registry.rs\<close>), the roster a relay reports about
  its leaves (\<open>roster_report_message\<close> of the discovery client, \<open>record_roster_report\<close> of the server's
  stream) and the bound-port report of a node.  The map is an association list keyed by node id; the two
  change channels are their counters.  Times are nanoseconds since the epoch.
\<close>

section \<open>Entries\<close>

record node_entry =
  ne_node_id :: string
  ne_scope :: node_scope
  ne_last_acked_version :: "string option"
  ne_target_version :: "string option"
  ne_last_ack_at :: "int option"
  ne_connected_since :: int
  ne_bound_ports :: "u16 list option"
  ne_last_acked_seq :: "u64 option"
  ne_parent :: "string option"
  ne_is_relay :: bool
  ne_health :: "node_health option"

record roster_child =
  rc_node_id :: string
  rc_scope :: node_scope
  rc_last_acked_version :: "string option"
  rc_target_version :: "string option"
  rc_last_acked_seq :: "u64 option"
  rc_bound_ports :: "u16 list option"
  rc_connected_since :: int
  rc_last_ack_at :: "int option"
  rc_health :: "node_health option"

definition in_sync :: "node_entry \<Rightarrow> bool" where
  "in_sync e \<longleftrightarrow> ne_last_acked_version e \<noteq> None \<and> ne_last_acked_version e = ne_target_version e"

type_synonym node_map = "(string \<times> node_entry) list"

section \<open>Queries\<close>

definition node_min :: "node_entry list \<Rightarrow> node_entry option" where
  "node_min es =
     foldl (\<lambda>best e. case best of None \<Rightarrow> Some e | Some b \<Rightarrow> if ne_node_id e < ne_node_id b then Some e else Some b) None es"

definition controller_version :: "node_map \<Rightarrow> string option" where
  "controller_version nodes =
     (case node_min (filter (\<lambda>e. ne_scope e = NodeSharedPool \<and> \<not> ne_is_relay e) (map snd nodes)) of
        Some e \<Rightarrow> ne_target_version e | None \<Rightarrow> None)"

definition nodes_bound :: "(node_entry \<Rightarrow> bool) \<Rightarrow> u16 list \<Rightarrow> node_map \<Rightarrow> bool" where
  "nodes_bound scope_pred required nodes =
     (let es = filter scope_pred (map snd nodes) in
      list_all (\<lambda>e. case ne_bound_ports e of Some bound \<Rightarrow> set required \<subseteq> set bound | None \<Rightarrow> False) es \<and> es \<noteq> [])"

definition nodes_acked :: "(node_entry \<Rightarrow> bool) \<Rightarrow> u64 \<Rightarrow> node_map \<Rightarrow> bool" where
  "nodes_acked scope_pred min_seq nodes =
     (let es = filter scope_pred (map snd nodes) in
      list_all (\<lambda>e. case ne_last_acked_seq e of Some s \<Rightarrow> \<not> s < min_seq | None \<Rightarrow> False) es \<and> es \<noteq> [])"

definition shared_leaf :: "node_entry \<Rightarrow> bool" where
  "shared_leaf e \<longleftrightarrow> ne_scope e = NodeSharedPool \<and> \<not> ne_is_relay e"

definition gateway_leaf :: "string \<Rightarrow> string \<Rightarrow> node_entry \<Rightarrow> bool" where
  "gateway_leaf namespace name e \<longleftrightarrow> ne_scope e = NodeGateway namespace name"

definition all_shared_nodes_bound :: "u16 list \<Rightarrow> node_map \<Rightarrow> bool" where
  "all_shared_nodes_bound required nodes = nodes_bound shared_leaf required nodes"

definition gateway_node_bound :: "string \<Rightarrow> string \<Rightarrow> u16 list \<Rightarrow> node_map \<Rightarrow> bool" where
  "gateway_node_bound namespace name required nodes = nodes_bound (gateway_leaf namespace name) required nodes"

definition all_shared_nodes_acked :: "u64 \<Rightarrow> node_map \<Rightarrow> bool" where
  "all_shared_nodes_acked min_seq nodes = nodes_acked shared_leaf min_seq nodes"

definition gateway_node_acked :: "string \<Rightarrow> string \<Rightarrow> u64 \<Rightarrow> node_map \<Rightarrow> bool" where
  "gateway_node_acked namespace name min_seq nodes = nodes_acked (gateway_leaf namespace name) min_seq nodes"

definition gateway_node_count :: "string \<Rightarrow> string \<Rightarrow> node_map \<Rightarrow> nat" where
  "gateway_node_count namespace name nodes = length (filter (gateway_leaf namespace name) (map snd nodes))"

definition namespace_leaf_count :: "string \<Rightarrow> node_map \<Rightarrow> nat" where
  "namespace_leaf_count namespace nodes =
     length (filter (\<lambda>e. case ne_scope e of NodeGateway ns _ \<Rightarrow> ns = namespace | _ \<Rightarrow> False) (map snd nodes))"

definition relay_ready :: "string \<Rightarrow> node_map \<Rightarrow> bool" where
  "relay_ready namespace nodes = list_ex (\<lambda>e. ne_is_relay e \<and> ne_scope e = NodeNamespace namespace \<and> in_sync e) (map snd nodes)"

definition subscribers_of :: "(node_entry \<Rightarrow> bool) \<Rightarrow> node_map \<Rightarrow> nat" where
  "subscribers_of relay_pred nodes =
     (let relay_ids = map ne_node_id (filter relay_pred (map snd nodes)) in
      if relay_ids = [] then 0
      else length (filter (\<lambda>e. case ne_parent e of Some p \<Rightarrow> p \<in> set relay_ids | None \<Rightarrow> False) (map snd nodes)))"

definition relay_subscriber_count :: "string \<Rightarrow> node_map \<Rightarrow> nat" where
  "relay_subscriber_count namespace nodes = subscribers_of (\<lambda>e. ne_is_relay e \<and> ne_scope e = NodeNamespace namespace) nodes"

definition shared_pool_relay_ready :: "node_map \<Rightarrow> bool" where
  "shared_pool_relay_ready nodes = list_ex (\<lambda>e. ne_is_relay e \<and> ne_scope e = NodeSharedPool \<and> in_sync e) (map snd nodes)"

definition shared_pool_relay_subscriber_count :: "node_map \<Rightarrow> nat" where
  "shared_pool_relay_subscriber_count nodes = subscribers_of (\<lambda>e. ne_is_relay e \<and> ne_scope e = NodeSharedPool) nodes"

definition all_in_sync :: "node_map \<Rightarrow> bool" where
  "all_in_sync nodes = list_all in_sync (map snd nodes)"

section \<open>The handle\<close>

record node_registry =
  nr_nodes :: node_map
  nr_notify :: u64
  nr_roster :: u64

definition node_registry_new :: node_registry where
  "node_registry_new = \<lparr>nr_nodes = [], nr_notify = 0, nr_roster = 0\<rparr>"

definition bump :: "node_registry \<Rightarrow> node_registry" where
  "bump r = r\<lparr>nr_notify := nr_notify r + 1\<rparr>"

definition bump_roster :: "node_registry \<Rightarrow> node_registry" where
  "bump_roster r = r\<lparr>nr_roster := nr_roster r + 1\<rparr>"

definition update_node :: "string \<Rightarrow> (node_entry \<Rightarrow> node_entry) \<Rightarrow> node_map \<Rightarrow> node_map" where
  "update_node node_id f nodes = map (\<lambda>(k, e). (k, if k = node_id then f e else e)) nodes"

definition connect :: "string \<Rightarrow> node_scope \<Rightarrow> int \<Rightarrow> node_registry \<Rightarrow> node_registry" where
  "connect node_id scope now r =
     bump_roster (bump (r\<lparr>nr_nodes := alist_insert node_id
       \<lparr>ne_node_id = node_id, ne_scope = scope, ne_last_acked_version = None, ne_target_version = None, ne_last_ack_at = None,
        ne_connected_since = now, ne_bound_ports = None, ne_last_acked_seq = None, ne_parent = None, ne_is_relay = False,
        ne_health = None\<rparr> (nr_nodes r)\<rparr>))"

definition seq_max :: "u64 option \<Rightarrow> u64 \<Rightarrow> u64 option" where
  "seq_max old seq = Some (max (case old of Some s \<Rightarrow> s | None \<Rightarrow> 0) seq)"

definition record_ack :: "string \<Rightarrow> string \<Rightarrow> u64 \<Rightarrow> int \<Rightarrow> node_registry \<Rightarrow> node_registry" where
  "record_ack node_id version seq now r =
     (case map_of (nr_nodes r) node_id of
        None \<Rightarrow> r
      | Some _ \<Rightarrow> bump_roster (r\<lparr>nr_nodes := update_node node_id
          (\<lambda>e. e\<lparr>ne_last_acked_version := Some version, ne_last_ack_at := Some now,
                 ne_last_acked_seq := seq_max (ne_last_acked_seq e) seq\<rparr>) (nr_nodes r)\<rparr>))"

definition advance_acked_seq :: "string \<Rightarrow> u64 \<Rightarrow> node_registry \<Rightarrow> node_registry" where
  "advance_acked_seq node_id seq r =
     (case map_of (nr_nodes r) node_id of
        None \<Rightarrow> r
      | Some _ \<Rightarrow> bump_roster (r\<lparr>nr_nodes := update_node node_id
          (\<lambda>e. e\<lparr>ne_last_acked_seq := seq_max (ne_last_acked_seq e) seq\<rparr>) (nr_nodes r)\<rparr>))"

definition record_target :: "string \<Rightarrow> string \<Rightarrow> node_registry \<Rightarrow> node_registry" where
  "record_target node_id version r =
     (case map_of (nr_nodes r) node_id of
        None \<Rightarrow> r
      | Some _ \<Rightarrow> bump_roster (r\<lparr>nr_nodes := update_node node_id (\<lambda>e. e\<lparr>ne_target_version := Some version\<rparr>) (nr_nodes r)\<rparr>))"

definition record_bound_ports :: "string \<Rightarrow> u16 list \<Rightarrow> node_registry \<Rightarrow> node_registry" where
  "record_bound_ports node_id ports r =
     (case map_of (nr_nodes r) node_id of
        None \<Rightarrow> r
      | Some e \<Rightarrow>
          if ne_bound_ports e = Some ports then r
          else bump_roster (bump (r\<lparr>nr_nodes := update_node node_id (\<lambda>e. e\<lparr>ne_bound_ports := Some ports\<rparr>) (nr_nodes r)\<rparr>)))"

definition record_health :: "string \<Rightarrow> node_health \<Rightarrow> node_registry \<Rightarrow> node_registry" where
  "record_health node_id health r =
     (case map_of (nr_nodes r) node_id of
        None \<Rightarrow> r
      | Some e \<Rightarrow>
          if ne_health e = Some health then r
          else bump_roster (r\<lparr>nr_nodes := update_node node_id (\<lambda>e. e\<lparr>ne_health := Some health\<rparr>) (nr_nodes r)\<rparr>))"

record gate_row =
  gr_node_id :: string
  gr_scope :: node_scope
  gr_last_acked_version :: "string option"
  gr_target_version :: "string option"
  gr_last_acked_seq :: "u64 option"
  gr_bound_ports :: "u16 list option"

definition gate_row_of :: "node_entry \<Rightarrow> gate_row" where
  "gate_row_of e = \<lparr>gr_node_id = ne_node_id e, gr_scope = ne_scope e, gr_last_acked_version = ne_last_acked_version e,
     gr_target_version = ne_target_version e, gr_last_acked_seq = ne_last_acked_seq e, gr_bound_ports = ne_bound_ports e\<rparr>"

definition gate_projection :: "string \<Rightarrow> node_map \<Rightarrow> gate_row list" where
  "gate_projection parent nodes =
     sort_key gr_node_id (map gate_row_of (filter (\<lambda>e. ne_parent e = Some parent) (map snd nodes)))"

definition child_entry :: "string \<Rightarrow> roster_child \<Rightarrow> node_entry" where
  "child_entry parent c =
     \<lparr>ne_node_id = rc_node_id c, ne_scope = rc_scope c, ne_last_acked_version = rc_last_acked_version c,
      ne_target_version = rc_target_version c, ne_last_ack_at = rc_last_ack_at c, ne_connected_since = rc_connected_since c,
      ne_bound_ports = rc_bound_ports c, ne_last_acked_seq = rc_last_acked_seq c, ne_parent = Some parent, ne_is_relay = False,
      ne_health = rc_health c\<rparr>"

definition fold_child :: "string \<Rightarrow> roster_child \<Rightarrow> node_map \<Rightarrow> node_map" where
  "fold_child parent c nodes =
     (case map_of nodes (rc_node_id c) of
        Some e \<Rightarrow> if ne_parent e = None then nodes else alist_insert (rc_node_id c) (child_entry parent c) nodes
      | None \<Rightarrow> alist_insert (rc_node_id c) (child_entry parent c) nodes)"

definition drop_children :: "string \<Rightarrow> node_map \<Rightarrow> node_map" where
  "drop_children parent nodes = filter (\<lambda>(_, e). ne_parent e \<noteq> Some parent) nodes"

definition apply_roster :: "string \<Rightarrow> roster_child list \<Rightarrow> node_registry \<Rightarrow> node_registry" where
  "apply_roster parent children r =
     (let relay_newly_marked = (case map_of (nr_nodes r) parent of Some p \<Rightarrow> \<not> ne_is_relay p | None \<Rightarrow> False);
          marked = update_node parent (\<lambda>e. e\<lparr>ne_is_relay := True\<rparr>) (nr_nodes r);
          before = gate_projection parent marked;
          nodes = fold (fold_child parent) children (drop_children parent marked);
          gate_changed = (relay_newly_marked \<or> gate_projection parent nodes \<noteq> before);
          r = r\<lparr>nr_nodes := nodes\<rparr>
      in bump_roster (if gate_changed then bump r else r))"

definition evict_children :: "string \<Rightarrow> node_registry \<Rightarrow> node_registry" where
  "evict_children parent r =
     (let nodes = drop_children parent (nr_nodes r);
          removed = (length nodes \<noteq> length (nr_nodes r));
          r = r\<lparr>nr_nodes := nodes\<rparr>
      in if removed then bump_roster (bump r) else r)"

definition disconnect :: "string \<Rightarrow> node_registry \<Rightarrow> node_registry" where
  "disconnect node_id r =
     (case map_of (nr_nodes r) node_id of
        None \<Rightarrow> r
      | Some _ \<Rightarrow> bump_roster (bump (r\<lparr>nr_nodes := filter (\<lambda>(k, _). k \<noteq> node_id) (nr_nodes r)\<rparr>)))"

section \<open>Reports on the wire\<close>

record p_node_status =
  pns_bound_ports :: "u32 list"

record p_roster_entry =
  pre_node_id :: string
  pre_scope :: "p_scope option"
  pre_acked_version :: "string option"
  pre_target_version :: "string option"
  pre_acked_seq :: "u64 option"
  pre_bound_reported :: bool
  pre_bound_ports :: "u32 list"
  pre_connected_since_unix :: i64
  pre_last_ack_at_unix :: "i64 option"
  pre_health :: "p_health_report option"

definition narrow_port :: "u32 \<Rightarrow> u16 option" where
  "narrow_port w = (if uint w < 2 ^ 16 then Some (ucast w) else None)"

definition node_status_message :: "u16 list \<Rightarrow> p_node_status" where
  "node_status_message ports = \<lparr>pns_bound_ports = map ucast ports\<rparr>"

definition record_node_status :: "string \<Rightarrow> p_node_status \<Rightarrow> node_registry \<Rightarrow> node_registry" where
  "record_node_status node_id status r =
     record_bound_ports node_id (set_from (List.map_filter narrow_port (pns_bound_ports status))) r"

definition roster_entry_to_wire :: "node_entry \<Rightarrow> p_roster_entry" where
  "roster_entry_to_wire e =
     \<lparr>pre_node_id = ne_node_id e, pre_scope = Some (node_scope_to_wire (ne_scope e)),
      pre_acked_version = ne_last_acked_version e, pre_target_version = ne_target_version e, pre_acked_seq = ne_last_acked_seq e,
      pre_bound_reported = (ne_bound_ports e \<noteq> None),
      pre_bound_ports = (case ne_bound_ports e of Some ports \<Rightarrow> map ucast ports | None \<Rightarrow> []),
      pre_connected_since_unix = system_time_to_unix (ne_connected_since e),
      pre_last_ack_at_unix = map_option system_time_to_unix (ne_last_ack_at e),
      pre_health = map_option (\<lambda>h. health_to_wire (nh_version h) (nh_snapshot h) (nh_reported_at h)) (ne_health e)\<rparr>"

definition roster_report_message :: "node_map \<Rightarrow> p_roster_entry list" where
  "roster_report_message nodes = map (\<lambda>(_, e). roster_entry_to_wire e) nodes"

definition roster_child_in_scope :: "scope \<Rightarrow> node_scope \<Rightarrow> bool" where
  "roster_child_in_scope parent_scope child =
     (case parent_scope of
        NamespaceScope namespace \<Rightarrow> (case child of NodeGateway ns _ \<Rightarrow> ns = namespace | _ \<Rightarrow> False)
      | SharedPool \<Rightarrow> child = NodeSharedPool
      | GatewayScope _ _ \<Rightarrow> False)"

definition unix_secs_to_system_time :: "i64 \<Rightarrow> int" where
  "unix_secs_to_system_time secs = (if sint secs < 0 then 0 else sint secs * 10 ^ 9)"

datatype roster_verdict = EntryDropped | EntryOutOfScope | EntryChild roster_child

definition roster_entry_from_wire :: "scope \<Rightarrow> p_roster_entry \<Rightarrow> roster_verdict" where
  "roster_entry_from_wire s e =
     (case pre_scope e of
        None \<Rightarrow> EntryDropped
      | Some wire_scope \<Rightarrow>
          (case scope_from_wire wire_scope of
             Inl _ \<Rightarrow> EntryDropped
           | Inr child_scope \<Rightarrow>
               if \<not> roster_child_in_scope s (node_scope_from child_scope) then EntryOutOfScope
               else EntryChild \<lparr>rc_node_id = pre_node_id e, rc_scope = node_scope_from child_scope,
                      rc_last_acked_version = pre_acked_version e, rc_target_version = pre_target_version e,
                      rc_last_acked_seq = pre_acked_seq e,
                      rc_bound_ports = (if pre_bound_reported e then Some (set_from (List.map_filter narrow_port (pre_bound_ports e))) else None),
                      rc_connected_since = unix_secs_to_system_time (pre_connected_since_unix e),
                      rc_last_ack_at = map_option unix_secs_to_system_time (pre_last_ack_at_unix e),
                      rc_health = map_option health_from_wire (pre_health e)\<rparr>))"

definition record_roster_report ::
  "string \<Rightarrow> scope \<Rightarrow> p_roster_entry list \<Rightarrow> node_registry \<Rightarrow> node_registry \<times> bool" where
  "record_roster_report parent s report r =
     (let verdicts = map (roster_entry_from_wire s) report in
      (apply_roster parent (List.map_filter (\<lambda>v. case v of EntryChild c \<Rightarrow> Some c | _ \<Rightarrow> None) verdicts) r,
       EntryOutOfScope \<notin> set verdicts))"

end
