(* ===== verification/Registry_Gate.thy ===== *)
theory Registry_Gate
  imports Node_Registry "HOL-Library.Multiset"
begin

text \<open>
  What the readiness gate sees of the node registry: the queries depend on a row only through its gate
  fields, its parent and its relay mark, so a roster report that does not wake the gate leaves every
  query as it was, and a gate evaluated through a relay's report agrees with the gate evaluated on the
  relay's own registry.
\<close>

section \<open>Well-formed maps\<close>

definition nodes_wf :: "node_map \<Rightarrow> bool" where
  "nodes_wf nodes \<longleftrightarrow> alist_wf nodes \<and> (\<forall>(k, e)\<in>set nodes. ne_node_id e = k)"

lemma nodes_wf_lookup: "nodes_wf nodes \<Longrightarrow> (k, e) \<in> set nodes \<longleftrightarrow> map_of nodes k = Some e"
  by (auto simp: nodes_wf_def alist_wf_def dest: map_of_SomeD)

lemma nodes_wf_id: "nodes_wf nodes \<Longrightarrow> map_of nodes k = Some e \<Longrightarrow> ne_node_id e = k"
  using nodes_wf_lookup by (fastforce simp: nodes_wf_def)

lemma alist_wf_filter: "alist_wf m \<Longrightarrow> alist_wf (filter P m)"
  by (auto simp: alist_wf_def distinct_map intro: inj_on_subset)

lemma map_of_filter_wf:
  "alist_wf m \<Longrightarrow> map_of (filter (\<lambda>(k, v). P k v) m) k =
     (case map_of m k of Some v \<Rightarrow> if P k v then Some v else None | None \<Rightarrow> None)"
proof (induction m)
  case (Cons e m)
  obtain k' v where e: "e = (k', v)" by force
  have "map_of m k' = None" using Cons.prems by (simp add: e alist_wf_def map_of_eq_None_iff)
  moreover have "map_of (filter (\<lambda>(k, v). P k v) m) k' = None"
    using Cons.prems by (auto simp: e alist_wf_def map_of_eq_None_iff)
  ultimately show ?case using Cons by (auto simp: e alist_wf_def)
qed simp

lemma map_of_update_node: "map_of (update_node n f nodes) k = (if k = n then map_option f (map_of nodes k) else map_of nodes k)"
  by (induction nodes) (auto simp: update_node_def)

lemma nodes_wf_update: "nodes_wf nodes \<Longrightarrow> (\<And>e. ne_node_id (f e) = ne_node_id e) \<Longrightarrow> nodes_wf (update_node n f nodes)"
  by (auto simp: nodes_wf_def update_node_def alist_wf_def comp_def case_prod_unfold)

lemma map_of_drop_children:
  "nodes_wf nodes \<Longrightarrow> map_of (drop_children parent nodes) k =
     (case map_of nodes k of Some e \<Rightarrow> if ne_parent e \<noteq> Some parent then Some e else None | None \<Rightarrow> None)"
  unfolding drop_children_def by (rule map_of_filter_wf) (simp add: nodes_wf_def)

lemma nodes_wf_drop_children: "nodes_wf nodes \<Longrightarrow> nodes_wf (drop_children parent nodes)"
  by (auto simp: nodes_wf_def drop_children_def intro: alist_wf_filter)

lemma nodes_wf_insert: "nodes_wf nodes \<Longrightarrow> ne_node_id e = k \<Longrightarrow> nodes_wf (alist_insert k e nodes)"
proof -
  assume wf: "nodes_wf nodes" and e: "ne_node_id e = k"
  have "alist_wf (alist_insert k e nodes)" using wf by (simp add: nodes_wf_def)
  moreover have "ne_node_id e' = k'" if "(k', e') \<in> set (alist_insert k e nodes)" for k' e'
    using that calculation wf e nodes_wf_id[OF wf] map_of_alist_insert[of k e nodes]
    by (metis alist_wf_def fun_upd_apply map_of_eq_Some_iff option.inject)
  ultimately show ?thesis by (auto simp: nodes_wf_def)
qed

lemma nodes_wf_fold_child: "nodes_wf nodes \<Longrightarrow> nodes_wf (fold_child parent c nodes)"
  by (auto simp: fold_child_def child_entry_def intro!: nodes_wf_insert split: option.split)

lemma nodes_wf_fold_children: "nodes_wf nodes \<Longrightarrow> nodes_wf (fold (fold_child parent) cs nodes)"
  by (induction cs arbitrary: nodes) (auto intro: nodes_wf_fold_child)

text \<open>What a fold of a roster does to one row.\<close>

lemma fold_children_row:
  "map_of (fold (fold_child parent) cs nodes) k = map_of nodes k \<or>
   (\<exists>e. map_of (fold (fold_child parent) cs nodes) k = Some e \<and> ne_parent e = Some parent \<and> \<not> ne_is_relay e \<and>
        (\<forall>d. map_of nodes k = Some d \<longrightarrow> ne_parent d \<noteq> None))"
proof (induction cs arbitrary: nodes)
  case (Cons c cs)
  have step: "map_of (fold_child parent c nodes) k = map_of nodes k \<or>
     (\<exists>e. map_of (fold_child parent c nodes) k = Some e \<and> ne_parent e = Some parent \<and> \<not> ne_is_relay e \<and>
        (\<forall>d. map_of nodes k = Some d \<longrightarrow> ne_parent d \<noteq> None))"
    by (auto simp: fold_child_def alist_simps child_entry_def split: option.split)
  show ?case using Cons.IH[of "fold_child parent c nodes"] step by auto
qed simp

section \<open>What the queries read\<close>

type_synonym gate_core = "gate_row \<times> string option \<times> bool"

definition core_of :: "node_entry \<Rightarrow> gate_core" where
  "core_of e = (gate_row_of e, ne_parent e, ne_is_relay e)"

lemma core_of_eqD:
  assumes "core_of e = core_of e'"
  shows "ne_node_id e = ne_node_id e'" "ne_scope e = ne_scope e'" "ne_last_acked_version e = ne_last_acked_version e'"
    "ne_target_version e = ne_target_version e'" "ne_last_acked_seq e = ne_last_acked_seq e'" "ne_bound_ports e = ne_bound_ports e'"
    "ne_parent e = ne_parent e'" "ne_is_relay e = ne_is_relay e'"
  using assms by (simp_all add: core_of_def gate_row_of_def)

definition same_cores :: "node_map \<Rightarrow> node_map \<Rightarrow> bool" where
  "same_cores m m' \<longleftrightarrow> (\<forall>k. map_option core_of (map_of m k) = map_option core_of (map_of m' k))"

lemma mset_of_same_lookup:
  assumes "alist_wf m" "alist_wf m'" "\<And>k. map_option f (map_of m k) = map_option f (map_of m' k)"
  shows "mset (map (f \<circ> snd) m) = mset (map (f \<circ> snd) m')"
proof -
  let ?g = "map (\<lambda>(k, v). (k, f v))"
  have d: "distinct (map fst (?g m))" "distinct (map fst (?g m'))" using assms(1,2) by (simp_all add: alist_wf_def comp_def case_prod_unfold)
  have "map_of (?g m) = map_of (?g m')" using assms(3) by (simp add: fun_eq_iff map_of_map)
  then have "set (?g m) = set (?g m')" using d by (simp add: map_of_inject_set)
  then have "mset (?g m) = mset (?g m')" using d[THEN distinct_map[THEN iffD1], THEN conjunct1] by (rule set_eq_iff_mset_eq_distinct[THEN iffD1, rotated 2])
  then have "image_mset snd (mset (?g m)) = image_mset snd (mset (?g m'))" by simp
  then show ?thesis by (simp add: image_mset.compositionality comp_def case_prod_unfold)
qed

lemma same_cores_mset:
  "nodes_wf m \<Longrightarrow> nodes_wf m' \<Longrightarrow> same_cores m m' \<Longrightarrow> mset (map (core_of \<circ> snd) m) = mset (map (core_of \<circ> snd) m')"
  by (rule mset_of_same_lookup) (auto simp: nodes_wf_def same_cores_def)

text \<open>A predicate on rows that only looks at the core.\<close>

definition core_pred :: "(node_entry \<Rightarrow> bool) \<Rightarrow> bool" where
  "core_pred P \<longleftrightarrow> (\<forall>e e'. core_of e = core_of e' \<longrightarrow> P e = P e')"

lemma core_pred_lift: "core_pred P \<Longrightarrow> \<exists>Q. \<forall>e. P e = Q (core_of e)"
  unfolding core_pred_def by (rule exI[of _ "\<lambda>c. \<exists>e. core_of e = c \<and> P e"]) blast

lemma count_core_pred:
  assumes "core_pred P" "nodes_wf m" "nodes_wf m'" "same_cores m m'"
  shows "length (filter P (map snd m)) = length (filter P (map snd m'))"
proof -
  obtain Q where Q: "\<And>e. P e = Q (core_of e)" using core_pred_lift[OF assms(1)] by blast
  have "size (filter_mset Q (mset (map (core_of \<circ> snd) m))) = size (filter_mset Q (mset (map (core_of \<circ> snd) m')))"
    by (simp only: same_cores_mset[OF assms(2-4)])
  moreover have "length (filter P (map snd l)) = size (filter_mset Q (mset (map (core_of \<circ> snd) l)))" for l :: node_map
    by (induction l) (auto simp: Q)
  ultimately show ?thesis by simp
qed

lemma all_core_pred:
  assumes "core_pred P" "nodes_wf m" "nodes_wf m'" "same_cores m m'"
  shows "list_all P (map snd m) = list_all P (map snd m')"
proof -
  have "core_pred (\<lambda>e. \<not> P e)" using assms(1) unfolding core_pred_def by blast
  moreover have "list_all P xs \<longleftrightarrow> length (filter (\<lambda>e. \<not> P e) xs) = 0" for xs :: "node_entry list"
    by (simp add: list_all_iff filter_empty_conv)
  ultimately show ?thesis using count_core_pred[of "\<lambda>e. \<not> P e", OF _ assms(2-4)] by presburger
qed

lemma core_pred_simps [simp]:
  "core_pred shared_leaf" "core_pred (gateway_leaf ns name)" "core_pred in_sync"
  "core_pred (\<lambda>e. case ne_bound_ports e of Some bound \<Rightarrow> set required \<subseteq> set bound | None \<Rightarrow> False)"
  "core_pred (\<lambda>e. case ne_last_acked_seq e of Some s \<Rightarrow> \<not> s < min_seq | None \<Rightarrow> False)"
  by (simp_all add: core_pred_def core_of_def gate_row_of_def shared_leaf_def gateway_leaf_def in_sync_def)

lemma core_pred_imp: "core_pred P \<Longrightarrow> core_pred Q \<Longrightarrow> core_pred (\<lambda>e. P e \<longrightarrow> Q e)"
  unfolding core_pred_def by blast

lemma nodes_bound_cong:
  assumes "core_pred P" "nodes_wf m" "nodes_wf m'" "same_cores m m'"
  shows "nodes_bound P required m = nodes_bound P required m'"
proof -
  let ?b = "\<lambda>e. case ne_bound_ports e of Some bound \<Rightarrow> set required \<subseteq> set bound | None \<Rightarrow> False"
  have "list_all (\<lambda>e. P e \<longrightarrow> ?b e) (map snd m) = list_all (\<lambda>e. P e \<longrightarrow> ?b e) (map snd m')"
    by (rule all_core_pred[OF core_pred_imp[OF assms(1)] assms(2-4)]) simp
  moreover have "filter P (map snd m) = [] \<longleftrightarrow> filter P (map snd m') = []"
    using arg_cong[OF count_core_pred[OF assms], of "\<lambda>n. n = 0"] by (simp only: length_0_conv)
  ultimately show ?thesis by (auto simp: nodes_bound_def Let_def list_all_iff)
qed

lemma nodes_acked_cong:
  assumes "core_pred P" "nodes_wf m" "nodes_wf m'" "same_cores m m'"
  shows "nodes_acked P min_seq m = nodes_acked P min_seq m'"
proof -
  let ?b = "\<lambda>e. case ne_last_acked_seq e of Some s \<Rightarrow> \<not> s < min_seq | None \<Rightarrow> False"
  have "list_all (\<lambda>e. P e \<longrightarrow> ?b e) (map snd m) = list_all (\<lambda>e. P e \<longrightarrow> ?b e) (map snd m')"
    by (rule all_core_pred[OF core_pred_imp[OF assms(1)] assms(2-4)]) simp
  moreover have "filter P (map snd m) = [] \<longleftrightarrow> filter P (map snd m') = []"
    using arg_cong[OF count_core_pred[OF assms], of "\<lambda>n. n = 0"] by (simp only: length_0_conv)
  ultimately show ?thesis by (auto simp: nodes_acked_def Let_def list_all_iff)
qed

section \<open>A quiet roster report\<close>

lemma gate_projection_rows:
  "set (gate_projection parent nodes) = gate_row_of ` {e. e \<in> snd ` set nodes \<and> ne_parent e = Some parent}"
  by (auto simp: gate_projection_def)

definition leaves_only :: "string \<Rightarrow> node_map \<Rightarrow> bool" where
  "leaves_only parent nodes = list_all (\<lambda>(_, e). ne_parent e = Some parent \<longrightarrow> \<not> ne_is_relay e) nodes"

lemma leaves_onlyD: "leaves_only parent nodes \<Longrightarrow> map_of nodes k = Some e \<Longrightarrow> ne_parent e = Some parent \<Longrightarrow> \<not> ne_is_relay e"
  by (auto simp: leaves_only_def list_all_iff dest!: map_of_SomeD)

lemma quiet_fold_same_cores:
  assumes wf: "nodes_wf nodes" and norelay: "leaves_only parent nodes"
    and same: "gate_projection parent (fold (fold_child parent) cs (drop_children parent nodes)) = gate_projection parent nodes"
  shows "same_cores (fold (fold_child parent) cs (drop_children parent nodes)) nodes"
  unfolding same_cores_def
proof
  fix k
  let ?n = "fold (fold_child parent) cs (drop_children parent nodes)"
  have wfn: "nodes_wf ?n" by (intro nodes_wf_fold_children nodes_wf_drop_children wf)
  have rows: "gate_row_of ` {e. e \<in> snd ` set ?n \<and> ne_parent e = Some parent} = gate_row_of ` {e. e \<in> snd ` set nodes \<and> ne_parent e = Some parent}"
    using same by (simp flip: gate_projection_rows)
  have find: "\<exists>e'. map_of m' k = Some e' \<and> gate_row_of e' = gate_row_of e \<and> ne_parent e' = Some parent"
    if "map_of m k = Some e" "ne_parent e = Some parent" "nodes_wf m" "nodes_wf m'"
      "gate_row_of ` {e. e \<in> snd ` set m \<and> ne_parent e = Some parent} = gate_row_of ` {e. e \<in> snd ` set m' \<and> ne_parent e = Some parent}"
    for m m' e
  proof -
    have "gate_row_of e \<in> gate_row_of ` {e. e \<in> snd ` set m' \<and> ne_parent e = Some parent}"
      using that(1,2) map_of_SomeD[OF that(1)] unfolding that(5)[symmetric] by force
    then obtain k' e' where e': "(k', e') \<in> set m'" "ne_parent e' = Some parent" "gate_row_of e' = gate_row_of e" by auto
    have "ne_node_id e' = ne_node_id e" using e'(3) by (simp add: gate_row_of_def)
    then have "k' = k" using e'(1) that(1,3,4) nodes_wf_id by (metis nodes_wf_lookup)
    then show ?thesis using e' that(4) by (auto simp: nodes_wf_lookup)
  qed
  show "map_option core_of (map_of ?n k) = map_option core_of (map_of nodes k)"
  proof (cases "map_of nodes k")
    case None
    have "map_of ?n k = None"
    proof (rule ccontr)
      assume "map_of ?n k \<noteq> None"
      then obtain e where e: "map_of ?n k = Some e" by blast
      then have "ne_parent e = Some parent"
        using fold_children_row[of parent cs "drop_children parent nodes" k] None by (auto simp: map_of_drop_children[OF wf])
      then show False using find[OF e _ wfn wf rows] None by simp
    qed
    then show ?thesis using None by simp
  next
    case (Some e0)
    show ?thesis
    proof (cases "ne_parent e0 = Some parent")
      case True
      obtain e where e: "map_of ?n k = Some e" "gate_row_of e = gate_row_of e0" "ne_parent e = Some parent"
        using find[OF Some True wf wfn rows[symmetric]] by blast
      have "\<not> ne_is_relay e"
        using fold_children_row[of parent cs "drop_children parent nodes" k] e Some True by (auto simp: map_of_drop_children[OF wf])
      then show ?thesis using e Some True leaves_onlyD[OF norelay Some True] by (simp add: core_of_def)
    next
      case False
      then have d: "map_of (drop_children parent nodes) k = Some e0" using Some by (simp add: map_of_drop_children[OF wf])
      show ?thesis
      proof (rule ccontr)
        assume ne: "map_option core_of (map_of ?n k) \<noteq> map_option core_of (map_of nodes k)"
        then obtain e where e: "map_of ?n k = Some e" "ne_parent e = Some parent"
          using fold_children_row[of parent cs "drop_children parent nodes" k] d Some by auto
        then show False using find[OF e wfn wf rows] Some False by auto
      qed
    qed
  qed
qed

lemma update_node_same: "(\<And>e. map_of nodes n = Some e \<Longrightarrow> f e = e) \<Longrightarrow> alist_wf nodes \<Longrightarrow> update_node n f nodes = nodes"
  unfolding update_node_def by (rule map_idI) (auto simp: alist_wf_def)

lemma quiet_roster_same_cores:
  assumes wf: "nodes_wf (nr_nodes r)"
    and norelay: "leaves_only parent (nr_nodes r)"
    and quiet: "nr_notify (apply_roster parent children r) = nr_notify r"
  shows "nodes_wf (nr_nodes (apply_roster parent children r)) \<and> same_cores (nr_nodes (apply_roster parent children r)) (nr_nodes r)"
proof -
  let ?marked = "update_node parent (\<lambda>e. e\<lparr>ne_is_relay := True\<rparr>) (nr_nodes r)"
  let ?n = "fold (fold_child parent) children (drop_children parent ?marked)"
  have notify: "nr_notify (apply_roster parent children r) =
      (if (case map_of (nr_nodes r) parent of Some p \<Rightarrow> \<not> ne_is_relay p | None \<Rightarrow> False) \<or> gate_projection parent ?n \<noteq> gate_projection parent ?marked
       then nr_notify r + 1 else nr_notify r)"
    by (simp add: apply_roster_def Let_def bump_roster_def bump_def)
  then have old: "\<not> (case map_of (nr_nodes r) parent of Some p \<Rightarrow> \<not> ne_is_relay p | None \<Rightarrow> False)"
    and proj: "gate_projection parent ?n = gate_projection parent ?marked"
    using quiet by (auto split: if_splits)
  have m: "?marked = nr_nodes r"
    using old wf by (intro update_node_same) (auto simp: nodes_wf_def)
  have "nr_nodes (apply_roster parent children r) = ?n"
    by (simp add: apply_roster_def Let_def bump_roster_def bump_def)
  moreover have "nodes_wf ?n" unfolding m by (intro nodes_wf_fold_children nodes_wf_drop_children wf)
  moreover have "same_cores ?n (nr_nodes r)"
    using quiet_fold_same_cores[OF wf norelay, of children] proj unfolding m by simp
  ultimately show ?thesis by simp
qed

text \<open>
  C9: A roster report that does not bump the gate's change counter leaves every answer the gate can get
  unchanged, as long as no leaf behind the relay is itself marked as a relay: a gate that only re-reads
  the registry when it is woken never misses a change.
\<close>

theorem quiet_roster_keeps_gate:
  assumes "nodes_wf (nr_nodes r)" "leaves_only parent (nr_nodes r)"
    and "nr_notify (apply_roster parent children r) = nr_notify r"
  shows "all_shared_nodes_bound required (nr_nodes (apply_roster parent children r)) = all_shared_nodes_bound required (nr_nodes r) \<and>
     all_shared_nodes_acked min_seq (nr_nodes (apply_roster parent children r)) = all_shared_nodes_acked min_seq (nr_nodes r) \<and>
     gateway_node_bound ns name required (nr_nodes (apply_roster parent children r)) = gateway_node_bound ns name required (nr_nodes r) \<and>
     gateway_node_acked ns name min_seq (nr_nodes (apply_roster parent children r)) = gateway_node_acked ns name min_seq (nr_nodes r) \<and>
     gateway_node_count ns name (nr_nodes (apply_roster parent children r)) = gateway_node_count ns name (nr_nodes r) \<and>
     all_in_sync (nr_nodes (apply_roster parent children r)) = all_in_sync (nr_nodes r)"
proof -
  from quiet_roster_same_cores[OF assms]
  have c: "nodes_wf (nr_nodes (apply_roster parent children r))" "same_cores (nr_nodes (apply_roster parent children r)) (nr_nodes r)" by blast+
  show ?thesis
    unfolding all_shared_nodes_bound_def all_shared_nodes_acked_def gateway_node_bound_def gateway_node_acked_def
      gateway_node_count_def all_in_sync_def
    by (intro conjI nodes_bound_cong nodes_acked_cong count_core_pred all_core_pred c assms(1)) simp_all
qed

text \<open>An instance: a relay with one leaf that is bound to port 80 and has acknowledged sequence 3.\<close>

definition demo_child :: "int option \<Rightarrow> roster_child" where
  "demo_child acked_at = \<lparr>rc_node_id = ''leaf'', rc_scope = NodeGateway ''team-a'' ''gw'', rc_last_acked_version = Some ''v'',
     rc_target_version = Some ''v'', rc_last_acked_seq = Some 3, rc_bound_ports = Some [80], rc_connected_since = 0,
     rc_last_ack_at = acked_at, rc_health = None\<rparr>"

definition demo_registry :: node_registry where
  "demo_registry = apply_roster ''relay'' [demo_child None] (connect ''relay'' (NodeNamespace ''team-a'') 0 node_registry_new)"

theorem quiet_roster_keeps_gate_witness:
  "nr_roster (apply_roster ''relay'' [demo_child (Some 5)] demo_registry) \<noteq> nr_roster demo_registry \<and>
   gateway_node_bound ''team-a'' ''gw'' [80] (nr_nodes (apply_roster ''relay'' [demo_child (Some 5)] demo_registry))"
proof -
  have "nodes_wf (nr_nodes demo_registry)" "leaves_only ''relay'' (nr_nodes demo_registry)"
    "nr_notify (apply_roster ''relay'' [demo_child (Some 5)] demo_registry) = nr_notify demo_registry" by code_simp+
  note quiet_roster_keeps_gate[OF this]
  moreover have "gateway_node_bound ''team-a'' ''gw'' [80] (nr_nodes demo_registry)" by code_simp
  moreover have "nr_roster (apply_roster ''relay'' [demo_child (Some 5)] demo_registry) \<noteq> nr_roster demo_registry" by code_simp
  ultimately show ?thesis by blast
qed

section \<open>A gate behind a relay\<close>

lemma set_from_sorted: "sorted_wrt (<) xs \<Longrightarrow> set_from xs = xs"
proof (rule strict_sorted_equal)
  show "sorted_wrt (<) (set_from xs)" by simp
qed simp_all

lemma narrow_port_ucast: "narrow_port (ucast (p :: u16)) = Some p"
proof -
  have b: "uint p < 2 ^ 16" using uint_lt2p[of p] by simp
  moreover have "uint (ucast p :: u32) = uint p" using b by (simp add: unsigned_ucast_eq take_bit_int_eq_self)
  moreover have "ucast (ucast p :: u32) = p" by transfer (simp add: min_def)
  ultimately show ?thesis by (simp add: narrow_port_def)
qed

lemma narrow_ports_ucast: "List.map_filter narrow_port (map ucast (ports :: u16 list)) = ports"
  by (induction ports) (simp_all add: map_filter_simps narrow_port_ucast)

definition leaf_child :: "node_entry \<Rightarrow> roster_child" where
  "leaf_child e =
     \<lparr>rc_node_id = ne_node_id e, rc_scope = ne_scope e, rc_last_acked_version = ne_last_acked_version e,
      rc_target_version = ne_target_version e, rc_last_acked_seq = ne_last_acked_seq e, rc_bound_ports = ne_bound_ports e,
      rc_connected_since = unix_secs_to_system_time (system_time_to_unix (ne_connected_since e)),
      rc_last_ack_at = map_option unix_secs_to_system_time (map_option system_time_to_unix (ne_last_ack_at e)),
      rc_health = map_option health_from_wire (map_option (\<lambda>h. health_to_wire (nh_version h) (nh_snapshot h) (nh_reported_at h)) (ne_health e))\<rparr>"

lemma roster_entry_round_trip:
  assumes "roster_child_in_scope s (ne_scope e)" "\<And>ports. ne_bound_ports e = Some ports \<Longrightarrow> sorted_wrt (<) ports"
  shows "roster_entry_from_wire s (roster_entry_to_wire e) = EntryChild (leaf_child e)"
proof -
  obtain sc where sc: "scope_from_wire (node_scope_to_wire (ne_scope e)) = Inr sc" "node_scope_from sc = ne_scope e"
    using node_scope_round_trip[of "ne_scope e"] by blast
  then show ?thesis
    using assms by (cases "ne_bound_ports e")
      (simp_all add: roster_entry_from_wire_def roster_entry_to_wire_def leaf_child_def narrow_ports_ucast set_from_sorted)
qed

lemma fold_children_fresh:
  assumes "distinct (map rc_node_id cs)"
    and "\<And>c e. c \<in> set cs \<Longrightarrow> map_of nodes (rc_node_id c) = Some e \<Longrightarrow> ne_parent e \<noteq> None"
  shows "map_of (fold (fold_child parent) cs nodes) k =
     (case map_of (map (\<lambda>c. (rc_node_id c, c)) cs) k of Some c \<Rightarrow> Some (child_entry parent c) | None \<Rightarrow> map_of nodes k)"
  using assms
proof (induction cs arbitrary: nodes)
  case (Cons c cs)
  have f: "map_of (fold_child parent c nodes) = (map_of nodes)(rc_node_id c \<mapsto> child_entry parent c)"
    using Cons.prems(2)[of c] by (auto simp: fold_child_def alist_simps split: option.split)
  have "map_of (fold (fold_child parent) cs (fold_child parent c nodes)) k =
      (case map_of (map (\<lambda>c. (rc_node_id c, c)) cs) k of Some c \<Rightarrow> Some (child_entry parent c) | None \<Rightarrow> map_of (fold_child parent c nodes) k)"
    by (rule Cons.IH) (use Cons.prems f in \<open>auto simp: child_entry_def split: if_splits\<close>)
  moreover have "map_of (map (\<lambda>c. (rc_node_id c, c)) cs) (rc_node_id c) = None"
    using Cons.prems(1) by (auto simp: map_of_eq_None_iff)
  ultimately show ?case by (auto simp: f split: option.split)
qed simp

lemma map_of_leaf_children:
  "nodes_wf leaves \<Longrightarrow> map_of (map (\<lambda>c. (rc_node_id c, c)) (map (\<lambda>(_, e). leaf_child e) leaves)) k = map_option leaf_child (map_of leaves k)"
  by (induction leaves) (auto simp: nodes_wf_def leaf_child_def alist_wf_def)

definition gate_fields :: "node_entry \<Rightarrow> u64 option \<times> u16 list option" where
  "gate_fields e = (ne_last_acked_seq e, ne_bound_ports e)"

lemma gate_fields_child: "gate_fields (child_entry parent (leaf_child e)) = gate_fields e"
  by (simp add: gate_fields_def child_entry_def leaf_child_def)

lemma gates_from_fields:
  assumes "mset (map gate_fields (filter P (map snd m))) = mset (map gate_fields (filter P (map snd m')))"
  shows "nodes_bound P required m = nodes_bound P required m'" "nodes_acked P min_seq m = nodes_acked P min_seq m'"
    "length (filter P (map snd m)) = length (filter P (map snd m'))"
proof -
  let ?a = "filter P (map snd m)" and ?b = "filter P (map snd m')"
  have s: "gate_fields ` set ?a = gate_fields ` set ?b" using arg_cong[OF assms, of set_mset] by simp
  have l: "length ?a = length ?b" using mset_eq_length[OF assms] by (simp only: length_map)
  show "length ?a = length ?b" by (rule l)
  have n: "?a = [] \<longleftrightarrow> ?b = []" using l by (metis length_0_conv)
  have b: "nodes_bound P required x \<longleftrightarrow> (\<forall>(s, p)\<in>gate_fields ` set (filter P (map snd x)). case p of Some b \<Rightarrow> set required \<subseteq> set b | None \<Rightarrow> False) \<and>
      filter P (map snd x) \<noteq> []" for x
    by (auto simp: nodes_bound_def Let_def list_all_iff gate_fields_def)
  show "nodes_bound P required m = nodes_bound P required m'" unfolding b s n ..
  have k: "nodes_acked P min_seq x \<longleftrightarrow> (\<forall>(s, p)\<in>gate_fields ` set (filter P (map snd x)). case s of Some q \<Rightarrow> \<not> q < min_seq | None \<Rightarrow> False) \<and>
      filter P (map snd x) \<noteq> []" for x
    by (auto simp: nodes_acked_def Let_def list_all_iff gate_fields_def)
  show "nodes_acked P min_seq m = nodes_acked P min_seq m'" unfolding k s n ..
qed

lemma relay_subtree_rows:
  assumes leaves: "nodes_wf leaves" and wf: "nodes_wf nodes"
    and direct: "\<And>k e. map_of leaves k \<noteq> None \<Longrightarrow> map_of nodes k = Some e \<Longrightarrow> ne_parent e \<noteq> None"
    and own: "\<And>k e. map_of nodes k = Some e \<Longrightarrow> P e \<Longrightarrow> ne_parent e = Some parent"
    and P: "\<And>e. P (child_entry parent (leaf_child e)) = P e"
  shows "mset (map gate_fields (filter P (map snd (fold (fold_child parent) (map (\<lambda>(_, e). leaf_child e) leaves) (drop_children parent nodes))))) =
     mset (map gate_fields (filter P (map snd leaves)))"
proof -
  let ?cs = "map (\<lambda>(_, e). leaf_child e) leaves"
  let ?n = "fold (fold_child parent) ?cs (drop_children parent nodes)"
  have d: "distinct (map rc_node_id ?cs)"
    using leaves by (auto simp: nodes_wf_def alist_wf_def comp_def leaf_child_def case_prod_unfold cong: map_cong)
  have look: "map_of ?n k = (case map_of leaves k of Some e \<Rightarrow> Some (child_entry parent (leaf_child e)) | None \<Rightarrow> map_of (drop_children parent nodes) k)" for k
  proof -
    have "map_of ?n k = (case map_of (map (\<lambda>c. (rc_node_id c, c)) ?cs) k of Some c \<Rightarrow> Some (child_entry parent c) | None \<Rightarrow> map_of (drop_children parent nodes) k)"
    proof (rule fold_children_fresh[OF d])
      fix c e
      assume c: "c \<in> set ?cs" and e: "map_of (drop_children parent nodes) (rc_node_id c) = Some e"
      from c obtain k l where kl: "(k, l) \<in> set leaves" "c = leaf_child l" by auto
      then have "map_of leaves (rc_node_id c) \<noteq> None"
        using leaves nodes_wf_lookup[OF leaves, of k l] nodes_wf_id[OF leaves, of k l] by (auto simp: leaf_child_def)
      moreover have "map_of nodes (rc_node_id c) = Some e" using e by (auto simp: map_of_drop_children[OF wf] split: option.splits if_splits)
      ultimately show "ne_parent e \<noteq> None" by (rule direct)
    qed
    then show ?thesis by (simp only: map_of_leaf_children[OF leaves]) (auto split: option.split)
  qed
  have wfn: "nodes_wf ?n" by (intro nodes_wf_fold_children nodes_wf_drop_children wf)
  have "mset (map (gate_fields \<circ> snd) (filter (\<lambda>(_, e). P e) ?n)) = mset (map (gate_fields \<circ> snd) (filter (\<lambda>(_, e). P e) leaves))"
  proof (rule mset_of_same_lookup)
    show "alist_wf (filter (\<lambda>(_, e). P e) ?n)" "alist_wf (filter (\<lambda>(_, e). P e) leaves)"
      using wfn leaves by (simp_all add: nodes_wf_def alist_wf_filter)
    fix k
    have "map_of (drop_children parent nodes) k = Some e \<Longrightarrow> \<not> P e" for e
      using own[of k e] by (auto simp: map_of_drop_children[OF wf] split: option.splits if_splits)
    then show "map_option gate_fields (map_of (filter (\<lambda>(_, e). P e) ?n) k) = map_option gate_fields (map_of (filter (\<lambda>(_, e). P e) leaves) k)"
      using wfn leaves by (auto simp: nodes_wf_def map_of_filter_wf look P gate_fields_child split: option.split)
  qed
  moreover have "map gate_fields (filter P (map snd l)) = map (gate_fields \<circ> snd) (filter (\<lambda>(_, e). P e) l)" for l :: node_map
    by (induction l) auto
  ultimately show ?thesis by simp
qed

text \<open>
  C12: The readiness gate of a dedicated Gateway gives the same answer behind a relay as at the relay: after
  the controller folds the roster that a namespace relay built from its own registry, the bound-port and
  acknowledged-sequence queries and the leaf count of a Gateway in that namespace equal the queries on
  the relay's registry, provided none of its leaves is connected directly and the controller has no other
  rows for that Gateway.
\<close>

theorem relay_report_carries_gate:
  assumes leaves: "nodes_wf leaves" and wf: "nodes_wf (nr_nodes r)"
    and scoped: "\<forall>(k, e)\<in>set leaves. (\<exists>gw. ne_scope e = NodeGateway ns gw) \<and> (\<forall>ports. ne_bound_ports e = Some ports \<longrightarrow> sorted_wrt (<) ports)"
    and direct: "\<forall>(k, e)\<in>set (nr_nodes r). map_of leaves k \<noteq> None \<longrightarrow> ne_parent e \<noteq> None"
    and own: "\<forall>(k, e)\<in>set (nr_nodes r). ne_scope e = NodeGateway ns name \<longrightarrow> ne_parent e = Some parent"
    and fold: "record_roster_report parent (NamespaceScope ns) (roster_report_message leaves) r = (r', accepted)"
  shows "accepted \<and> gateway_node_bound ns name required (nr_nodes r') = gateway_node_bound ns name required leaves \<and>
     gateway_node_acked ns name min_seq (nr_nodes r') = gateway_node_acked ns name min_seq leaves \<and>
     gateway_node_count ns name (nr_nodes r') = gateway_node_count ns name leaves"
proof -
  let ?cs = "map (\<lambda>(_, e). leaf_child e) leaves"
  let ?marked = "update_node parent (\<lambda>e. e\<lparr>ne_is_relay := True\<rparr>) (nr_nodes r)"
  have verdicts: "map (roster_entry_from_wire (NamespaceScope ns)) (roster_report_message leaves) = map EntryChild ?cs"
    unfolding roster_report_message_def using scoped
    by (auto simp: case_prod_unfold roster_child_in_scope_def intro!: roster_entry_round_trip)
  have kept: "List.map_filter (\<lambda>v. case v of EntryChild c \<Rightarrow> Some c | _ \<Rightarrow> None) (map EntryChild cs) = cs" for cs
    by (induction cs) (simp_all add: map_filter_simps)
  have r': "r' = apply_roster parent ?cs r" and accepted
    using fold unfolding record_roster_report_def Let_def verdicts kept by auto
  have n: "nr_nodes r' = fold (fold_child parent) ?cs (drop_children parent ?marked)"
    by (simp add: r' apply_roster_def Let_def bump_roster_def bump_def)
  have wfm: "nodes_wf ?marked" using wf by (rule nodes_wf_update) simp
  have look: "\<exists>e'. map_of (nr_nodes r) k = Some e' \<and> ne_parent e' = ne_parent e \<and> ne_scope e' = ne_scope e"
    if "map_of ?marked k = Some e" for k e using that by (auto simp: map_of_update_node split: if_splits)
  have "mset (map gate_fields (filter (gateway_leaf ns name) (map snd (nr_nodes r')))) = mset (map gate_fields (filter (gateway_leaf ns name) (map snd leaves)))"
    unfolding n
  proof (rule relay_subtree_rows[OF leaves wfm])
    show "ne_parent e \<noteq> None" if l: "map_of leaves k \<noteq> None" and m: "map_of ?marked k = Some e" for k e
    proof -
      obtain e' where e': "(k, e') \<in> set (nr_nodes r)" "ne_parent e' = ne_parent e"
        using look[OF m] by (auto simp: nodes_wf_lookup[OF wf])
      then show ?thesis using bspec[OF direct e'(1)] l by simp
    qed
    show "ne_parent e = Some parent" if m: "map_of ?marked k = Some e" and g: "gateway_leaf ns name e" for k e
    proof -
      obtain e' where e': "(k, e') \<in> set (nr_nodes r)" "ne_parent e' = ne_parent e" "ne_scope e' = ne_scope e"
        using look[OF m] by (auto simp: nodes_wf_lookup[OF wf])
      then show ?thesis using bspec[OF own e'(1)] g by (simp add: gateway_leaf_def)
    qed
  qed (simp add: gateway_leaf_def child_entry_def leaf_child_def)
  from gates_from_fields[OF this] \<open>accepted\<close> show ?thesis
    by (simp add: gateway_node_bound_def gateway_node_acked_def gateway_node_count_def)
qed

definition demo_leaves :: node_map where
  "demo_leaves = nr_nodes (record_bound_ports ''leaf'' [80, 443] (connect ''leaf'' (NodeGateway ''team-a'' ''gw'') 0 node_registry_new))"

theorem relay_report_carries_gate_witness:
  "gateway_node_bound ''team-a'' ''gw'' [443]
     (nr_nodes (fst (record_roster_report ''relay'' (NamespaceScope ''team-a'') (roster_report_message demo_leaves) demo_registry))) \<and>
   \<not> gateway_node_acked ''team-a'' ''gw'' 1
     (nr_nodes (fst (record_roster_report ''relay'' (NamespaceScope ''team-a'') (roster_report_message demo_leaves) demo_registry)))"
proof -
  obtain r' accepted where f: "record_roster_report ''relay'' (NamespaceScope ''team-a'') (roster_report_message demo_leaves) demo_registry = (r', accepted)"
    by force
  have l: "demo_leaves = [(''leaf'', \<lparr>ne_node_id = ''leaf'', ne_scope = NodeGateway ''team-a'' ''gw'', ne_last_acked_version = None,
      ne_target_version = None, ne_last_ack_at = None, ne_connected_since = 0, ne_bound_ports = Some [80, 443], ne_last_acked_seq = None,
      ne_parent = None, ne_is_relay = False, ne_health = None\<rparr>)]" by code_simp
  have "nodes_wf demo_leaves" "nodes_wf (nr_nodes demo_registry)"
    "list_all (\<lambda>(k, e). map_of demo_leaves k \<noteq> None \<longrightarrow> ne_parent e \<noteq> None) (nr_nodes demo_registry)"
    "list_all (\<lambda>(k, e). ne_scope e = NodeGateway ''team-a'' ''gw'' \<longrightarrow> ne_parent e = Some ''relay'') (nr_nodes demo_registry)" by code_simp+
  moreover have "\<forall>(k, e)\<in>set demo_leaves. (\<exists>gw. ne_scope e = NodeGateway ''team-a'' gw) \<and> (\<forall>ports. ne_bound_ports e = Some ports \<longrightarrow> sorted_wrt (<) ports)"
    by (simp add: l)
  ultimately have "gateway_node_bound ''team-a'' ''gw'' [443] (nr_nodes r') = gateway_node_bound ''team-a'' ''gw'' [443] demo_leaves"
    "gateway_node_acked ''team-a'' ''gw'' 1 (nr_nodes r') = gateway_node_acked ''team-a'' ''gw'' 1 demo_leaves"
    using relay_report_carries_gate[OF _ _ _ _ _ f] unfolding list_all_iff by blast+
  moreover have "gateway_node_bound ''team-a'' ''gw'' [443] demo_leaves" "\<not> gateway_node_acked ''team-a'' ''gw'' 1 demo_leaves" by code_simp+
  ultimately show ?thesis by (simp add: f)
qed

end
