(* ===== verification/Forwarding.thy ===== *)
theory Forwarding
  imports Port_Table Resource_Key
begin

text \<open>
  What the proxy sends to a backend once a route is found: the resolved route that \<open>request_filter\<close>
  stores (\<open>crates/coxswain-proxy/src/hooks.rs\<close>, \<open>routing/outcome.rs\<close>) and the whole
  \<open>upstream_request_filter\<close> hook with the request filters it runs (\<open>filters/mod.rs\<close>,
  \<open>filters/header.rs\<close>, \<open>filters/rewrite.rs\<close>, \<open>policy/client_cert.rs\<close>).  The URI builder and the header
  parsers of \<open>http\<close>, the regular-expression engine and the package version are parameters; a header map
  is the list of its (lower-case name, value) pairs.
\<close>

section \<open>Requests\<close>

record req_uri =
  uri_host :: "string option"
  uri_path :: string
  uri_query :: "string option"

record req_header =
  rq_uri :: req_uri
  rq_headers :: "(string \<times> string) list"

record forward_env =
  fe_uri_build :: "string \<Rightarrow> req_uri option"
  fe_name_from :: "string \<Rightarrow> string option"
  fe_value_from :: "string \<Rightarrow> string option"
  fe_regex_expand :: "string \<Rightarrow> string \<Rightarrow> string \<Rightarrow> string option"
  fe_proxy_engine :: string

text \<open>
  \<open>HeaderMap\<close>: \<open>insert\<close> replaces every value of the name in the place of the first, \<open>append\<close> adds one.
\<close>

fun header_insert :: "string \<Rightarrow> string \<Rightarrow> (string \<times> string) list \<Rightarrow> (string \<times> string) list" where
  "header_insert n v [] = [(n, v)]"
| "header_insert n v ((k, w) # hs) =
     (if k = n then (n, v) # filter (\<lambda>h. fst h \<noteq> n) hs else (k, w) # header_insert n v hs)"

definition insert_header :: "string \<Rightarrow> string \<Rightarrow> req_header \<Rightarrow> req_header" where
  "insert_header n v req = req\<lparr>rq_headers := header_insert n v (rq_headers req)\<rparr>"

definition append_header :: "string \<Rightarrow> string \<Rightarrow> req_header \<Rightarrow> req_header" where
  "append_header n v req = req\<lparr>rq_headers := rq_headers req @ [(n, v)]\<rparr>"

definition remove_header :: "string \<Rightarrow> req_header \<Rightarrow> req_header" where
  "remove_header n req = req\<lparr>rq_headers := filter (\<lambda>h. fst h \<noteq> n) (rq_headers req)\<rparr>"

section \<open>Addresses\<close>

text \<open>The \<open>Display\<close> form of the standard library's addresses.\<close>

definition fmt_ipv4 :: "u32 \<Rightarrow> string" where
  "fmt_ipv4 a = join ''.'' (map (\<lambda>b. dec (uint b)) (be_bytes 4 a))"

fun fmt_hex :: "nat \<Rightarrow> string" where
  "fmt_hex n = (if n < 16 then [''0123456789abcdef'' ! n] else fmt_hex (n div 16) @ [''0123456789abcdef'' ! (n mod 16)])"

declare fmt_hex.simps [simp del]

definition ipv6_segments :: "128 word \<Rightarrow> nat list" where
  "ipv6_segments a = map (\<lambda>i. unat (ucast (drop_bit (16 * i) a) :: u16)) (rev [0..<8])"

fun longest_zero_run :: "nat \<Rightarrow> nat \<times> nat \<Rightarrow> nat \<times> nat \<Rightarrow> nat list \<Rightarrow> nat \<times> nat" where
  "longest_zero_run i current longest [] = longest"
| "longest_zero_run i (start, len) longest (x # xs) =
     (if x = 0 then
        (let current = (if len = 0 then i else start, len + 1)
         in longest_zero_run (i + 1) current (if snd current > snd longest then current else longest) xs)
      else longest_zero_run (i + 1) (0, 0) longest xs)"

definition fmt_ipv6 :: "128 word \<Rightarrow> string" where
  "fmt_ipv6 a =
     (let segs = ipv6_segments a;
          (start, len) = longest_zero_run 0 (0, 0) (0, 0) segs
      in if take 6 segs = [0, 0, 0, 0, 0, 0xFFFF] then ''::ffff:'' @ fmt_ipv4 (ucast a)
         else if len > 1 then
           join '':'' (map fmt_hex (take start segs)) @ ''::'' @ join '':'' (map fmt_hex (drop (start + len) segs))
         else join '':'' (map fmt_hex segs))"

definition forwarded_value :: "socket_addr \<Rightarrow> string \<Rightarrow> string" where
  "forwarded_value addr proto =
     (case addr of
        SocketAddrV4 a p \<Rightarrow> ''for=\"'' @ fmt_ipv4 a @ '':'' @ dec (uint p) @ ''\";proto='' @ proto
      | SocketAddrV6 a p _ _ \<Rightarrow> ''for=\"['' @ fmt_ipv6 a @ '']:'' @ dec (uint p) @ ''\";proto='' @ proto)"

section \<open>The resolved route\<close>

definition merge_timeouts :: "route_timeouts \<Rightarrow> route_timeouts \<Rightarrow> route_timeouts" where
  "merge_timeouts route dflt =
     \<lparr>to_request = (case to_request route of None \<Rightarrow> to_request dflt | t \<Rightarrow> t),
      to_backend_request = (case to_backend_request route of None \<Rightarrow> to_backend_request dflt | t \<Rightarrow> t),
      to_connect = (case to_connect route of None \<Rightarrow> to_connect dflt | t \<Rightarrow> t),
      to_read = (case to_read route of None \<Rightarrow> to_read dflt | t \<Rightarrow> t),
      to_send = (case to_send route of None \<Rightarrow> to_send dflt | t \<Rightarrow> t)\<rparr>"

text \<open>
  What \<open>resolve_outcome\<close> makes of a lookup: the match, the status of the error response it writes,
  or the 404 error it returns.
\<close>

datatype ('b, 'net) outcome_result = Matched "('b, 'net) route_match" | Responds u16 | Fails404

fun resolve_outcome :: "('b, 'net) route_outcome \<Rightarrow> ('b, 'net) outcome_result" where
  "resolve_outcome (Found m) = Matched m"
| "resolve_outcome (ErrorOutcome status) = Responds status"
| "resolve_outcome NoHost = Fails404"
| "resolve_outcome NoPath = Fails404"

record 'b resolved_route =
  rr_backend_group :: "'b filter_action backend_group"
  rr_filters :: "'b filter_action list"
  rr_timeouts :: route_timeouts
  rr_original_host :: string
  rr_original_path :: string
  rr_path_pattern :: string
  rr_metric_route_id :: string
  rr_access_log_enabled :: "bool option"
  rr_compression :: "compression_config option"
  rr_circuit_breaker :: "circuit_breaker_config option"

definition effective_path :: "('b, 'net) route_match \<Rightarrow> string \<Rightarrow> string" where
  "effective_path m path = (case rm_normalized_path m of Some s \<Rightarrow> s | None \<Rightarrow> path)"

definition resolved_route_of ::
  "('b, 'net) route_match \<Rightarrow> route_timeouts \<Rightarrow> string \<Rightarrow> string \<Rightarrow> 'b resolved_route" where
  "resolved_route_of m default_timeouts host path =
     \<lparr>rr_backend_group = rm_backend_group m, rr_filters = rm_filters m,
      rr_timeouts = merge_timeouts (rm_timeouts m) default_timeouts, rr_original_host = host,
      rr_original_path = effective_path m path, rr_path_pattern = rm_path_pattern m,
      rr_metric_route_id = rm_metric_route_id m, rr_access_log_enabled = rm_access_log_enabled m,
      rr_compression = rm_compression m, rr_circuit_breaker = rm_circuit_breaker m\<rparr>"

text \<open>The fields of \<open>ProxyCtx\<close> the hook reads.\<close>

record 'b forward_ctx =
  fc_real_client_addr :: "socket_addr option"
  fc_real_client_proto :: "string option"
  fc_resolved :: "'b resolved_route option"
  fc_selected_backend_filters :: "'b filter_action list option"
  fc_auth_response_headers :: "(string \<times> string) list option"
  fc_strip_upstream_headers :: "string list option"
  fc_client_cert_header :: "string option"

section \<open>Request filters\<close>

definition PROXY_OWNED_HEADERS :: "string list" where
  "PROXY_OWNED_HEADERS =
     [''forwarded'', ''x-forwarded-for'', ''x-forwarded-proto'', ''x-real-ip'', ''x-ssl-client-cert'']"

definition is_proxy_owned_header :: "string \<Rightarrow> bool" where
  "is_proxy_owned_header name = list_ex (\<lambda>h. h = name) PROXY_OWNED_HEADERS"

definition strip_proxy_owned_headers :: "req_header \<Rightarrow> req_header" where
  "strip_proxy_owned_headers req = fold remove_header PROXY_OWNED_HEADERS req"

definition apply_header_mod :: "header_mod \<Rightarrow> (string \<Rightarrow> bool) \<Rightarrow> req_header \<Rightarrow> req_header" where
  "apply_header_mod m skip req =
     (let req = fold (\<lambda>(n, v) r. if \<not> skip n then insert_header n v r else r) (hm_set m) req;
          req = fold (\<lambda>(n, v) r. if \<not> skip n then append_header n v r else r) (hm_add m) req
      in fold remove_header (hm_remove m) req)"

definition set_path_and_query :: "forward_env \<Rightarrow> string \<Rightarrow> req_header \<Rightarrow> req_header" where
  "set_path_and_query env path req =
     (let pq = (case uri_query (rq_uri req) of Some q \<Rightarrow> path @ ''?'' @ q | None \<Rightarrow> path)
      in case fe_uri_build env pq of Some uri \<Rightarrow> req\<lparr>rq_uri := uri\<rparr> | None \<Rightarrow> req)"

definition rewrite_path :: "forward_env \<Rightarrow> path_modifier \<Rightarrow> string \<Rightarrow> req_header \<Rightarrow> req_header" where
  "rewrite_path env modifier original_path req =
     set_path_and_query env (path_modifier_apply (fe_regex_expand env) modifier original_path) req"

text \<open>One turn of the filter loop.\<close>

fun apply_request_filter :: "forward_env \<Rightarrow> string \<Rightarrow> 'b filter_action \<Rightarrow> req_header \<Rightarrow> req_header" where
  "apply_request_filter env original_path (RequestHeaderModifier m) req = apply_header_mod m is_proxy_owned_header req"
| "apply_request_filter env original_path (UrlRewrite hostname path) req =
     (let req = (case hostname of
                   Some h \<Rightarrow> (case fe_value_from env h of Some v \<Rightarrow> insert_header ''host'' v req | None \<Rightarrow> req)
                 | None \<Rightarrow> req)
      in case path of Some pm \<Rightarrow> rewrite_path env pm original_path req | None \<Rightarrow> req)"
| "apply_request_filter env original_path (RequestRedirect _ _ _ _ _) req = req"
| "apply_request_filter env original_path (ResponseHeaderModifier _) req = req"
| "apply_request_filter env original_path (Mirror _ _) req = req"
| "apply_request_filter env original_path (Cors _) req = req"

datatype header_error = InvalidHeaderValue

definition apply_request_filters ::
  "forward_env \<Rightarrow> 'b filter_action list \<Rightarrow> string \<Rightarrow> 'b forward_ctx \<Rightarrow> req_header \<Rightarrow> header_error + req_header" where
  "apply_request_filters env filters original_path ctx req =
     (let req = fold (apply_request_filter env original_path) filters req;
          req = insert_header ''x-proxy-engine'' (fe_proxy_engine env) req
      in case fc_real_client_addr ctx of
           None \<Rightarrow> Inr req
         | Some addr \<Rightarrow>
             (let proto = (case fc_real_client_proto ctx of Some p \<Rightarrow> p | None \<Rightarrow> ''http'')
              in case fe_value_from env (forwarded_value addr proto) of
                   Some v \<Rightarrow> Inr (insert_header ''forwarded'' v req)
                 | None \<Rightarrow> Inl InvalidHeaderValue))"

definition forward_client_cert :: "'b forward_ctx \<Rightarrow> req_header \<Rightarrow> req_header" where
  "forward_client_cert ctx req =
     (case fc_client_cert_header ctx of Some hv \<Rightarrow> insert_header ''x-ssl-client-cert'' hv req | None \<Rightarrow> req)"

section \<open>The hook\<close>

definition forward_original_path :: "forward_env \<Rightarrow> string \<Rightarrow> req_header \<Rightarrow> req_header" where
  "forward_original_path env original_path req =
     (if original_path \<noteq> [] \<and> uri_path (rq_uri req) \<noteq> original_path
      then set_path_and_query env original_path req else req)"

definition strip_consumed_headers :: "forward_env \<Rightarrow> 'b forward_ctx \<Rightarrow> req_header \<Rightarrow> req_header" where
  "strip_consumed_headers env ctx req =
     (case fc_strip_upstream_headers ctx of
        None \<Rightarrow> req
      | Some names \<Rightarrow>
          fold (\<lambda>name r. case fe_name_from env name of Some hn \<Rightarrow> remove_header hn r | None \<Rightarrow> r) names req)"

definition insert_auth_headers :: "forward_env \<Rightarrow> 'b forward_ctx \<Rightarrow> req_header \<Rightarrow> req_header" where
  "insert_auth_headers env ctx req =
     (case fc_auth_response_headers ctx of
        None \<Rightarrow> req
      | Some hdrs \<Rightarrow>
          fold (\<lambda>(name, val) r.
            case (fe_name_from env name, fe_value_from env val) of
              (Some hn, Some hv) \<Rightarrow> insert_header hn hv r | _ \<Rightarrow> r) hdrs req)"

definition upstream_request_filter :: "forward_env \<Rightarrow> 'b forward_ctx \<Rightarrow> req_header \<Rightarrow> header_error + req_header" where
  "upstream_request_filter env ctx req =
     (let (filters, original_path) =
            (case fc_resolved ctx of Some r \<Rightarrow> (rr_filters r, rr_original_path r) | None \<Rightarrow> ([], []));
          req = strip_proxy_owned_headers req;
          req = forward_original_path env original_path req
      in case apply_request_filters env filters original_path ctx req of
           Inl e \<Rightarrow> Inl e
         | Inr req \<Rightarrow>
             (case (case fc_selected_backend_filters ctx of
                      Some per_backend \<Rightarrow> apply_request_filters env per_backend original_path ctx req
                    | None \<Rightarrow> Inr req) of
                Inl e \<Rightarrow> Inl e
              | Inr req \<Rightarrow>
                  Inr (forward_client_cert ctx (insert_auth_headers env ctx (strip_consumed_headers env ctx req)))))"

section \<open>Headers leave the URI alone\<close>

named_theorems keeps_uri

lemma header_ops_uri [keeps_uri]:
  "rq_uri (insert_header n v req) = rq_uri req"
  "rq_uri (append_header n v req) = rq_uri req"
  "rq_uri (remove_header n req) = rq_uri req"
  by (simp_all add: insert_header_def append_header_def remove_header_def)

lemma fold_uri: "(\<And>x r. rq_uri (f x r) = rq_uri r) \<Longrightarrow> rq_uri (fold f xs req) = rq_uri req"
  by (induction xs arbitrary: req) auto

lemma apply_header_mod_uri [keeps_uri]: "rq_uri (apply_header_mod m skip req) = rq_uri req"
proof -
  have "rq_uri (fold (\<lambda>(n, v) r. if \<not> skip n then insert_header n v r else r) hs r) = rq_uri r"
    "rq_uri (fold (\<lambda>(n, v) r. if \<not> skip n then append_header n v r else r) hs r) = rq_uri r"
    "rq_uri (fold remove_header ns r) = rq_uri r" for hs ns r
    by (rule fold_uri; auto simp: keeps_uri)+
  then show ?thesis by (simp add: apply_header_mod_def)
qed

lemma hook_headers_uri [keeps_uri]:
  "rq_uri (strip_proxy_owned_headers req) = rq_uri req"
  "rq_uri (forward_client_cert ctx req) = rq_uri req"
  "rq_uri (strip_consumed_headers env ctx req) = rq_uri req"
  "rq_uri (insert_auth_headers env ctx req) = rq_uri req"
  by (auto simp: strip_proxy_owned_headers_def forward_client_cert_def strip_consumed_headers_def insert_auth_headers_def
      keeps_uri intro!: fold_uri split: option.splits)

section \<open>Building a URI\<close>

text \<open>
  What the code relies on of \<open>http::Uri\<close>: from a path that starts with a slash and is made of path
  characters, and a query as the parser yields one, the builder makes the URI with that path and that
  query.  The unreserved characters and the slash are path characters.
\<close>

definition is_uri_path :: "(char \<Rightarrow> bool) \<Rightarrow> string \<Rightarrow> bool" where
  "is_uri_path path_char p \<longleftrightarrow> starts_with p ''/'' \<and> list_all path_char p"

definition uri_builder_laws :: "(string \<Rightarrow> req_uri option) \<Rightarrow> (char \<Rightarrow> bool) \<Rightarrow> (string \<Rightarrow> bool) \<Rightarrow> bool" where
  "uri_builder_laws build path_char is_query \<longleftrightarrow>
     path_char (CHR ''/'') \<and> (\<forall>b. is_unreserved b \<longrightarrow> path_char (char_from b)) \<and>
     (\<forall>p. is_uri_path path_char p \<longrightarrow>
        build p = Some \<lparr>uri_host = None, uri_path = p, uri_query = None\<rparr> \<and>
        (\<forall>q. is_query q \<longrightarrow> build (p @ ''?'' @ q) = Some \<lparr>uri_host = None, uri_path = p, uri_query = Some q\<rparr>))"

definition query_ok :: "(string \<Rightarrow> bool) \<Rightarrow> req_header \<Rightarrow> bool" where
  "query_ok is_query req = (case uri_query (rq_uri req) of Some q \<Rightarrow> is_query q | None \<Rightarrow> True)"

lemma set_path_and_query_path:
  assumes "uri_builder_laws (fe_uri_build env) path_char is_query" "is_uri_path path_char p" "query_ok is_query req"
  shows "uri_path (rq_uri (set_path_and_query env p req)) = p"
    "uri_query (rq_uri (set_path_and_query env p req)) = uri_query (rq_uri req)"
  using assms by (auto simp: set_path_and_query_def uri_builder_laws_def query_ok_def split: option.splits)

lemma decode_unreserved_chars:
  assumes "\<And>b. is_unreserved b \<Longrightarrow> ok (char_from b)" "list_all ok s"
  shows "list_all ok (decode_unreserved s)"
  using assms(2)
proof (induction s rule: decode_unreserved.induct)
  case (2 c s)
  show ?case
  proof (cases "escape_at (c # s)")
    case None
    then show ?thesis using 2 by (simp add: decode_unreserved.simps)
  next
    case (Some dr)
    obtain d rest where dr: "dr = (d, rest)" by force
    have "set rest \<subseteq> set s" using Some dr by (auto dest: escape_at_decomp)
    then have "list_all ok rest" using 2(4) by (auto simp: list_all_iff)
    then show ?thesis using 2 Some dr assms(1) by (simp add: decode_unreserved.simps)
  qed
qed simp

lemma decode_escaped_slashes_chars:
  assumes "ok (CHR ''/'')" "ok (CHR 0x5C)" "list_all ok s"
  shows "list_all ok (decode_escaped_slashes s)"
  using assms(3)
proof (induction s rule: decode_escaped_slashes.induct)
  case (2 c s)
  have sl: "char_from 0x2F = CHR ''/''" "char_from 0x5C = CHR 0x5C" by code_simp+
  show ?case
  proof (cases "escape_at (c # s)")
    case None
    then show ?thesis using 2 by (simp add: decode_escaped_slashes.simps)
  next
    case (Some dr)
    obtain d rest where dr: "dr = (d, rest)" by force
    have "set rest \<subseteq> set s" using Some dr by (auto dest: escape_at_decomp)
    then have "list_all ok rest" using 2(4) by (auto simp: list_all_iff)
    then show ?thesis using 2 Some dr assms(1,2) sl by (auto simp: decode_escaped_slashes.simps)
  qed
qed simp

lemma normalized_is_uri_path:
  assumes "\<And>b. is_unreserved b \<Longrightarrow> ok (char_from b)" "ok (CHR ''/'')" "list_all ok (CHR ''/'' # q)"
  shows "is_uri_path ok (cow_str (normalize_apply level (CHR ''/'' # q)))"
proof -
  let ?ok = "\<lambda>c. ok c \<or> c = CHR 0x5C" and ?p = "CHR ''/'' # q"
  obtain q' where q': "predotted ?p level = CHR ''/'' # q'" using predotted_absolute by blast
  obtain r where r: "cow_str (normalize_apply level ?p) = CHR ''/'' # r" using apply_canonical by blast
  have "list_all ?ok ?p" using assms(3) by (auto simp: list_all_iff)
  then have "list_all ?ok (decode_unreserved (if level = DecodeAndMergeSlashes then decode_escaped_slashes ?p else ?p))"
    using assms(1,2) by (intro decode_unreserved_chars) (auto intro: decode_escaped_slashes_chars)
  then have "list_all ok (predotted ?p level)"
    using assms(2) unfolding predotted_def by (auto simp: backslash_to_slash_def list_all_iff)
  then have pre: "\<forall>c\<in>set (CHR ''/'' # q'). ok c" by (simp add: q' list_all_iff)
  have "set (CHR ''/'' # r) \<subseteq> insert (CHR ''/'') (set q')"
    using remove_dot_segments_set[of q'] merge_slashes_set[of "remove_dot_segments (CHR ''/'' # q')"]
    unfolding r[symmetric] apply_run_eq run_normalization_predotted q' Let_def by (auto split: if_splits)
  with pre show ?thesis unfolding r by (auto simp: is_uri_path_def list_all_iff starts_with_def)
qed

section \<open>Filters and the path\<close>

fun path_mod :: "'b filter_action \<Rightarrow> path_modifier list" where
  "path_mod (UrlRewrite _ (Some pm)) = [pm]"
| "path_mod _ = []"

definition path_mods :: "'b filter_action list \<Rightarrow> path_modifier list" where
  "path_mods fs = concat (map path_mod fs)"

text \<open>The path the last of some modifiers leaves: each of them starts from the original path.\<close>

definition rewritten :: "forward_env \<Rightarrow> path_modifier list \<Rightarrow> string \<Rightarrow> string \<Rightarrow> string" where
  "rewritten env pms original_path path =
     (if pms = [] then path else path_modifier_apply (fe_regex_expand env) (last pms) original_path)"

lemma apply_request_filter_path:
  assumes "uri_builder_laws (fe_uri_build env) path_char is_query" "query_ok is_query req"
    and "\<forall>pm\<in>set (path_mod f). is_uri_path path_char (path_modifier_apply (fe_regex_expand env) pm op)"
  shows "uri_path (rq_uri (apply_request_filter env op f req)) = rewritten env (path_mod f) op (uri_path (rq_uri req)) \<and>
    uri_query (rq_uri (apply_request_filter env op f req)) = uri_query (rq_uri req)"
proof (cases f)
  case (UrlRewrite hostname path)
  let ?r = "case hostname of Some h \<Rightarrow> (case fe_value_from env h of Some v \<Rightarrow> insert_header ''host'' v req | None \<Rightarrow> req) | None \<Rightarrow> req"
  have r: "rq_uri ?r = rq_uri req" by (auto simp: keeps_uri split: option.splits)
  then have "query_ok is_query ?r" using assms(2) by (simp add: query_ok_def)
  then show ?thesis
    using UrlRewrite r assms set_path_and_query_path[OF assms(1), of _ ?r]
    by (cases path) (simp_all add: rewritten_def rewrite_path_def)
qed (simp_all add: rewritten_def keeps_uri)

lemma fold_filters_path:
  assumes "uri_builder_laws (fe_uri_build env) path_char is_query" "query_ok is_query req"
    and "\<forall>pm\<in>set (path_mods fs). is_uri_path path_char (path_modifier_apply (fe_regex_expand env) pm op)"
  shows "uri_path (rq_uri (fold (apply_request_filter env op) fs req)) = rewritten env (path_mods fs) op (uri_path (rq_uri req)) \<and>
    uri_query (rq_uri (fold (apply_request_filter env op) fs req)) = uri_query (rq_uri req)"
  using assms(2,3)
proof (induction fs arbitrary: req)
  case (Cons f fs)
  let ?r = "apply_request_filter env op f req"
  have step: "uri_path (rq_uri ?r) = rewritten env (path_mod f) op (uri_path (rq_uri req))" "uri_query (rq_uri ?r) = uri_query (rq_uri req)"
    using apply_request_filter_path[OF assms(1) Cons.prems(1), of f op] Cons.prems(2) by (auto simp: path_mods_def)
  then have "query_ok is_query ?r" using Cons.prems(1) by (simp add: query_ok_def)
  from Cons.IH[OF this] Cons.prems(2) step show ?case by (auto simp: path_mods_def rewritten_def)
qed (simp add: path_mods_def rewritten_def)

section \<open>The Forwarded value is a header value\<close>

text \<open>\<open>HeaderValue::from_str\<close> takes any string of visible ASCII characters.\<close>

definition visible :: "char \<Rightarrow> bool" where
  "visible c \<longleftrightarrow> 32 \<le> (of_char c :: nat) \<and> (of_char c :: nat) < 127"

lemma visible_dec: "0 \<le> n \<Longrightarrow> list_all visible (dec n)"
proof (induction n rule: dec.induct)
  case (1 n)
  have d: "visible (digit_char k)" if "0 \<le> k" "k < 10" for k
  proof -
    have "k \<in> {0, 1, 2, 3, 4, 5, 6, 7, 8, 9}" using that by (simp, presburger)
    moreover have "\<forall>k\<in>{0, 1, 2, 3, 4, 5, 6, 7, 8, 9}. visible (digit_char k)" by code_simp
    ultimately show ?thesis by blast
  qed
  show ?case using 1 d[of n] d[of "n mod 10"] by (subst dec.simps) auto
qed

lemma visible_hex: "list_all visible (fmt_hex n)"
proof (induction n rule: fmt_hex.induct)
  case (1 n)
  have "list_all visible ''0123456789abcdef''" by code_simp
  then have d: "visible (''0123456789abcdef'' ! k)" if "k < 16" for k
    using that unfolding list_all_length by simp
  show ?case using 1 d[of n] d[of "n mod 16"] by (subst fmt_hex.simps) auto
qed

lemma visible_join: "list_all visible sep \<Longrightarrow> \<forall>x\<in>set xs. list_all visible x \<Longrightarrow> list_all visible (join sep xs)"
  by (induction sep xs rule: join.induct) auto

lemma visible_forwarded_value: "list_all visible proto \<Longrightarrow> list_all visible (forwarded_value addr proto)"
proof -
  assume p: "list_all visible proto"
  have punct: "list_all visible ''for=\"[]:;proto=.''" by code_simp
  have v4: "list_all visible (fmt_ipv4 a)" for a
    using punct unfolding fmt_ipv4_def by (intro visible_join) (auto intro: visible_dec)
  have sep: "list_all visible (join '':'' (map fmt_hex xs))" for xs
    using punct by (intro visible_join) (auto intro: visible_hex)
  have f: "visible (CHR ''f'')" by code_simp
  have "list_all visible (fmt_ipv6 a)" for a
    using punct v4 sep f by (auto simp: fmt_ipv6_def Let_def split: prod.splits)
  then show ?thesis using p punct v4 visible_dec by (auto simp: forwarded_value_def split: socket_addr.split)
qed

lemma apply_request_filters_path:
  assumes "uri_builder_laws (fe_uri_build env) path_char is_query" "query_ok is_query req"
    and "\<forall>pm\<in>set (path_mods fs). is_uri_path path_char (path_modifier_apply (fe_regex_expand env) pm op)"
    and "\<forall>s. list_all visible s \<longrightarrow> fe_value_from env s = Some s" "\<forall>proto. fc_real_client_proto ctx = Some proto \<longrightarrow> list_all visible proto"
  shows "\<exists>r. apply_request_filters env fs op ctx req = Inr r \<and>
    uri_path (rq_uri r) = rewritten env (path_mods fs) op (uri_path (rq_uri req)) \<and> uri_query (rq_uri r) = uri_query (rq_uri req)"
proof -
  have "list_all visible (case fc_real_client_proto ctx of Some p \<Rightarrow> p | None \<Rightarrow> ''http'')"
    using assms(5) by (auto split: option.split) (code_simp)+
  then have "fe_value_from env (forwarded_value addr (case fc_real_client_proto ctx of Some p \<Rightarrow> p | None \<Rightarrow> ''http'')) \<noteq> None" for addr
    using assms(4) visible_forwarded_value by simp
  then have val: "\<exists>v. fe_value_from env (forwarded_value addr (case fc_real_client_proto ctx of Some p \<Rightarrow> p | None \<Rightarrow> ''http'')) = Some v" for addr
    by auto
  show ?thesis
  proof (cases "fc_real_client_addr ctx")
    case (Some addr)
    obtain v where "fe_value_from env (forwarded_value addr (case fc_real_client_proto ctx of Some p \<Rightarrow> p | None \<Rightarrow> ''http'')) = Some v"
      using val by blast
    then show ?thesis using fold_filters_path[OF assms(1-3)] Some by (simp add: apply_request_filters_def Let_def keeps_uri)
  qed (use fold_filters_path[OF assms(1-3)] in \<open>simp add: apply_request_filters_def keeps_uri\<close>)
qed

lemma resolve_outcome_Matched: "resolve_outcome x = Matched m \<longleftrightarrow> x = Found m"
  by (cases x) auto

section \<open>Properties\<close>

text \<open>
  C3: A request is matched and forwarded on one and the same canonical path.  Whenever the lookup finds a
  route for an absolute request path, the hook that prepares the upstream request succeeds with that route, and
  the path it sends is the very path that selected the route, absolute and free of dot segments and
  backslashes, unless the filters of the route or of the selected backend rewrite the path: then it is the
  last of these rewrites applied to that path.  The query is kept.  The rewrites produce paths the URI builder
  accepts, and the builder and the header parser behave as documented.
\<close>

theorem routed_path_is_forwarded_path:
  fixes m :: "('b, 'net) route_match"
  assumes "resolve_outcome (port_find mt env pt host (uri_path (rq_uri req)) rctx) = Matched m"
    and "uri_builder_laws (fe_uri_build fenv) path_char is_query"
    and "is_uri_path path_char (uri_path (rq_uri req))" and "query_ok is_query req"
    and "\<forall>s. list_all visible s \<longrightarrow> fe_value_from fenv s = Some s"
    and "\<forall>proto. fc_real_client_proto ctx = Some proto \<longrightarrow> list_all visible proto"
    and "fc_resolved ctx = Some (resolved_route_of m default_timeouts host (uri_path (rq_uri req)))"
    and "pms = path_mods (rm_filters m @ (case fc_selected_backend_filters ctx of Some fs \<Rightarrow> fs | None \<Rightarrow> []))"
    and "\<forall>pm\<in>set pms. is_uri_path path_char
           (path_modifier_apply (fe_regex_expand fenv) pm (effective_path m (uri_path (rq_uri req))))"
  shows "\<exists>r p up. resolve_host pt host = Some r \<and>
     host_route mt env r p rctx = Some (m\<lparr>rm_normalized_path := None\<rparr>) \<and> rm_error_status m = None \<and>
     starts_with p ''/'' \<and> dot_free p \<and> CHR 0x5C \<notin> set p \<and>
     upstream_request_filter fenv ctx req = Inr up \<and>
     uri_path (rq_uri up) = (if pms = [] then p else path_modifier_apply (fe_regex_expand fenv) (last pms) p) \<and>
     uri_query (rq_uri up) = uri_query (rq_uri req)"
proof -
  let ?path = "uri_path (rq_uri req)" and ?p = "effective_path m (uri_path (rq_uri req))"
  let ?fs = "case fc_selected_backend_filters ctx of Some fs \<Rightarrow> fs | None \<Rightarrow> []"
  obtain q where q: "?path = CHR ''/'' # q" using assms(3) by (auto simp: is_uri_path_def starts_with_iff)
  obtain r p where found: "resolve_host pt host = Some r" "p = cow_str (normalize_apply (hr_normalize r) ?path)"
    "(case rm_normalized_path m of Some s \<Rightarrow> s | None \<Rightarrow> ?path) = p" "rm_error_status m = None"
    "host_route mt env r p rctx = Some (m\<lparr>rm_normalized_path := None\<rparr>)"
    using assms(1)[unfolded resolve_outcome_Matched] by (rule port_find_Found)
  have p: "?p = p" using found(3) by (simp add: effective_path_def)
  have canon: "starts_with p ''/''" "dot_free p" "CHR 0x5C \<notin> set p"
    using apply_canonical[of "hr_normalize r" q] found(2) q by (auto simp: starts_with_def)
  have ok: "is_uri_path path_char p"
    using normalized_is_uri_path[of path_char q] assms(2,3) unfolding found(2) q by (simp add: uri_builder_laws_def is_uri_path_def)
  let ?r0 = "forward_original_path fenv p (strip_proxy_owned_headers req)"
  have "query_ok is_query (strip_proxy_owned_headers req)" using assms(4) by (simp add: query_ok_def keeps_uri)
  from set_path_and_query_path[OF assms(2) ok this]
  have r0: "uri_path (rq_uri ?r0) = p" "uri_query (rq_uri ?r0) = uri_query (rq_uri req)"
    using canon(1) by (auto simp: forward_original_path_def keeps_uri starts_with_def)
  note pms = assms(9)[unfolded assms(8) p]
  have "query_ok is_query ?r0" using assms(4) r0 by (simp add: query_ok_def)
  then obtain r1 where r1: "apply_request_filters fenv (rm_filters m) p ctx ?r0 = Inr r1"
    "uri_path (rq_uri r1) = rewritten fenv (path_mods (rm_filters m)) p p" "uri_query (rq_uri r1) = uri_query (rq_uri req)"
    using apply_request_filters_path[OF assms(2) _ _ assms(5,6), of ?r0 "rm_filters m" p] pms r0 by (auto simp: path_mods_def)
  then have "query_ok is_query r1" using assms(4) by (simp add: query_ok_def)
  then obtain r2 where r2: "(case fc_selected_backend_filters ctx of Some fs \<Rightarrow> apply_request_filters fenv fs p ctx r1 | None \<Rightarrow> Inr r1) = Inr r2"
    "uri_path (rq_uri r2) = rewritten fenv (path_mods ?fs) p (uri_path (rq_uri r1))" "uri_query (rq_uri r2) = uri_query (rq_uri req)"
    using apply_request_filters_path[OF assms(2) _ _ assms(5,6), of r1 ?fs p] pms r1
    by (cases "fc_selected_backend_filters ctx") (auto simp: path_mods_def rewritten_def)
  have "upstream_request_filter fenv ctx req =
      Inr (forward_client_cert ctx (insert_auth_headers fenv ctx (strip_consumed_headers fenv ctx r2)))"
    using r1(1) r2(1) by (simp add: upstream_request_filter_def assms(7) resolved_route_of_def p split: option.splits)
  moreover have "uri_path (rq_uri r2) = (if pms = [] then p else path_modifier_apply (fe_regex_expand fenv) (last pms) p)"
    using r1(2) r2(2) by (auto simp: rewritten_def assms(8) path_mods_def)
  ultimately show ?thesis using found(1,4,5) canon r2(3) by (auto simp: keeps_uri)
qed

text \<open>An instance: a URI split at its question mark, and the route of a small table.\<close>

definition split_uri :: "string \<Rightarrow> req_uri option" where
  "split_uri s =
     (case split_once (CHR ''?'') s of
        Some (p, q) \<Rightarrow> Some \<lparr>uri_host = None, uri_path = p, uri_query = Some q\<rparr>
      | None \<Rightarrow> Some \<lparr>uri_host = None, uri_path = s, uri_query = None\<rparr>)"

lemma split_uri_laws: "uri_builder_laws split_uri (\<lambda>c. c \<noteq> CHR ''?'') (\<lambda>_. True)"
proof -
  have "\<not> is_unreserved (byte_of (CHR ''?''))" by code_simp
  then have "is_unreserved b \<Longrightarrow> char_from b \<noteq> CHR ''?''" for b by (auto simp: char_from_eq_iff)
  moreover have "split_uri p = Some \<lparr>uri_host = None, uri_path = p, uri_query = None\<rparr>"
    "split_uri (p @ ''?'' @ q) = Some \<lparr>uri_host = None, uri_path = p, uri_query = Some q\<rparr>"
    if "list_all (\<lambda>c. c \<noteq> CHR ''?'') p" for p q
  proof -
    have p: "CHR ''?'' \<notin> set p" using that by (auto simp: list_all_iff)
    then have "split_once (CHR ''?'') p = None" by (simp add: split_once_None)
    then show "split_uri p = Some \<lparr>uri_host = None, uri_path = p, uri_query = None\<rparr>" by (simp add: split_uri_def)
    show "split_uri (p @ ''?'' @ q) = Some \<lparr>uri_host = None, uri_path = p, uri_query = Some q\<rparr>"
      using split_once_append[OF p, of q] by (simp add: split_uri_def)
  qed
  ultimately show ?thesis unfolding uri_builder_laws_def is_uri_path_def by blast
qed

definition demo_env :: forward_env where
  "demo_env = \<lparr>fe_uri_build = split_uri, fe_name_from = Some, fe_value_from = Some, fe_regex_expand = (\<lambda>_ _ _. None),
     fe_proxy_engine = ''Coxswain''\<rparr>"

definition demo_request :: req_header where
  "demo_request = \<lparr>rq_uri = \<lparr>uri_host = None, uri_path = ''/a/../health'', uri_query = Some ''v=1''\<rparr>, rq_headers = []\<rparr>"

definition demo_ctx :: "(unit, unit) route_match \<Rightarrow> unit forward_ctx" where
  "demo_ctx m = \<lparr>fc_real_client_addr = Some (SocketAddrV4 0x7F000001 80), fc_real_client_proto = Some ''https'',
     fc_resolved = Some (resolved_route_of m route_timeouts_default ''x'' ''/a/../health''), fc_selected_backend_filters = None,
     fc_auth_response_headers = None, fc_strip_upstream_headers = None, fc_client_cert_header = None\<rparr>"

theorem routed_path_is_forwarded_path_witness:
  "\<exists>m up. port_find alist_matchit sample_env sample_catchall ''x'' ''/a/../health'' request_context_default = Found m \<and>
     upstream_request_filter demo_env (demo_ctx m) demo_request = Inr up \<and>
     dot_free (uri_path (rq_uri up)) \<and> uri_query (rq_uri up) = Some ''v=1''"
proof -
  obtain m where m: "port_find alist_matchit sample_env sample_catchall ''x'' ''/a/../health'' request_context_default = Found m"
    "rm_filters m = []" using sample_catchall_found by blast
  have "is_uri_path (\<lambda>c. c \<noteq> CHR ''?'') ''/a/../health''" by code_simp
  moreover have "list_all visible ''https''" by code_simp
  ultimately show ?thesis
    using m routed_path_is_forwarded_path[of alist_matchit sample_env sample_catchall "''x''" demo_request request_context_default m
        demo_env "\<lambda>c. c \<noteq> CHR ''?''" "\<lambda>_. True" "demo_ctx m" route_timeouts_default "[]"] split_uri_laws
    by (auto simp: demo_env_def demo_request_def demo_ctx_def query_ok_def path_mods_def)
qed

end
