(* ===== verification/Spec2Isabelle.thy ===== *)
theory Spec2Isabelle
  imports Backend_Selection Port_Table Workqueue Access_Control Ownership Resource_Key L4_Tables Tls_Store
    Listener_Status Wire_Tls Wire_Groups Tls_Transport Discovery_Guarantees Upstream Registry_Gate Forwarding
begin

text \<open>
  A verification library for Coxswain, an ingress and Gateway API controller with its proxy.

  \<^bold>\<open>The program.\<close>  A controller watches Kubernetes objects, compiles them into routing tables, TLS stores
  and listener status, and serves these as named resources over a discovery stream.  Proxies, and relays
  between them and the controller, bootstrap an identity, subscribe, keep a cache of the resources they
  acknowledged and publish compiled cells from it.  The data plane answers every request from those cells:
  it resolves host and path, applies access control and filters, picks an upstream endpoint, retries within
  a budget and reports its health back.  Below, file names are relative to \<open>src/crates/\<close>.

  \<^bold>\<open>Shared vocabulary.\<close>  \<open>Cox_Prelude\<close> holds the Rust string, vector and hash-map operations the sources
  use; a Rust string is the list of its bytes, a hash map an association list without repeated keys, and a
  machine integer a word of its width.  \<open>Btree_Map\<close> holds ordered maps and sets, \<open>Result_Monad\<close> the
  \<open>?\<close> operator, \<open>Net_Parse\<close> the address parsers of the standard library.  Errors are values of sum types, times
  are nanoseconds, and third-party code (regular expressions, the radix router, hashes, header and URI
  parsers, CIDR sets, certificate signing, Pingora's retry marker) is an argument of the definitions that
  call it; what a theorem needs of such code is a named hypothesis, shown satisfiable by its witness.

  \<^bold>\<open>Routing\<close> (\<open>coxswain-core/src/routing/common/\<close>).
  \<^item> \<open>Path_Normalize\<close> (\<open>path_normalize.rs\<close>): the normalization pipeline and its pre-scan.  Normalized paths are
    absolute, free of dot segments and backslashes, and the in-place loop of RFC 3986 computes the stack
    semantics on segments.
  \<^item> \<open>Upstream_Tls\<close> (\<open>upstream_tls.rs\<close>), \<open>Retry\<close> (\<open>retry.rs\<close> and the hooks of \<open>coxswain-proxy/src/retry.rs\<close> and
    \<open>hooks.rs\<close>), \<open>Policy_Config\<close> (circuit breaker, compression, rate limit, auth): wildcard names cover one label;
    over every sequence of connection failures, responses and transport errors the retry budget is spent
    exactly.
  \<^item> \<open>Backend\<close> and \<open>Backend_Selection\<close> (\<open>backend.rs\<close>, \<open>endpoints.rs\<close>): backend groups with their four selection
    modes; the invariant of every constructor and selection, exact shares of the weighted round-robin and
    its refinement of a stateless schedule, in-flight accounting, minimal disruption of rendezvous hashing.
  \<^item> \<open>Filters\<close> (\<open>filters.rs\<close>, \<open>predicate.rs\<close>), \<open>Route_Entry\<close> (\<open>entry.rs\<close>), \<open>Host_Router\<close> and \<open>Host_Routing\<close>
    (\<open>host_router.rs\<close>), \<open>Port_Table\<close> (\<open>port.rs\<close>, \<open>table.rs\<close>): building and looking up the tables.  The radix table
    implements ``exact path, else longest covering prefix'', the most specific matching route wins, hosts
    resolve in the documented order, builds of valid paths succeed, and splicing in a compiled host equals
    a full rebuild.
  \<^item> \<open>L4_Tables\<close> (\<open>../passthrough.rs\<close> and its siblings): TCP, UDP and TLS-passthrough tables by port and SNI.

  \<^bold>\<open>The request path\<close> (\<open>coxswain-proxy/src/\<close>).
  \<^item> \<open>Forwarding\<close> (\<open>hooks.rs\<close>, \<open>filters/\<close>, \<open>routing/outcome.rs\<close>, \<open>policy/client_cert.rs\<close>): from the match to the upstream
    request.  The path that selected the route is the path that is sent, or what its last rewrite makes of
    it.
  \<^item> \<open>Access_Control\<close> (\<open>policy/access_control.rs\<close>): the client address behind forwarding headers, allow and
    deny lists.
  \<^item> \<open>Tls_Store\<close> (\<open>coxswain-core/src/tls.rs\<close>, \<open>policy/misdirected.rs\<close>): certificate, client-certificate and
    listener-hostname stores.  What a lookup returns is stated over the registered patterns; the
    misdirected-request guard is compared with the ownership of names the Gateway API prescribes.

  \<^bold>\<open>Discovery\<close> (\<open>coxswain-discovery/src/\<close>).
  \<^item> \<open>Resource_Key\<close> (\<open>wire/resource.rs\<close>), \<open>Wire_Types\<close>, \<open>Wire_Decode\<close>, \<open>Wire_Groups\<close>, \<open>Wire_Tls\<close>, \<open>Tls_Transport\<close>
    (\<open>proto/\<close>, \<open>wire/\<close>): keys parse back to the identity they were printed from, TLS material survives the
    wire, a decoded group satisfies the selection invariant.  Decoders recurse through mirrors under the
    source's own depth limit, and whatever they accept nests no deeper.
  \<^item> \<open>Discovery_Apply\<close> (\<open>apply.rs\<close>, \<open>version.rs\<close>), with \<open>Decode_Locality\<close>, \<open>Route_Rebuild\<close>, \<open>Discovery_Sync\<close> and
    \<open>Discovery_Guarantees\<close>: the staged, all-or-nothing application of snapshots and deltas.  After any history
    the published cells are those a fresh client would compile from the cache, references between
    resources resolve, and only stale partitions are recompiled.
  \<^item> \<open>Identity\<close> (\<open>coxswain-core/src/identity.rs\<close>, \<open>auth.rs\<close>, \<open>server/authz.rs\<close>), \<open>Upstream\<close> (\<open>upstream.rs\<close>,
    \<open>bootstrap_server.rs\<close>, \<open>server/stream.rs\<close>): SPIFFE ids, scope authorization, the closed set of upstreams a
    node accepts, and the directives that move it between controller and relays.
  \<^item> \<open>Node_Registry\<close> and \<open>Registry_Gate\<close> (\<open>coxswain-core/src/node_registry.rs\<close>): connected nodes, relay rosters,
    and the readiness gate over them.

  \<^bold>\<open>Controller services\<close> (\<open>coxswain-core/src/\<close>).  \<open>Workqueue\<close> (\<open>workqueue.rs\<close>): the queue as a transition system of
  producers, a timer and consumers; no key is lost, none is handled twice at once, no wake-up is missed.
  \<open>Health\<close> (\<open>health.rs\<close>): the probes agree with the status page, and reports survive the wire.
  \<open>Listener_Status\<close> and \<open>Ownership\<close>: listener readiness, object keys.

  \<^bold>\<open>Interfaces.\<close>  The locale \<open>endpoint_index\<close> (\<open>Backend_Selection\<close>) is the index the affinity and the
  load-balancing modes share, \<open>host_store\<close> (\<open>Tls_Store\<close>) the lookup order the certificate and the
  client-certificate stores share, \<open>scope_authorizer\<close> (\<open>Identity\<close>) the contract of the authorizers; each is
  interpreted on all of the definitions that implement it.

  \<^bold>\<open>Bounds.\<close>  All loops are structural or have a termination proof; no definition uses fuel of its own.  The depth
  limit of the decoders is the constant of the source.  Lengths are bounded by \<open>2 ^ 63\<close> where a
  word holds a length, which Rust guarantees for every allocation.

  \<^bold>\<open>Not modelled.\<close>  The sequence of Pingora callbacks on a live session, sockets and TLS handshakes;
  authentication, rate limiting, circuit breaking, compression and mirroring at request time, and the
  redirect and CORS responses; the gRPC stream loops of the discovery server and client, the materialization
  and encoding of routing tables, the demultiplexing of a namespace relay; the reflector and the reconcilers,
  which work on the Kubernetes client's types; metrics, logging, the admin pages and the binaries.  Locks are
  modelled by making each critical section one step.  Debug assertions are left out, as release builds leave
  them out.
\<close>

end
